theory Spec2Isabelle
  imports Complex_Main
begin

section \<open>Scalars, vectors and matrices\<close>

text \<open>
  \<^verbatim>\<open>InvertibleMPMSolid<Scalar,Dim>\<close> is instantiated for \<^verbatim>\<open>float\<close> and \<^verbatim>\<open>double\<close>
  and for \<^verbatim>\<open>Dim\<close> 2 and 3. This development reads \<^verbatim>\<open>Scalar\<close> as \<^typ>\<open>real\<close>, so
  every arithmetic operation is exact (no rounding, no overflow, no NaN). A
  \<^verbatim>\<open>Vector<Scalar,Dim>\<close> is an element of any real vector space \<open>'v\<close>, a
  \<^verbatim>\<open>SquareMatrix<Scalar,Dim>\<close> an element of any real algebra with unit \<open>'m\<close>
  (\<open>1\<close> is \<^verbatim>\<open>identityMatrix()\<close>). The classes \<^verbatim>\<open>Vector\<close> and \<^verbatim>\<open>SquareMatrix\<close> are not
  part of the sources at hand; the operations that go beyond the vector space and
  algebra laws (\<^verbatim>\<open>outerProduct\<close>, \<^verbatim>\<open>determinant\<close>, matrix times vector, the
  coordinate axis with index 1) are parameters of the functions that use them.
  The template parameter \<^verbatim>\<open>Dim\<close> is a field of the solver.
\<close>

text \<open>\<^verbatim>\<open>std::numeric_limits<Scalar>::epsilon()\<close>, for \<^verbatim>\<open>double\<close>.\<close>

definition epsilon :: real where
  "epsilon = 1 / 2 ^ 52"

text \<open>Two-dimensional vectors and matrices: the instance at which the theorems
  below are evaluated.\<close>

datatype vec2 = Vec2 real real

datatype mat2 = Mat2 real real real real

instantiation vec2 :: real_vector
begin

definition zero_vec2 :: vec2 where
  "zero_vec2 = Vec2 0 0"

fun plus_vec2 :: "vec2 \<Rightarrow> vec2 \<Rightarrow> vec2" where
  "plus_vec2 (Vec2 a b) (Vec2 c d) = Vec2 (a + c) (b + d)"

fun minus_vec2 :: "vec2 \<Rightarrow> vec2 \<Rightarrow> vec2" where
  "minus_vec2 (Vec2 a b) (Vec2 c d) = Vec2 (a - c) (b - d)"

fun uminus_vec2 :: "vec2 \<Rightarrow> vec2" where
  "uminus_vec2 (Vec2 a b) = Vec2 (- a) (- b)"

fun scaleR_vec2 :: "real \<Rightarrow> vec2 \<Rightarrow> vec2" where
  "scaleR_vec2 r (Vec2 a b) = Vec2 (r * a) (r * b)"

instance
proof
  fix a b c :: vec2 and r s :: real
  show "a + b + c = a + (b + c)" by (cases a; cases b; cases c) simp
  show "a + b = b + a" by (cases a; cases b) simp
  show "0 + a = a" by (cases a) (simp add: zero_vec2_def)
  show "- a + a = 0" by (cases a) (simp add: zero_vec2_def)
  show "a - b = a + - b" by (cases a; cases b) simp
  show "r *\<^sub>R (a + b) = r *\<^sub>R a + r *\<^sub>R b" by (cases a; cases b) (simp add: algebra_simps)
  show "(r + s) *\<^sub>R a = r *\<^sub>R a + s *\<^sub>R a" by (cases a) (simp add: algebra_simps)
  show "r *\<^sub>R s *\<^sub>R a = (r * s) *\<^sub>R a" by (cases a) simp
  show "1 *\<^sub>R a = a" by (cases a) simp
qed

end

instantiation mat2 :: real_algebra_1
begin

definition zero_mat2 :: mat2 where
  "zero_mat2 = Mat2 0 0 0 0"

definition one_mat2 :: mat2 where
  "one_mat2 = Mat2 1 0 0 1"

fun plus_mat2 :: "mat2 \<Rightarrow> mat2 \<Rightarrow> mat2" where
  "plus_mat2 (Mat2 a b c d) (Mat2 e f g h) = Mat2 (a + e) (b + f) (c + g) (d + h)"

fun minus_mat2 :: "mat2 \<Rightarrow> mat2 \<Rightarrow> mat2" where
  "minus_mat2 (Mat2 a b c d) (Mat2 e f g h) = Mat2 (a - e) (b - f) (c - g) (d - h)"

fun uminus_mat2 :: "mat2 \<Rightarrow> mat2" where
  "uminus_mat2 (Mat2 a b c d) = Mat2 (- a) (- b) (- c) (- d)"

fun times_mat2 :: "mat2 \<Rightarrow> mat2 \<Rightarrow> mat2" where
  "times_mat2 (Mat2 a b c d) (Mat2 e f g h) =
     Mat2 (a * e + b * g) (a * f + b * h) (c * e + d * g) (c * f + d * h)"

fun scaleR_mat2 :: "real \<Rightarrow> mat2 \<Rightarrow> mat2" where
  "scaleR_mat2 r (Mat2 a b c d) = Mat2 (r * a) (r * b) (r * c) (r * d)"

instance
proof
  fix a b c :: mat2 and r s :: real
  show "a + b + c = a + (b + c)" by (cases a; cases b; cases c) simp
  show "a + b = b + a" by (cases a; cases b) simp
  show "0 + a = a" by (cases a) (simp add: zero_mat2_def)
  show "- a + a = 0" by (cases a) (simp add: zero_mat2_def)
  show "a - b = a + - b" by (cases a; cases b) simp
  show "r *\<^sub>R (a + b) = r *\<^sub>R a + r *\<^sub>R b" by (cases a; cases b) (simp add: algebra_simps)
  show "(r + s) *\<^sub>R a = r *\<^sub>R a + s *\<^sub>R a" by (cases a) (simp add: algebra_simps)
  show "r *\<^sub>R s *\<^sub>R a = (r * s) *\<^sub>R a" by (cases a) simp
  show "1 *\<^sub>R a = a" by (cases a) simp
  show "a * b * c = a * (b * c)" by (cases a; cases b; cases c) (simp add: algebra_simps)
  show "(a + b) * c = a * c + b * c" by (cases a; cases b; cases c) (simp add: algebra_simps)
  show "a * (b + c) = a * b + a * c" by (cases a; cases b; cases c) (simp add: algebra_simps)
  show "r *\<^sub>R a * b = r *\<^sub>R (a * b)" by (cases a; cases b) (simp add: algebra_simps)
  show "a * r *\<^sub>R b = r *\<^sub>R (a * b)" by (cases a; cases b) (simp add: algebra_simps)
  show "1 * a = a" by (cases a) (simp add: one_mat2_def)
  show "a * 1 = a" by (cases a) (simp add: one_mat2_def)
  show "(0::mat2) \<noteq> 1" by (simp add: zero_mat2_def one_mat2_def)
qed

end



fun mat_vec2 :: "mat2 \<Rightarrow> vec2 \<Rightarrow> vec2" where
  "mat_vec2 (Mat2 a b c d) (Vec2 x y) = Vec2 (a * x + b * y) (c * x + d * y)"

definition axis1_vec2 :: vec2 where
  "axis1_vec2 = Vec2 0 1"

section \<open>Data model\<close>

datatype error = AssertionFailed | PhysikaError

text \<open>\<^verbatim>\<open>MPMInternal::NodeIndexWeightGradientPair\<close>: a grid node (named by its flat,
  one-dimensional index), the interpolation weight and the weight gradient.\<close>

record 'v NodeIndexWeightGradientPair =
  node_idx :: nat
  weight_value :: real
  gradient_value :: 'v

record ('v, 'm) SolidParticle =
  mass :: real
  volume :: real
  velocity :: 'v
  deformationGradient :: 'm
  cauchyStress :: 'm

text \<open>
  Modelled from the spec: the classes \<^verbatim>\<open>VolumetricMesh\<close>, \<^verbatim>\<open>QuadMesh\<close> and
  \<^verbatim>\<open>CubicMesh\<close> are missing from the sources. Spec, section 3: the particle-domain
  mesh is a "per-object connectivity table mapping (particle, local corner index
  0..corner_num-1) to global corner index", over a global vertex list of corner
  positions. The table is kept flat, as the constructors receive it:
  element \<open>e\<close>'s vertex \<open>c\<close> is entry \<open>e * ele_vert_num + c\<close>.
\<close>

record 'v VolumetricMesh =
  vert_pos :: "'v list"
  ele_vert_num :: nat
  ele_num :: nat
  ele_vert :: "nat list"

definition vertNum :: "'v VolumetricMesh \<Rightarrow> nat" where
  "vertNum m = length (vert_pos m)"

definition eleVertNum :: "'v VolumetricMesh \<Rightarrow> nat \<Rightarrow> nat" where
  "eleVertNum m ele_idx = ele_vert_num m"

definition eleVertIndex :: "'v VolumetricMesh \<Rightarrow> nat \<Rightarrow> nat \<Rightarrow> nat" where
  "eleVertIndex m ele_idx vert_idx = ele_vert m ! (ele_idx * ele_vert_num m + vert_idx)"

definition vertPos :: "'v VolumetricMesh \<Rightarrow> nat \<Rightarrow> 'v" where
  "vertPos m vert_idx = vert_pos m ! vert_idx"

definition setVertPos :: "'v VolumetricMesh \<Rightarrow> nat \<Rightarrow> 'v \<Rightarrow> 'v VolumetricMesh" where
  "setVertPos m vert_idx pos = m\<lparr>vert_pos := (vert_pos m)[vert_idx := pos]\<rparr>"


definition QuadMesh :: "nat \<Rightarrow> 'v list \<Rightarrow> nat \<Rightarrow> nat list \<Rightarrow> 'v VolumetricMesh" where
  "QuadMesh vert_num vertices ele_n elements =
     \<lparr>vert_pos = take vert_num vertices, ele_vert_num = 4, ele_num = ele_n,
      ele_vert = take (ele_n * 4) elements\<rparr>"

definition CubicMesh :: "nat \<Rightarrow> 'v list \<Rightarrow> nat \<Rightarrow> nat list \<Rightarrow> 'v VolumetricMesh" where
  "CubicMesh vert_num vertices ele_n elements =
     \<lparr>vert_pos = take vert_num vertices, ele_vert_num = 8, ele_num = ele_n,
      ele_vert = take (ele_n * 8) elements\<rparr>"

datatype CPDIUpdateMethod = CPDI_method | CPDI2_method

text \<open>
  The members of the parent classes (\<^verbatim>\<open>MPMSolid\<close>, \<^verbatim>\<open>CPDIMPMSolid\<close>) that
  \<^verbatim>\<open>invertible_mpm_solid.cpp\<close> reads and writes. The grid arrays
  (\<^verbatim>\<open>ArrayND<std::map<unsigned int,...>,Dim>\<close>) are indexed by the flat node index
  \<open>0..<grid_node_num\<close> and hold one map from object index to value per node;
  \<^verbatim>\<open>is_dirichlet_grid_node_\<close> holds one set of object indices per node;
  \<^verbatim>\<open>active_grid_node_\<close> (a \<^verbatim>\<open>std::multimap\<close>) is the list of its (node, object)
  pairs in iteration order; \<^verbatim>\<open>contact_method_\<close> is \<open>None\<close> for the null pointer.
\<close>

record ('v, 'm) CPDIMPMSolid =
  Dim :: nat
  particles :: "('v, 'm) SolidParticle list list"
  particle_initial_volume :: "real list list"
  is_dirichlet_particle :: "bool list list"
  particle_grid_pair_num :: "nat list list"
  particle_grid_weight_and_gradient :: "'v NodeIndexWeightGradientPair list list list"
  particle_domain_corners :: "'v list list list"
  corner_grid_pair_num :: "nat list list list"
  corner_grid_weight_and_gradient :: "'v NodeIndexWeightGradientPair list list list list"
  grid_node_num :: nat
  grid_mass :: "nat \<Rightarrow> (nat \<rightharpoonup> real)"
  grid_velocity :: "nat \<Rightarrow> (nat \<rightharpoonup> 'v)"
  grid_velocity_before :: "nat \<Rightarrow> (nat \<rightharpoonup> 'v)"
  is_dirichlet_grid_node :: "nat \<Rightarrow> nat set"
  active_grid_node :: "(nat \<times> nat) list"
  contact_method :: "unit option"
  cpdi_update_method :: CPDIUpdateMethod
  gravity :: real

text \<open>The solver: the parent's members and the members \<^verbatim>\<open>InvertibleMPMSolid\<close> adds.
  A parent-class function is a function on \<open>base\<close>: it cannot reach the private
  members of the derived class.\<close>

record ('v, 'm) InvertibleMPMSolid =
  base :: "('v, 'm) CPDIMPMSolid"
  particle_domain_mesh :: "'v VolumetricMesh list"
  is_enriched_domain_corner :: "bool list list"
  domain_corner_mass :: "real list list"
  domain_corner_velocity :: "'v list list"
  domain_corner_velocity_before :: "'v list list"
  particle_corner_weight :: "real list list list"
  particle_corner_gradient :: "'v list list list"

text \<open>
  Modelled from the spec: the accessors \<^verbatim>\<open>objectNum\<close>, \<^verbatim>\<open>particleNumOfObject\<close>,
  \<^verbatim>\<open>gridMass\<close> and \<^verbatim>\<open>gridVelocity\<close> of \<^verbatim>\<open>MPMSolid\<close> are missing from the sources.
  Spec, section 3: an object is "an ordered collection of particles"; section 6:
  "grid mass/velocity/velocity-before storage indexed by (node index, object
  index)". The two grid accessors return zero where the node's map has no entry
  for the object.
\<close>

definition objectNum :: "('v, 'm) InvertibleMPMSolid \<Rightarrow> nat" where
  "objectNum s = length (particles (base s))"

definition particleNumOfObject :: "('v, 'm) InvertibleMPMSolid \<Rightarrow> nat \<Rightarrow> nat" where
  "particleNumOfObject s obj_idx = length (particles (base s) ! obj_idx)"

definition gridMass :: "('v, 'm) CPDIMPMSolid \<Rightarrow> nat \<Rightarrow> nat \<Rightarrow> real" where
  "gridMass b obj_idx node = (case grid_mass b node obj_idx of None \<Rightarrow> 0 | Some m \<Rightarrow> m)"

definition gridVelocity :: "('v::zero, 'm) CPDIMPMSolid \<Rightarrow> nat \<Rightarrow> nat \<Rightarrow> 'v" where
  "gridVelocity b obj_idx node = (case grid_velocity b node obj_idx of None \<Rightarrow> 0 | Some v \<Rightarrow> v)"

definition corner_num :: "nat \<Rightarrow> nat" where
  "corner_num d = (if d = 2 then 4 else 8)"

text \<open>\<open>xs[i][j] = v\<close> on a vector of vectors.\<close>

definition update2 :: "'a list list \<Rightarrow> nat \<Rightarrow> nat \<Rightarrow> 'a \<Rightarrow> 'a list list" where
  "update2 xs i j v = xs[i := (xs ! i)[j := v]]"

definition update3 :: "'a list list list \<Rightarrow> nat \<Rightarrow> nat \<Rightarrow> nat \<Rightarrow> 'a \<Rightarrow> 'a list list list" where
  "update3 xs i j k v = xs[i := update2 (xs ! i) j k v]"

text \<open>\<open>m[k]\<close> on a \<^verbatim>\<open>std::map\<close>: the entry of the key, and a zero entry made for
  a key the map does not hold.\<close>

definition at_key :: "('k \<rightharpoonup> 'a::zero) \<Rightarrow> 'k \<Rightarrow> 'a" where
  "at_key m k = (case m k of None \<Rightarrow> 0 | Some v \<Rightarrow> v)"

text \<open>A loop whose body can abort: the first error ends it.\<close>

primrec foldE :: "('a \<Rightarrow> 's \<Rightarrow> error + 's) \<Rightarrow> 'a list \<Rightarrow> 's \<Rightarrow> error + 's" where
  "foldE f [] s = Inr s"
| "foldE f (x # xs) s = (case f x s of Inl e \<Rightarrow> Inl e | Inr s' \<Rightarrow> foldE f xs s')"

section \<open>Enrichment classification\<close>

text \<open>\<^verbatim>\<open>resetParticleDomainData\<close>: every per-corner entry of every object back to zero.\<close>

definition reset_corner :: "nat \<Rightarrow> nat \<Rightarrow> ('v::zero, 'm) InvertibleMPMSolid \<Rightarrow> ('v, 'm) InvertibleMPMSolid" where
  "reset_corner obj_idx domain_corner_idx s =
     s\<lparr>is_enriched_domain_corner := update2 (is_enriched_domain_corner s) obj_idx domain_corner_idx False,
       domain_corner_mass := update2 (domain_corner_mass s) obj_idx domain_corner_idx 0,
       domain_corner_velocity := update2 (domain_corner_velocity s) obj_idx domain_corner_idx 0,
       domain_corner_velocity_before := update2 (domain_corner_velocity_before s) obj_idx domain_corner_idx 0\<rparr>"

definition reset_object :: "nat \<Rightarrow> ('v::zero, 'm) InvertibleMPMSolid \<Rightarrow> ('v, 'm) InvertibleMPMSolid" where
  "reset_object obj_idx s =
     fold (reset_corner obj_idx) [0..<vertNum (particle_domain_mesh s ! obj_idx)] s"

definition resetParticleDomainData :: "('v::zero, 'm) InvertibleMPMSolid \<Rightarrow> ('v, 'm) InvertibleMPMSolid" where
  "resetParticleDomainData s = fold reset_object [0..<objectNum s] s"

text \<open>\<^verbatim>\<open>isEnrichCriteriaSatisfied\<close>: the body is \<^verbatim>\<open>return true;\<close>.\<close>

definition isEnrichCriteriaSatisfied :: "('v, 'm) InvertibleMPMSolid \<Rightarrow> nat \<Rightarrow> nat \<Rightarrow> bool" where
  "isEnrichCriteriaSatisfied s obj_idx particle_idx = True"

text \<open>\<^verbatim>\<open>updateParticleDomainEnrichState\<close>, with the criterion it asks as a parameter
  (\<open>criteria obj_idx particle_idx\<close>), and then as the source has it, asking
  \<^verbatim>\<open>isEnrichCriteriaSatisfied\<close>. The mesh pointers are those set by
  \<^verbatim>\<open>constructParticleDomainMesh\<close>, never null, so the assertion on them passes.\<close>

definition enrich_corner :: "nat \<Rightarrow> nat \<Rightarrow> nat \<Rightarrow> ('v, 'm) InvertibleMPMSolid \<Rightarrow> ('v, 'm) InvertibleMPMSolid" where
  "enrich_corner obj_idx particle_idx corner_idx s =
     (let global_corner_idx = eleVertIndex (particle_domain_mesh s ! obj_idx) particle_idx corner_idx
      in s\<lparr>is_enriched_domain_corner :=
             update2 (is_enriched_domain_corner s) obj_idx global_corner_idx True\<rparr>)"

definition enrich_particle ::
  "(nat \<Rightarrow> nat \<Rightarrow> bool) \<Rightarrow> nat \<Rightarrow> nat \<Rightarrow> ('v, 'm) InvertibleMPMSolid \<Rightarrow> ('v, 'm) InvertibleMPMSolid" where
  "enrich_particle criteria obj_idx particle_idx s =
     (if criteria obj_idx particle_idx
      then fold (enrich_corner obj_idx particle_idx)
             [0..<eleVertNum (particle_domain_mesh s ! obj_idx) particle_idx] s
      else s)"

definition enrich_object ::
  "(nat \<Rightarrow> nat \<Rightarrow> bool) \<Rightarrow> nat \<Rightarrow> ('v, 'm) InvertibleMPMSolid \<Rightarrow> ('v, 'm) InvertibleMPMSolid" where
  "enrich_object criteria obj_idx s =
     fold (enrich_particle criteria obj_idx) [0..<particleNumOfObject s obj_idx] s"

definition updateParticleDomainEnrichState_with ::
  "(nat \<Rightarrow> nat \<Rightarrow> bool) \<Rightarrow> ('v, 'm) InvertibleMPMSolid \<Rightarrow> ('v, 'm) InvertibleMPMSolid" where
  "updateParticleDomainEnrichState_with criteria s =
     fold (enrich_object criteria) [0..<objectNum s] s"

definition updateParticleDomainEnrichState :: "('v, 'm) InvertibleMPMSolid \<Rightarrow> ('v, 'm) InvertibleMPMSolid" where
  "updateParticleDomainEnrichState s = updateParticleDomainEnrichState_with (isEnrichCriteriaSatisfied s) s"

text \<open>A domain corner (a vertex of the mesh) is a corner of the particle's domain.\<close>

definition touches :: "'v VolumetricMesh \<Rightarrow> nat \<Rightarrow> nat \<Rightarrow> bool" where
  "touches m p g = (\<exists>c<eleVertNum m p. eleVertIndex m p c = g)"

text \<open>The count every phase starts a particle with: how many of its
  \<open>corner_num\<close> domain corners are enriched.\<close>

definition enriched_corner_num :: "('v, 'm) InvertibleMPMSolid \<Rightarrow> nat \<Rightarrow> nat \<Rightarrow> nat" where
  "enriched_corner_num s obj_idx particle_idx =
     length (filter (\<lambda>corner_idx.
                       is_enriched_domain_corner s ! obj_idx !
                         eleVertIndex (particle_domain_mesh s ! obj_idx) particle_idx corner_idx)
                    [0..<corner_num (Dim (base s))])"

section \<open>Rasterization\<close>

text \<open>\<^verbatim>\<open>rasterize\<close>, lines 122-139: one (node, weight, gradient) pair of an ordinary
  or transient particle. The mass is added to the object's entry at the node, or a
  new entry is made; the momentum likewise, unless the node is a Dirichlet node of the
  object.\<close>

definition rasterize_pair ::
  "nat \<Rightarrow> ('v::real_vector, 'm) SolidParticle \<Rightarrow> 'v NodeIndexWeightGradientPair \<Rightarrow>
   ('v, 'm) CPDIMPMSolid \<Rightarrow> error + ('v, 'm) CPDIMPMSolid" where
  "rasterize_pair obj_idx particle pair b =
     (let weight = weight_value pair; n = node_idx pair in
      if \<not> weight > epsilon then Inl AssertionFailed
      else
        let b1 = b\<lparr>grid_mass := (grid_mass b)(n := (grid_mass b n)(obj_idx \<mapsto>
                     (case grid_mass b n obj_idx of
                        Some m \<Rightarrow> m + weight * mass particle
                      | None \<Rightarrow> weight * mass particle)))\<rparr>
        in if obj_idx \<in> is_dirichlet_grid_node b1 n then Inr b1
           else Inr (b1\<lparr>grid_velocity := (grid_velocity b1)(n := (grid_velocity b1 n)(obj_idx \<mapsto>
                     (case grid_velocity b1 n obj_idx of
                        Some v \<Rightarrow> v + weight *\<^sub>R (mass particle *\<^sub>R velocity particle)
                      | None \<Rightarrow> weight *\<^sub>R (mass particle *\<^sub>R velocity particle))))\<rparr>))"

text \<open>Lines 144-153: one domain corner of a transient or enriched particle.\<close>

definition rasterize_corner ::
  "nat \<Rightarrow> nat \<Rightarrow> ('v::real_vector, 'm) SolidParticle \<Rightarrow> nat \<Rightarrow>
   ('v, 'm) InvertibleMPMSolid \<Rightarrow> ('v, 'm) InvertibleMPMSolid" where
  "rasterize_corner obj_idx particle_idx particle corner_idx s =
     (let global_corner_idx = eleVertIndex (particle_domain_mesh s ! obj_idx) particle_idx corner_idx in
      if is_enriched_domain_corner s ! obj_idx ! global_corner_idx
      then
        let weight = particle_corner_weight s ! obj_idx ! particle_idx ! corner_idx in
        s\<lparr>domain_corner_mass :=
            update2 (domain_corner_mass s) obj_idx global_corner_idx
              (domain_corner_mass s ! obj_idx ! global_corner_idx + weight * mass particle),
          domain_corner_velocity :=
            update2 (domain_corner_velocity s) obj_idx global_corner_idx
              (domain_corner_velocity s ! obj_idx ! global_corner_idx
                 + weight *\<^sub>R (mass particle *\<^sub>R velocity particle))\<rparr>
      else s)"

text \<open>Lines 104-155: one particle. The first \<^verbatim>\<open>particle_grid_pair_num_\<close> entries of
  the particle's pair array are the pairs in use.\<close>

definition rasterize_particle ::
  "nat \<Rightarrow> nat \<Rightarrow> ('v::real_vector, 'm) InvertibleMPMSolid \<Rightarrow> error + ('v, 'm) InvertibleMPMSolid" where
  "rasterize_particle obj_idx particle_idx s =
     (let particle = particles (base s) ! obj_idx ! particle_idx;
          cn = corner_num (Dim (base s));
          ecn = enriched_corner_num s obj_idx particle_idx
      in case (if ecn < cn
               then foldE (rasterize_pair obj_idx particle)
                      (take (particle_grid_pair_num (base s) ! obj_idx ! particle_idx)
                         (particle_grid_weight_and_gradient (base s) ! obj_idx ! particle_idx))
                      (base s)
               else Inr (base s)) of
           Inl e \<Rightarrow> Inl e
         | Inr b \<Rightarrow>
             Inr (if ecn > 0
                  then fold (rasterize_corner obj_idx particle_idx particle) [0..<cn] (s\<lparr>base := b\<rparr>)
                  else s\<lparr>base := b\<rparr>))"

text \<open>Lines 157-162: momentum to velocity at one domain corner.\<close>

definition normalize_corner ::
  "nat \<Rightarrow> nat \<Rightarrow> ('v::real_vector, 'm) InvertibleMPMSolid \<Rightarrow> ('v, 'm) InvertibleMPMSolid" where
  "normalize_corner obj_idx corner_idx s =
     (if domain_corner_mass s ! obj_idx ! corner_idx > epsilon
      then
        let v = domain_corner_velocity s ! obj_idx ! corner_idx /\<^sub>R domain_corner_mass s ! obj_idx ! corner_idx
        in s\<lparr>domain_corner_velocity := update2 (domain_corner_velocity s) obj_idx corner_idx v,
             domain_corner_velocity_before := update2 (domain_corner_velocity_before s) obj_idx corner_idx v\<rparr>
      else s)"

text \<open>Lines 102-163: one object, and then all of them.\<close>

definition rasterize_object ::
  "nat \<Rightarrow> ('v::real_vector, 'm) InvertibleMPMSolid \<Rightarrow> error + ('v, 'm) InvertibleMPMSolid" where
  "rasterize_object obj_idx s =
     (case foldE (rasterize_particle obj_idx) [0..<particleNumOfObject s obj_idx] s of
        Inl e \<Rightarrow> Inl e
      | Inr s1 \<Rightarrow>
          Inr (fold (normalize_corner obj_idx) [0..<length (domain_corner_mass s1 ! obj_idx)] s1))"

definition rasterize_objects ::
  "('v::real_vector, 'm) InvertibleMPMSolid \<Rightarrow> error + ('v, 'm) InvertibleMPMSolid" where
  "rasterize_objects s = foldE rasterize_object [0..<objectNum s] s"

text \<open>\<^verbatim>\<open>std::multimap::insert\<close>: after the last pair whose key is not greater.\<close>

fun multimap_insert :: "nat \<times> nat \<Rightarrow> (nat \<times> nat) list \<Rightarrow> (nat \<times> nat) list" where
  "multimap_insert kv [] = [kv]"
| "multimap_insert kv (x # xs) =
     (if fst kv < fst x then kv # x # xs else x # multimap_insert kv xs)"

text \<open>\<^verbatim>\<open>active_grid_node_.count(k)\<close> and the range from \<^verbatim>\<open>lower_bound(k)\<close> to
  \<^verbatim>\<open>upper_bound(k)\<close>.\<close>

definition multimap_range :: "nat \<Rightarrow> (nat \<times> nat) list \<Rightarrow> (nat \<times> nat) list" where
  "multimap_range k table = filter (\<lambda>kv. fst kv = k) table"

definition multimap_count :: "nat \<Rightarrow> (nat \<times> nat) list \<Rightarrow> nat" where
  "multimap_count k table = length (multimap_range k table)"

text \<open>Lines 165-179. The local \<^verbatim>\<open>active_node_idx_1d_nd_map\<close> maps a flat node index
  to the node; with nodes named by their flat index it is the ascending list of its
  keys.\<close>

definition activate_node_object ::
  "nat \<Rightarrow> nat \<Rightarrow> ('v, 'm) CPDIMPMSolid \<times> nat list \<Rightarrow> ('v, 'm) CPDIMPMSolid \<times> nat list" where
  "activate_node_object node obj_idx acc =
     (let b = fst acc; active_node_idx = snd acc in
      if gridMass b obj_idx node > epsilon
      then (b\<lparr>active_grid_node := multimap_insert (node, obj_idx) (active_grid_node b)\<rparr>,
            if node \<in> set active_node_idx then active_node_idx else insort node active_node_idx)
      else acc)"

definition activate_nodes ::
  "nat \<Rightarrow> ('v, 'm) CPDIMPMSolid \<Rightarrow> ('v, 'm) CPDIMPMSolid \<times> nat list" where
  "activate_nodes object_num b =
     fold (\<lambda>node acc. fold (activate_node_object node) [0..<object_num] acc)
          [0..<grid_node_num b] (b, [])"

text \<open>Lines 181-188, one pair of \<^verbatim>\<open>active_grid_node_\<close>: \<open>m[k]\<close> makes the entries it
  reads. The node of a pair is looked up in the local map; every pair the loop of lines
  165-179 inserted is a key of that map.\<close>

definition grid_velocity_pair ::
  "nat \<times> nat \<Rightarrow> ('v::real_vector, 'm) CPDIMPMSolid \<Rightarrow> ('v, 'm) CPDIMPMSolid" where
  "grid_velocity_pair kv b =
     (let node = fst kv; object_idx = snd kv;
          b1 = (if object_idx \<notin> is_dirichlet_grid_node b node
                then b\<lparr>grid_velocity := (grid_velocity b)(node := (grid_velocity b node)(object_idx \<mapsto>
                          at_key (grid_velocity b node) object_idx /\<^sub>R at_key (grid_mass b node) object_idx)),
                       grid_mass := (grid_mass b)(node := (grid_mass b node)(object_idx \<mapsto>
                          at_key (grid_mass b node) object_idx))\<rparr>
                else b);
          v = at_key (grid_velocity b1 node) object_idx
      in b1\<lparr>grid_velocity := (grid_velocity b1)(node := (grid_velocity b1 node)(object_idx \<mapsto> v)),
            grid_velocity_before :=
              (grid_velocity_before b1)(node := (grid_velocity_before b1 node)(object_idx \<mapsto> v))\<rparr>)"

definition grid_velocities :: "('v::real_vector, 'm) CPDIMPMSolid \<Rightarrow> ('v, 'm) CPDIMPMSolid" where
  "grid_velocities b = fold grid_velocity_pair (active_grid_node b) b"

text \<open>Lines 202-210: the mass and the momentum of the node, summed over the pairs of
  the node in \<^verbatim>\<open>active_grid_node_\<close>.\<close>

definition mass_at_node :: "('v, 'm) CPDIMPMSolid \<Rightarrow> nat \<Rightarrow> real" where
  "mass_at_node b node =
     fold (\<lambda>cur acc. acc + at_key (grid_mass b node) (snd cur))
          (multimap_range node (active_grid_node b)) 0"

definition momentum_at_node :: "('v::real_vector, 'm) CPDIMPMSolid \<Rightarrow> nat \<Rightarrow> 'v" where
  "momentum_at_node b node =
     fold (\<lambda>cur acc. acc + at_key (grid_mass b node) (snd cur) *\<^sub>R at_key (grid_velocity b node) (snd cur))
          (multimap_range node (active_grid_node b)) 0"

text \<open>Lines 216-222: the first entry of the node's velocity map, in key order, whose
  object has the node as a Dirichlet node. The keys of the grid maps are object
  indices, all below \<open>object_num\<close>.\<close>

definition first_dirichlet :: "nat \<Rightarrow> ('v, 'm) CPDIMPMSolid \<Rightarrow> nat \<Rightarrow> nat option" where
  "first_dirichlet object_num b node =
     find (\<lambda>k. grid_velocity b node k \<noteq> None \<and> k \<in> is_dirichlet_grid_node b node) [0..<object_num]"

text \<open>Lines 195-229: one key of the local map.\<close>

definition merge_node :: "nat \<Rightarrow> nat \<Rightarrow> ('v::real_vector, 'm) CPDIMPMSolid \<Rightarrow> ('v, 'm) CPDIMPMSolid" where
  "merge_node object_num node b =
     (if multimap_count node (active_grid_node b) = 1 then b
      else
        let involved = map snd (multimap_range node (active_grid_node b));
            m_at_node = mass_at_node b node;
            b1 = b\<lparr>grid_mass := (grid_mass b)(node :=
                      fold (\<lambda>k m. m(k \<mapsto> at_key m k)) involved (grid_mass b node)),
                   grid_velocity := (grid_velocity b)(node :=
                      fold (\<lambda>k m. m(k \<mapsto> at_key m k)) involved (grid_velocity b node))\<rparr>;
            v_at_node = momentum_at_node b node /\<^sub>R m_at_node;
            b2 = b1\<lparr>grid_mass := (grid_mass b1)(node :=
                      (\<lambda>k. case grid_mass b1 node k of None \<Rightarrow> None | Some m \<Rightarrow> Some m_at_node))\<rparr>;
            v_set = (case first_dirichlet object_num b2 node of
                       None \<Rightarrow> v_at_node
                     | Some k \<Rightarrow> at_key (grid_velocity b2 node) k)
        in b2\<lparr>grid_velocity := (grid_velocity b2)(node :=
                   (\<lambda>k. case grid_velocity b2 node k of None \<Rightarrow> None | Some v \<Rightarrow> Some v_set)),
               grid_velocity_before := (grid_velocity_before b2)(node :=
                   (\<lambda>k. case grid_velocity b2 node k of
                          None \<Rightarrow> grid_velocity_before b2 node k
                        | Some v \<Rightarrow> Some v_set))\<rparr>)"

definition merge_nodes :: "nat \<Rightarrow> nat list \<Rightarrow> ('v::real_vector, 'm) CPDIMPMSolid \<Rightarrow> ('v, 'm) CPDIMPMSolid" where
  "merge_nodes object_num active_node_idx b = fold (merge_node object_num) active_node_idx b"

text \<open>
  \<^verbatim>\<open>rasterize\<close>. The plugin callbacks that open it run code outside the sources;
  the state handed to the model is the state they leave. \<^verbatim>\<open>resetGridData\<close> belongs
  to the parent class and is a parameter. The function is given first up to line 100
  (the state the scatter loop starts from), then up to line 188, with the keys of the
  local map as a second result, then whole; and first for any enrichment criterion,
  then with the criterion of the source.
\<close>

definition rasterize_classified ::
  "(nat \<Rightarrow> nat \<Rightarrow> bool) \<Rightarrow> (('v::real_vector, 'm) CPDIMPMSolid \<Rightarrow> ('v, 'm) CPDIMPMSolid) \<Rightarrow>
   ('v, 'm) InvertibleMPMSolid \<Rightarrow> ('v, 'm) InvertibleMPMSolid" where
  "rasterize_classified criteria resetGridData s =
     updateParticleDomainEnrichState_with criteria
       (resetParticleDomainData (s\<lparr>base := resetGridData (base s)\<rparr>))"

definition rasterize_before_merge ::
  "(nat \<Rightarrow> nat \<Rightarrow> bool) \<Rightarrow> (('v::real_vector, 'm) CPDIMPMSolid \<Rightarrow> ('v, 'm) CPDIMPMSolid) \<Rightarrow>
   ('v, 'm) InvertibleMPMSolid \<Rightarrow> error + ('v, 'm) InvertibleMPMSolid \<times> nat list" where
  "rasterize_before_merge criteria resetGridData s =
     (case rasterize_objects (rasterize_classified criteria resetGridData s) of
        Inl e \<Rightarrow> Inl e
      | Inr s3 \<Rightarrow>
          (let act = activate_nodes (objectNum s3) (base s3)
           in Inr (s3\<lparr>base := grid_velocities (fst act)\<rparr>, snd act)))"

definition rasterize_with ::
  "(nat \<Rightarrow> nat \<Rightarrow> bool) \<Rightarrow> (('v::real_vector, 'm) CPDIMPMSolid \<Rightarrow> ('v, 'm) CPDIMPMSolid) \<Rightarrow>
   ('v, 'm) InvertibleMPMSolid \<Rightarrow> error + ('v, 'm) InvertibleMPMSolid" where
  "rasterize_with criteria resetGridData s =
     (case rasterize_before_merge criteria resetGridData s of
        Inl e \<Rightarrow> Inl e
      | Inr r \<Rightarrow>
          (let s5 = fst r; active_node_idx = snd r in
           if contact_method (base s5) = None
           then Inr (s5\<lparr>base := merge_nodes (objectNum s5) active_node_idx (base s5)\<rparr>)
           else Inr s5))"

definition rasterize ::
  "(('v::real_vector, 'm) CPDIMPMSolid \<Rightarrow> ('v, 'm) CPDIMPMSolid) \<Rightarrow>
   ('v, 'm) InvertibleMPMSolid \<Rightarrow> error + ('v, 'm) InvertibleMPMSolid" where
  "rasterize resetGridData s = rasterize_with (isEnrichCriteriaSatisfied s) resetGridData s"

section \<open>Constitutive update\<close>

text \<open>\<^verbatim>\<open>updateParticleConstitutiveModelState\<close>, lines 273-291: the velocity
  gradient of a particle, from the grid nodes unless the particle is enriched and
  from its enriched domain corners.\<close>

definition particle_vel_grad ::
  "('v::real_vector \<Rightarrow> 'v \<Rightarrow> 'm::real_algebra_1) \<Rightarrow> ('v, 'm) InvertibleMPMSolid \<Rightarrow> nat \<Rightarrow> nat \<Rightarrow> 'm" where
  "particle_vel_grad outerProduct s obj_idx particle_idx =
     (let cn = corner_num (Dim (base s));
          ecn = enriched_corner_num s obj_idx particle_idx;
          from_grid =
            (if ecn < cn
             then fold (\<lambda>pair acc.
                          acc + outerProduct (gridVelocity (base s) obj_idx (node_idx pair)) (gradient_value pair))
                    (take (particle_grid_pair_num (base s) ! obj_idx ! particle_idx)
                       (particle_grid_weight_and_gradient (base s) ! obj_idx ! particle_idx))
                    0
             else 0)
      in if ecn > 0
         then fold (\<lambda>corner_idx acc.
                      let global_corner_idx =
                            eleVertIndex (particle_domain_mesh s ! obj_idx) particle_idx corner_idx
                      in if is_enriched_domain_corner s ! obj_idx ! global_corner_idx
                         then acc + outerProduct (domain_corner_velocity s ! obj_idx ! global_corner_idx)
                                      (particle_corner_gradient s ! obj_idx ! particle_idx ! corner_idx)
                         else acc)
                [0..<cn] from_grid
         else from_grid)"

text \<open>Lines 292-298: the deformation gradient after the step, from the velocity
  gradient and the deformation gradient before it.\<close>

definition deform_grad_update :: "('m::real_algebra_1 \<Rightarrow> real) \<Rightarrow> real \<Rightarrow> 'm \<Rightarrow> 'm \<Rightarrow> 'm" where
  "deform_grad_update determinant dt vel_grad deform_grad =
     (if determinant (1 + dt *\<^sub>R vel_grad) > 0
      then deform_grad + (dt *\<^sub>R vel_grad) * deform_grad
      else deform_grad
             + (dt *\<^sub>R vel_grad + ((0.25 * dt * dt) *\<^sub>R vel_grad) * vel_grad) * deform_grad)"

text \<open>Lines 272-302: one particle, with the assertion of line 299.\<close>

definition constitutive_particle ::
  "('v::real_vector \<Rightarrow> 'v \<Rightarrow> 'm::real_algebra_1) \<Rightarrow> ('m \<Rightarrow> real) \<Rightarrow> real \<Rightarrow> nat \<Rightarrow> nat \<Rightarrow>
   ('v, 'm) InvertibleMPMSolid \<Rightarrow> error + ('v, 'm) InvertibleMPMSolid" where
  "constitutive_particle outerProduct determinant dt obj_idx particle_idx s =
     (let particle = particles (base s) ! obj_idx ! particle_idx;
          particle_deform_grad =
            deform_grad_update determinant dt
              (particle_vel_grad outerProduct s obj_idx particle_idx) (deformationGradient particle)
      in if \<not> determinant particle_deform_grad > 0 then Inl AssertionFailed
         else Inr (s\<lparr>base := (base s)\<lparr>particles :=
                     update2 (particles (base s)) obj_idx particle_idx
                       (particle\<lparr>deformationGradient := particle_deform_grad,
                                 volume := determinant particle_deform_grad
                                           * (particle_initial_volume (base s) ! obj_idx ! particle_idx)\<rparr>)\<rparr>\<rparr>))"

definition constitutive_object ::
  "('v::real_vector \<Rightarrow> 'v \<Rightarrow> 'm::real_algebra_1) \<Rightarrow> ('m \<Rightarrow> real) \<Rightarrow> real \<Rightarrow> nat \<Rightarrow>
   ('v, 'm) InvertibleMPMSolid \<Rightarrow> error + ('v, 'm) InvertibleMPMSolid" where
  "constitutive_object outerProduct determinant dt obj_idx s =
     foldE (constitutive_particle outerProduct determinant dt obj_idx)
       [0..<particleNumOfObject s obj_idx] s"

definition updateParticleConstitutiveModelState ::
  "('v::real_vector \<Rightarrow> 'v \<Rightarrow> 'm::real_algebra_1) \<Rightarrow> ('m \<Rightarrow> real) \<Rightarrow> real \<Rightarrow>
   ('v, 'm) InvertibleMPMSolid \<Rightarrow> error + ('v, 'm) InvertibleMPMSolid" where
  "updateParticleConstitutiveModelState outerProduct determinant dt s =
     foldE (constitutive_object outerProduct determinant dt) [0..<objectNum s] s"

section \<open>Velocity update\<close>

text \<open>\<^verbatim>\<open>updateParticleVelocity\<close>, lines 339-355: one pair of the particle.\<close>

definition velocity_pair ::
  "('v::real_vector, 'm) CPDIMPMSolid \<Rightarrow> nat \<Rightarrow> 'v NodeIndexWeightGradientPair \<Rightarrow> 'v \<Rightarrow> error + 'v" where
  "velocity_pair b obj_idx pair new_vel =
     (let node = node_idx pair in
      if gridMass b obj_idx node \<le> epsilon then Inr new_vel
      else
        let weight = weight_value pair in
        case grid_velocity b node obj_idx of
          None \<Rightarrow> Inl PhysikaError
        | Some cur_grid_vel \<Rightarrow>
            (case grid_velocity_before b node obj_idx of
               None \<Rightarrow> Inl PhysikaError
             | Some grid_vel_before \<Rightarrow> Inr (new_vel + weight *\<^sub>R (cur_grid_vel - grid_vel_before))))"

text \<open>Lines 359-367: one domain corner. The weight is read at
  \<^verbatim>\<open>particle_corner_weight_[obj_idx][obj_idx][corner_idx]\<close>, as the source has it.\<close>

definition velocity_corner ::
  "('v::real_vector, 'm) InvertibleMPMSolid \<Rightarrow> nat \<Rightarrow> nat \<Rightarrow> nat \<Rightarrow> 'v \<Rightarrow> 'v" where
  "velocity_corner s obj_idx particle_idx corner_idx new_vel =
     (let global_corner_idx = eleVertIndex (particle_domain_mesh s ! obj_idx) particle_idx corner_idx in
      if is_enriched_domain_corner s ! obj_idx ! global_corner_idx
      then
        let weight = particle_corner_weight s ! obj_idx ! obj_idx ! corner_idx
        in new_vel + weight *\<^sub>R (domain_corner_velocity s ! obj_idx ! global_corner_idx
                                   - domain_corner_velocity_before s ! obj_idx ! global_corner_idx)
      else new_vel)"

definition velocity_particle ::
  "nat \<Rightarrow> nat \<Rightarrow> ('v::real_vector, 'm) InvertibleMPMSolid \<Rightarrow> error + ('v, 'm) InvertibleMPMSolid" where
  "velocity_particle obj_idx particle_idx s =
     (if is_dirichlet_particle (base s) ! obj_idx ! particle_idx then Inr s
      else
        let cn = corner_num (Dim (base s));
            ecn = enriched_corner_num s obj_idx particle_idx;
            particle = particles (base s) ! obj_idx ! particle_idx
        in case (if ecn < cn
                 then foldE (velocity_pair (base s) obj_idx)
                        (take (particle_grid_pair_num (base s) ! obj_idx ! particle_idx)
                           (particle_grid_weight_and_gradient (base s) ! obj_idx ! particle_idx))
                        (velocity particle)
                 else Inr (velocity particle)) of
             Inl e \<Rightarrow> Inl e
           | Inr vel1 \<Rightarrow>
               (let new_vel = (if ecn > 0
                               then fold (velocity_corner s obj_idx particle_idx) [0..<cn] vel1
                               else vel1)
                in Inr (s\<lparr>base := (base s)\<lparr>particles :=
                          update2 (particles (base s)) obj_idx particle_idx
                            (particle\<lparr>velocity := new_vel\<rparr>)\<rparr>\<rparr>)))"

definition velocity_object ::
  "nat \<Rightarrow> ('v::real_vector, 'm) InvertibleMPMSolid \<Rightarrow> error + ('v, 'm) InvertibleMPMSolid" where
  "velocity_object obj_idx s = foldE (velocity_particle obj_idx) [0..<particleNumOfObject s obj_idx] s"

definition updateParticleVelocity ::
  "('v::real_vector, 'm) InvertibleMPMSolid \<Rightarrow> error + ('v, 'm) InvertibleMPMSolid" where
  "updateParticleVelocity s = foldE velocity_object [0..<objectNum s] s"

section \<open>Position update\<close>

text \<open>\<^verbatim>\<open>updateParticlePosition\<close>, lines 397-412: one domain corner of one particle.\<close>

definition position_corner ::
  "real \<Rightarrow> nat \<Rightarrow> nat \<Rightarrow> nat \<Rightarrow> ('v::real_vector, 'm) InvertibleMPMSolid \<Rightarrow> ('v, 'm) InvertibleMPMSolid" where
  "position_corner dt obj_idx particle_idx corner_idx s =
     (let global_corner_idx = eleVertIndex (particle_domain_mesh s ! obj_idx) particle_idx corner_idx;
          corner_pos = particle_domain_corners (base s) ! obj_idx ! particle_idx ! corner_idx;
          new_corner_pos =
            (if is_enriched_domain_corner s ! obj_idx ! global_corner_idx
             then corner_pos + dt *\<^sub>R (domain_corner_velocity s ! obj_idx ! global_corner_idx)
             else fold (\<lambda>pair pos.
                          pos + dt *\<^sub>R (weight_value pair *\<^sub>R gridVelocity (base s) obj_idx (node_idx pair)))
                    (take (corner_grid_pair_num (base s) ! obj_idx ! particle_idx ! corner_idx)
                       (corner_grid_weight_and_gradient (base s) ! obj_idx ! particle_idx ! corner_idx))
                    corner_pos)
      in s\<lparr>base := (base s)\<lparr>particle_domain_corners :=
               update3 (particle_domain_corners (base s)) obj_idx particle_idx corner_idx new_corner_pos\<rparr>,
           particle_domain_mesh :=
               (particle_domain_mesh s)[obj_idx :=
                  setVertPos (particle_domain_mesh s ! obj_idx) global_corner_idx new_corner_pos]\<rparr>)"

definition position_particle ::
  "real \<Rightarrow> nat \<Rightarrow> nat \<Rightarrow> ('v::real_vector, 'm) InvertibleMPMSolid \<Rightarrow> ('v, 'm) InvertibleMPMSolid" where
  "position_particle dt obj_idx particle_idx s =
     fold (position_corner dt obj_idx particle_idx) [0..<corner_num (Dim (base s))] s"

definition position_object ::
  "real \<Rightarrow> nat \<Rightarrow> ('v::real_vector, 'm) InvertibleMPMSolid \<Rightarrow> ('v, 'm) InvertibleMPMSolid" where
  "position_object dt obj_idx s =
     fold (position_particle dt obj_idx) [0..<particleNumOfObject s obj_idx] s"

text \<open>
  Modelled from the spec: \<^verbatim>\<open>CPDI2UpdateMethod::updateParticlePosition\<close> is missing
  from the sources. Spec, section 4.6: "Particle positions themselves are then
  advanced via the standard CPDI2 scheme (external collaborator) using the freshly
  updated domain corners". It is a parameter that reads the parent's members and
  returns the particles.
\<close>

definition updateParticlePosition ::
  "(real \<Rightarrow> ('v::real_vector, 'm) CPDIMPMSolid \<Rightarrow> ('v, 'm) SolidParticle list list) \<Rightarrow> real \<Rightarrow>
   ('v, 'm) InvertibleMPMSolid \<Rightarrow> error + ('v, 'm) InvertibleMPMSolid" where
  "updateParticlePosition cpdi2_updateParticlePosition dt s =
     (if cpdi_update_method (base s) = CPDI2_method
      then
        let s1 = fold (position_object dt) [0..<objectNum s] s
        in Inr (s1\<lparr>base := (base s1)\<lparr>particles := cpdi2_updateParticlePosition dt (base s1)\<rparr>\<rparr>)
      else Inl PhysikaError)"



section \<open>Explicit integration on the grid and the domain corners\<close>

text \<open>\<^verbatim>\<open>solveOnGridForwardEuler\<close>, lines 460-477: one pair of the particle.
  \<open>mat_vec\<close> is the product of a matrix and a vector.\<close>

definition solve_pair ::
  "('m::real_algebra_1 \<Rightarrow> 'v::real_vector \<Rightarrow> 'v) \<Rightarrow> real \<Rightarrow> nat \<Rightarrow> ('v, 'm) SolidParticle \<Rightarrow>
   'v NodeIndexWeightGradientPair \<Rightarrow> ('v, 'm) CPDIMPMSolid \<Rightarrow> ('v, 'm) CPDIMPMSolid" where
  "solve_pair mat_vec dt obj_idx particle pair b =
     (let node = node_idx pair in
      if obj_idx \<in> is_dirichlet_grid_node b node then b
      else
        let b1 = b\<lparr>grid_mass := (grid_mass b)(node :=
                      (grid_mass b node)(obj_idx \<mapsto> at_key (grid_mass b node) obj_idx))\<rparr>;
            m = at_key (grid_mass b1 node) obj_idx
        in if m \<le> epsilon then b1
           else
             let dv = mat_vec ((dt * (- 1) * volume particle) *\<^sub>R cauchyStress particle)
                        (gradient_value pair) /\<^sub>R m
             in if contact_method b1 \<noteq> None
                then b1\<lparr>grid_velocity := (grid_velocity b1)(node :=
                          (grid_velocity b1 node)(obj_idx \<mapsto> at_key (grid_velocity b1 node) obj_idx + dv))\<rparr>
                else if is_dirichlet_grid_node b1 node \<noteq> {} then b1
                else b1\<lparr>grid_velocity := (grid_velocity b1)(node :=
                          (\<lambda>k. case grid_velocity b1 node k of
                                 None \<Rightarrow> None
                               | Some v \<Rightarrow> if gridMass b1 k node > epsilon then Some (v + dv) else Some v))\<rparr>)"

text \<open>Lines 482-494: one domain corner.\<close>

definition solve_corner ::
  "('m::real_algebra_1 \<Rightarrow> 'v::real_vector \<Rightarrow> 'v) \<Rightarrow> real \<Rightarrow> nat \<Rightarrow> nat \<Rightarrow> ('v, 'm) SolidParticle \<Rightarrow> nat \<Rightarrow>
   ('v, 'm) InvertibleMPMSolid \<Rightarrow> ('v, 'm) InvertibleMPMSolid" where
  "solve_corner mat_vec dt obj_idx particle_idx particle corner_idx s =
     (let global_corner_idx = eleVertIndex (particle_domain_mesh s ! obj_idx) particle_idx corner_idx in
      if is_enriched_domain_corner s ! obj_idx ! global_corner_idx
      then
        if domain_corner_mass s ! obj_idx ! global_corner_idx \<le> epsilon then s
        else
          s\<lparr>domain_corner_velocity :=
              update2 (domain_corner_velocity s) obj_idx global_corner_idx
                (domain_corner_velocity s ! obj_idx ! global_corner_idx
                   + mat_vec ((dt * (- 1) * volume particle) *\<^sub>R cauchyStress particle)
                       (particle_corner_gradient s ! obj_idx ! particle_idx ! corner_idx)
                     /\<^sub>R domain_corner_mass s ! obj_idx ! global_corner_idx)\<rparr>
      else s)"

definition solve_particle ::
  "('m::real_algebra_1 \<Rightarrow> 'v::real_vector \<Rightarrow> 'v) \<Rightarrow> real \<Rightarrow> nat \<Rightarrow> nat \<Rightarrow>
   ('v, 'm) InvertibleMPMSolid \<Rightarrow> ('v, 'm) InvertibleMPMSolid" where
  "solve_particle mat_vec dt obj_idx particle_idx s =
     (let cn = corner_num (Dim (base s));
          ecn = enriched_corner_num s obj_idx particle_idx;
          particle = particles (base s) ! obj_idx ! particle_idx;
          s1 = (if ecn < cn
                then s\<lparr>base := fold (solve_pair mat_vec dt obj_idx particle)
                                 (take (particle_grid_pair_num (base s) ! obj_idx ! particle_idx)
                                    (particle_grid_weight_and_gradient (base s) ! obj_idx ! particle_idx))
                                 (base s)\<rparr>
                else s)
      in if ecn > 0
         then fold (solve_corner mat_vec dt obj_idx particle_idx particle) [0..<cn] s1
         else s1)"

definition solve_object ::
  "('m::real_algebra_1 \<Rightarrow> 'v::real_vector \<Rightarrow> 'v) \<Rightarrow> real \<Rightarrow> nat \<Rightarrow>
   ('v, 'm) InvertibleMPMSolid \<Rightarrow> ('v, 'm) InvertibleMPMSolid" where
  "solve_object mat_vec dt obj_idx s =
     fold (solve_particle mat_vec dt obj_idx) [0..<particleNumOfObject s obj_idx] s"

text \<open>\<^verbatim>\<open>applyGravityOnEnrichedDomainCorner\<close>; \<open>axis1\<close> is the vector whose component
  of index 1 is one and whose other components are zero.\<close>

definition gravity_corner ::
  "'v::real_vector \<Rightarrow> real \<Rightarrow> nat \<Rightarrow> nat \<Rightarrow> ('v, 'm) InvertibleMPMSolid \<Rightarrow> ('v, 'm) InvertibleMPMSolid" where
  "gravity_corner axis1 dt obj_idx corner_idx s =
     (if is_enriched_domain_corner s ! obj_idx ! corner_idx
      then s\<lparr>domain_corner_velocity :=
               update2 (domain_corner_velocity s) obj_idx corner_idx
                 (domain_corner_velocity s ! obj_idx ! corner_idx
                    + (dt * (- 1) * gravity (base s)) *\<^sub>R axis1)\<rparr>
      else s)"

definition gravity_object ::
  "'v::real_vector \<Rightarrow> real \<Rightarrow> nat \<Rightarrow> ('v, 'm) InvertibleMPMSolid \<Rightarrow> ('v, 'm) InvertibleMPMSolid" where
  "gravity_object axis1 dt obj_idx s =
     fold (gravity_corner axis1 dt obj_idx) [0..<length (domain_corner_velocity s ! obj_idx)] s"

definition applyGravityOnEnrichedDomainCorner ::
  "'v::real_vector \<Rightarrow> real \<Rightarrow> ('v, 'm) InvertibleMPMSolid \<Rightarrow> ('v, 'm) InvertibleMPMSolid" where
  "applyGravityOnEnrichedDomainCorner axis1 dt s = fold (gravity_object axis1 dt) [0..<objectNum s] s"

definition solveOnGridForwardEuler ::
  "('m::real_algebra_1 \<Rightarrow> 'v::real_vector \<Rightarrow> 'v) \<Rightarrow> 'v \<Rightarrow> real \<Rightarrow>
   ('v, 'm) InvertibleMPMSolid \<Rightarrow> ('v, 'm) InvertibleMPMSolid" where
  "solveOnGridForwardEuler mat_vec axis1 dt s =
     applyGravityOnEnrichedDomainCorner axis1 dt (fold (solve_object mat_vec dt) [0..<objectNum s] s)"

section \<open>Particle-domain mesh and particle bookkeeping\<close>

text \<open>\<^verbatim>\<open>std::vector::resize\<close>: the first \<open>n\<close> elements are kept, missing ones are
  value-initialized.\<close>

definition resize :: "nat \<Rightarrow> 'a \<Rightarrow> 'a list \<Rightarrow> 'a list" where
  "resize n d xs = take n xs @ replicate (n - length xs) d"

text \<open>The null pointer \<^verbatim>\<open>particle_domain_mesh_.resize\<close> fills new slots with; the loop
  of \<^verbatim>\<open>constructParticleDomainMesh\<close> overwrites every slot.\<close>

definition null_mesh :: "'v VolumetricMesh" where
  "null_mesh = \<lparr>vert_pos = [], ele_vert_num = 0, ele_num = 0, ele_vert = []\<rparr>"

text \<open>Lines 595-605: \<^verbatim>\<open>std::find\<close> gives the first position that holds the corner, or
  the end of the vector.\<close>

definition construct_corner :: "'v \<Rightarrow> 'v list \<times> nat list \<Rightarrow> 'v list \<times> nat list" where
  "construct_corner pos acc =
     (let corner_positions = fst acc; domains = snd acc;
          idx = length (takeWhile (\<lambda>x. x \<noteq> pos) corner_positions)
      in if idx = length corner_positions
         then (corner_positions @ [pos], domains @ [length (corner_positions @ [pos]) - 1])
         else (corner_positions, domains @ [idx]))"

definition construct_corners ::
  "('v, 'm) InvertibleMPMSolid \<Rightarrow> nat \<Rightarrow> 'v list \<times> nat list" where
  "construct_corners s obj_idx =
     fold (\<lambda>particle_idx acc.
             fold (\<lambda>corner_idx. construct_corner
                     (particle_domain_corners (base s) ! obj_idx ! particle_idx ! corner_idx))
                  [0..<corner_num (Dim (base s))] acc)
          [0..<particleNumOfObject s obj_idx] ([], [])"

definition construct_object ::
  "nat \<Rightarrow> ('v::zero, 'm) InvertibleMPMSolid \<Rightarrow> ('v, 'm) InvertibleMPMSolid" where
  "construct_object obj_idx s =
     (let particle_num = particleNumOfObject s obj_idx;
          corner_positions = fst (construct_corners s obj_idx);
          domains = snd (construct_corners s obj_idx);
          vert_num = length corner_positions;
          mesh = (if Dim (base s) = 2
                  then QuadMesh vert_num corner_positions particle_num domains
                  else CubicMesh vert_num corner_positions particle_num domains)
      in s\<lparr>particle_domain_mesh := (particle_domain_mesh s)[obj_idx := mesh],
           is_enriched_domain_corner :=
             (is_enriched_domain_corner s)[obj_idx := resize vert_num False (is_enriched_domain_corner s ! obj_idx)],
           domain_corner_mass :=
             (domain_corner_mass s)[obj_idx := resize vert_num 0 (domain_corner_mass s ! obj_idx)],
           domain_corner_velocity :=
             (domain_corner_velocity s)[obj_idx := resize vert_num 0 (domain_corner_velocity s ! obj_idx)],
           domain_corner_velocity_before :=
             (domain_corner_velocity_before s)[obj_idx :=
                resize vert_num 0 (domain_corner_velocity_before s ! obj_idx)]\<rparr>)"

text \<open>\<^verbatim>\<open>constructParticleDomainMesh\<close>. \<^verbatim>\<open>clearParticleDomainMesh\<close> frees the meshes
  and leaves the vector of pointers as it is.\<close>

definition constructParticleDomainMesh ::
  "('v::zero, 'm) InvertibleMPMSolid \<Rightarrow> ('v, 'm) InvertibleMPMSolid" where
  "constructParticleDomainMesh s =
     (let obj_num = objectNum s
      in fold construct_object [0..<objectNum s]
           (s\<lparr>particle_domain_mesh := resize obj_num null_mesh (particle_domain_mesh s),
              is_enriched_domain_corner := resize obj_num [] (is_enriched_domain_corner s),
              domain_corner_mass := resize obj_num [] (domain_corner_mass s),
              domain_corner_velocity := resize obj_num [] (domain_corner_velocity s),
              domain_corner_velocity_before := resize obj_num [] (domain_corner_velocity_before s)\<rparr>))"

text \<open>\<^verbatim>\<open>initSimulationData\<close>; the parent's function is a parameter.\<close>

definition initSimulationData ::
  "(('v::zero, 'm) CPDIMPMSolid \<Rightarrow> ('v, 'm) CPDIMPMSolid) \<Rightarrow>
   ('v, 'm) InvertibleMPMSolid \<Rightarrow> ('v, 'm) InvertibleMPMSolid" where
  "initSimulationData MPMSolid_initSimulationData s =
     constructParticleDomainMesh (s\<lparr>base := MPMSolid_initSimulationData (base s)\<rparr>)"

text \<open>The four functions that follow a change of the particle set. Each calls the
  parent's function of the same name first (a parameter). In the first,
  \<^verbatim>\<open>objectNum() - 1\<close> is an unsigned subtraction: the model is for a solver with an
  object. \<^verbatim>\<open>erase\<close> is modelled where the position exists.\<close>

definition appendAllParticleRelatedDataOfLastObject ::
  "(('v::zero, 'm) CPDIMPMSolid \<Rightarrow> ('v, 'm) CPDIMPMSolid) \<Rightarrow>
   ('v, 'm) InvertibleMPMSolid \<Rightarrow> ('v, 'm) InvertibleMPMSolid" where
  "appendAllParticleRelatedDataOfLastObject CPDIMPMSolid_appendAll s =
     (let s1 = s\<lparr>base := CPDIMPMSolid_appendAll (base s)\<rparr>;
          cn = corner_num (Dim (base s1));
          last_object_idx = objectNum s1 - 1;
          particle_num_of_last_object = particleNumOfObject s1 last_object_idx;
          one_particle_corner_weight = replicate cn 0;
          one_particle_corner_gradient = replicate cn 0;
          all_particle_corner_weight = replicate particle_num_of_last_object one_particle_corner_weight;
          all_particle_corner_gradient = replicate particle_num_of_last_object one_particle_corner_gradient
      in s1\<lparr>particle_corner_weight := particle_corner_weight s1 @ [all_particle_corner_weight],
            particle_corner_gradient := particle_corner_gradient s1 @ [all_particle_corner_gradient]\<rparr>)"

definition appendLastParticleRelatedDataOfObject ::
  "(nat \<Rightarrow> ('v::zero, 'm) CPDIMPMSolid \<Rightarrow> ('v, 'm) CPDIMPMSolid) \<Rightarrow> nat \<Rightarrow>
   ('v, 'm) InvertibleMPMSolid \<Rightarrow> ('v, 'm) InvertibleMPMSolid" where
  "appendLastParticleRelatedDataOfObject CPDIMPMSolid_appendLast object_idx s =
     (let s1 = s\<lparr>base := CPDIMPMSolid_appendLast object_idx (base s)\<rparr>;
          cn = corner_num (Dim (base s1))
      in s1\<lparr>particle_corner_weight :=
              (particle_corner_weight s1)[object_idx := particle_corner_weight s1 ! object_idx @ [replicate cn 0]],
            particle_corner_gradient :=
              (particle_corner_gradient s1)[object_idx :=
                 particle_corner_gradient s1 ! object_idx @ [replicate cn 0]]\<rparr>)"

definition erase :: "nat \<Rightarrow> 'a list \<Rightarrow> 'a list" where
  "erase i xs = take i xs @ drop (Suc i) xs"

definition deleteAllParticleRelatedDataOfObject ::
  "(nat \<Rightarrow> ('v, 'm) CPDIMPMSolid \<Rightarrow> ('v, 'm) CPDIMPMSolid) \<Rightarrow> nat \<Rightarrow>
   ('v, 'm) InvertibleMPMSolid \<Rightarrow> ('v, 'm) InvertibleMPMSolid" where
  "deleteAllParticleRelatedDataOfObject CPDIMPMSolid_deleteAll object_idx s =
     (let s1 = s\<lparr>base := CPDIMPMSolid_deleteAll object_idx (base s)\<rparr>
      in s1\<lparr>particle_corner_weight := erase object_idx (particle_corner_weight s1),
            particle_corner_gradient := erase object_idx (particle_corner_gradient s1)\<rparr>)"

definition deleteOneParticleRelatedDataOfObject ::
  "(nat \<Rightarrow> nat \<Rightarrow> ('v, 'm) CPDIMPMSolid \<Rightarrow> ('v, 'm) CPDIMPMSolid) \<Rightarrow> nat \<Rightarrow> nat \<Rightarrow>
   ('v, 'm) InvertibleMPMSolid \<Rightarrow> ('v, 'm) InvertibleMPMSolid" where
  "deleteOneParticleRelatedDataOfObject CPDIMPMSolid_deleteOne object_idx particle_idx s =
     (let s1 = s\<lparr>base := CPDIMPMSolid_deleteOne object_idx particle_idx (base s)\<rparr>
      in s1\<lparr>particle_corner_weight :=
              (particle_corner_weight s1)[object_idx := erase particle_idx (particle_corner_weight s1 ! object_idx)],
            particle_corner_gradient :=
              (particle_corner_gradient s1)[object_idx :=
                 erase particle_idx (particle_corner_gradient s1 ! object_idx)]\<rparr>)"

text \<open>
  Modelled from the spec: \<^verbatim>\<open>CPDIMPMSolid::deleteOneParticleRelatedDataOfObject\<close> is
  missing from the sources. Spec, section 4.7: the corner storage is "resized/erased in
  lockstep with the particle arrays owned by the parent solver". It erases the entry of
  the particle from every per-particle array of the parent.
\<close>

definition CPDIMPMSolid_deleteOneParticleRelatedDataOfObject ::
  "nat \<Rightarrow> nat \<Rightarrow> ('v, 'm) CPDIMPMSolid \<Rightarrow> ('v, 'm) CPDIMPMSolid" where
  "CPDIMPMSolid_deleteOneParticleRelatedDataOfObject object_idx particle_idx b =
     b\<lparr>particles := (particles b)[object_idx := erase particle_idx (particles b ! object_idx)],
       particle_initial_volume :=
         (particle_initial_volume b)[object_idx := erase particle_idx (particle_initial_volume b ! object_idx)],
       is_dirichlet_particle :=
         (is_dirichlet_particle b)[object_idx := erase particle_idx (is_dirichlet_particle b ! object_idx)],
       particle_grid_pair_num :=
         (particle_grid_pair_num b)[object_idx := erase particle_idx (particle_grid_pair_num b ! object_idx)],
       particle_grid_weight_and_gradient :=
         (particle_grid_weight_and_gradient b)[object_idx :=
            erase particle_idx (particle_grid_weight_and_gradient b ! object_idx)],
       particle_domain_corners :=
         (particle_domain_corners b)[object_idx := erase particle_idx (particle_domain_corners b ! object_idx)],
       corner_grid_pair_num :=
         (corner_grid_pair_num b)[object_idx := erase particle_idx (corner_grid_pair_num b ! object_idx)],
       corner_grid_weight_and_gradient :=
         (corner_grid_weight_and_gradient b)[object_idx :=
            erase particle_idx (corner_grid_weight_and_gradient b ! object_idx)]\<rparr>"

section \<open>Predicates of the proofs\<close>


text \<open>What the scatter loop of \<^verbatim>\<open>rasterize\<close> adds to a domain corner \<open>g\<close> of an object,
  written as sums over the particles of the object and their corners: the mass
  \<open>weight * mass\<close> and the momentum \<open>weight * (mass * velocity)\<close> of every particle corner
  that is the vertex \<open>g\<close>, if \<open>g\<close> is enriched.\<close>

definition corner_mass_scattered :: "('v, 'm) InvertibleMPMSolid \<Rightarrow> nat \<Rightarrow> nat \<Rightarrow> real" where
  "corner_mass_scattered t obj_idx g =
     (\<Sum>particle_idx\<leftarrow>[0..<particleNumOfObject t obj_idx].
        \<Sum>corner_idx\<leftarrow>[0..<corner_num (Dim (base t))].
          if eleVertIndex (particle_domain_mesh t ! obj_idx) particle_idx corner_idx = g
             \<and> is_enriched_domain_corner t ! obj_idx ! g
          then particle_corner_weight t ! obj_idx ! particle_idx ! corner_idx
               * mass (particles (base t) ! obj_idx ! particle_idx)
          else 0)"

definition corner_momentum_scattered :: "('v::real_vector, 'm) InvertibleMPMSolid \<Rightarrow> nat \<Rightarrow> nat \<Rightarrow> 'v" where
  "corner_momentum_scattered t obj_idx g =
     (\<Sum>particle_idx\<leftarrow>[0..<particleNumOfObject t obj_idx].
        \<Sum>corner_idx\<leftarrow>[0..<corner_num (Dim (base t))].
          if eleVertIndex (particle_domain_mesh t ! obj_idx) particle_idx corner_idx = g
             \<and> is_enriched_domain_corner t ! obj_idx ! g
          then particle_corner_weight t ! obj_idx ! particle_idx ! corner_idx
               *\<^sub>R (mass (particles (base t) ! obj_idx ! particle_idx)
                    *\<^sub>R velocity (particles (base t) ! obj_idx ! particle_idx))
          else 0)"

text \<open>The per-corner vectors of an object have one entry per vertex of its mesh.\<close>

definition corner_arrays_ok :: "('v, 'm) InvertibleMPMSolid \<Rightarrow> nat \<Rightarrow> bool" where
  "corner_arrays_ok s obj_idx =
     (obj_idx < length (particle_domain_mesh s)
      \<and> obj_idx < length (is_enriched_domain_corner s)
      \<and> obj_idx < length (domain_corner_mass s)
      \<and> obj_idx < length (domain_corner_velocity s)
      \<and> obj_idx < length (domain_corner_velocity_before s)
      \<and> length (is_enriched_domain_corner s ! obj_idx) = vertNum (particle_domain_mesh s ! obj_idx)
      \<and> length (domain_corner_mass s ! obj_idx) = vertNum (particle_domain_mesh s ! obj_idx)
      \<and> length (domain_corner_velocity s ! obj_idx) = vertNum (particle_domain_mesh s ! obj_idx)
      \<and> length (domain_corner_velocity_before s ! obj_idx) = vertNum (particle_domain_mesh s ! obj_idx))"

text \<open>What the scatter loop leaves unchanged: everything but the mass and velocity maps
  of the grid and the mass and velocity vectors of the domain corners.\<close>

definition scatter_frame :: "('v, 'm) InvertibleMPMSolid \<Rightarrow> ('v, 'm) InvertibleMPMSolid \<Rightarrow> bool" where
  "scatter_frame s s' =
     (\<exists>gm gv dcm dcv dcvb.
        s' = s\<lparr>base := (base s)\<lparr>grid_mass := gm, grid_velocity := gv\<rparr>,
               domain_corner_mass := dcm, domain_corner_velocity := dcv,
               domain_corner_velocity_before := dcvb\<rparr>)"

text \<open>The share of one particle in the sums above, and what the particle adds to a grid
  node.\<close>

definition particle_corner_mass :: "('v, 'm) InvertibleMPMSolid \<Rightarrow> nat \<Rightarrow> nat \<Rightarrow> nat \<Rightarrow> real" where
  "particle_corner_mass t obj_idx particle_idx g =
     (\<Sum>corner_idx\<leftarrow>[0..<corner_num (Dim (base t))].
          if eleVertIndex (particle_domain_mesh t ! obj_idx) particle_idx corner_idx = g
             \<and> is_enriched_domain_corner t ! obj_idx ! g
          then particle_corner_weight t ! obj_idx ! particle_idx ! corner_idx
               * mass (particles (base t) ! obj_idx ! particle_idx)
          else 0)"

definition particle_corner_momentum :: "('v::real_vector, 'm) InvertibleMPMSolid \<Rightarrow> nat \<Rightarrow> nat \<Rightarrow> nat \<Rightarrow> 'v" where
  "particle_corner_momentum t obj_idx particle_idx g =
     (\<Sum>corner_idx\<leftarrow>[0..<corner_num (Dim (base t))].
          if eleVertIndex (particle_domain_mesh t ! obj_idx) particle_idx corner_idx = g
             \<and> is_enriched_domain_corner t ! obj_idx ! g
          then particle_corner_weight t ! obj_idx ! particle_idx ! corner_idx
               *\<^sub>R (mass (particles (base t) ! obj_idx ! particle_idx)
                    *\<^sub>R velocity (particles (base t) ! obj_idx ! particle_idx))
          else 0)"

definition particle_grid_mass :: "('v, 'm) InvertibleMPMSolid \<Rightarrow> nat \<Rightarrow> nat \<Rightarrow> nat \<Rightarrow> real" where
  "particle_grid_mass t obj_idx particle_idx node =
     (if enriched_corner_num t obj_idx particle_idx < corner_num (Dim (base t))
      then (\<Sum>pair\<leftarrow>take (particle_grid_pair_num (base t) ! obj_idx ! particle_idx)
                        (particle_grid_weight_and_gradient (base t) ! obj_idx ! particle_idx).
              if node_idx pair = node
              then weight_value pair * mass (particles (base t) ! obj_idx ! particle_idx)
              else 0)
      else 0)"

text \<open>What the scatter loop adds to the mass of an object at a grid node.\<close>

definition grid_mass_scattered :: "('v, 'm) InvertibleMPMSolid \<Rightarrow> nat \<Rightarrow> nat \<Rightarrow> real" where
  "grid_mass_scattered t obj_idx node =
     (\<Sum>particle_idx\<leftarrow>[0..<particleNumOfObject t obj_idx]. particle_grid_mass t obj_idx particle_idx node)"

text \<open>The state after the particles \<open>ps\<close> of an object have been scattered, and after the
  objects \<open>K\<close> have been scattered and their corner momenta divided by the masses.\<close>

definition scatter_inv ::
  "nat \<Rightarrow> nat list \<Rightarrow> ('v::real_vector, 'm) InvertibleMPMSolid \<Rightarrow> ('v, 'm) InvertibleMPMSolid \<Rightarrow> bool" where
  "scatter_inv obj ps s s' =
     (scatter_frame s s'
      \<and> length (domain_corner_mass s') = length (domain_corner_mass s)
      \<and> (\<forall>k. length (domain_corner_mass s' ! k) = length (domain_corner_mass s ! k))
      \<and> length (domain_corner_velocity s') = length (domain_corner_velocity s)
      \<and> (\<forall>k. length (domain_corner_velocity s' ! k) = length (domain_corner_velocity s ! k))
      \<and> domain_corner_velocity_before s' = domain_corner_velocity_before s
      \<and> (\<forall>k l. k < length (domain_corner_mass s) \<longrightarrow> l < length (domain_corner_mass s ! k) \<longrightarrow>
             domain_corner_mass s' ! k ! l = domain_corner_mass s ! k ! l
               + (if k = obj then \<Sum>p\<leftarrow>ps. particle_corner_mass s obj p l else 0))
      \<and> (\<forall>k l. k < length (domain_corner_velocity s) \<longrightarrow> l < length (domain_corner_velocity s ! k) \<longrightarrow>
             domain_corner_velocity s' ! k ! l = domain_corner_velocity s ! k ! l
               + (if k = obj then \<Sum>p\<leftarrow>ps. particle_corner_momentum s obj p l else 0))
      \<and> (\<forall>k n. gridMass (base s') k n = gridMass (base s) k n
               + (if k = obj then \<Sum>p\<leftarrow>ps. particle_grid_mass s obj p n else 0)))"

definition corner_in_range :: "('v, 'm) InvertibleMPMSolid \<Rightarrow> nat \<Rightarrow> nat \<Rightarrow> bool" where
  "corner_in_range s k l =
     (k < length (domain_corner_mass s) \<and> l < length (domain_corner_mass s ! k)
      \<and> k < length (domain_corner_velocity s) \<and> l < length (domain_corner_velocity s ! k)
      \<and> k < length (domain_corner_velocity_before s) \<and> l < length (domain_corner_velocity_before s ! k))"

definition corner_lengths_eq :: "('v, 'm) InvertibleMPMSolid \<Rightarrow> ('v, 'm) InvertibleMPMSolid \<Rightarrow> bool" where
  "corner_lengths_eq s s' =
     (length (domain_corner_mass s') = length (domain_corner_mass s)
      \<and> (\<forall>k. length (domain_corner_mass s' ! k) = length (domain_corner_mass s ! k))
      \<and> length (domain_corner_velocity s') = length (domain_corner_velocity s)
      \<and> (\<forall>k. length (domain_corner_velocity s' ! k) = length (domain_corner_velocity s ! k))
      \<and> length (domain_corner_velocity_before s') = length (domain_corner_velocity_before s)
      \<and> (\<forall>k. length (domain_corner_velocity_before s' ! k) = length (domain_corner_velocity_before s ! k)))"

definition objects_inv ::
  "nat set \<Rightarrow> ('v::real_vector, 'm) InvertibleMPMSolid \<Rightarrow> ('v, 'm) InvertibleMPMSolid \<Rightarrow> bool" where
  "objects_inv K s s' =
     (scatter_frame s s' \<and> corner_lengths_eq s s'
      \<and> (\<forall>k n. gridMass (base s') k n = gridMass (base s) k n
               + (if k \<in> K then grid_mass_scattered s k n else 0))
      \<and> (\<forall>k l. corner_in_range s k l \<longrightarrow>
             domain_corner_mass s' ! k ! l = domain_corner_mass s ! k ! l
               + (if k \<in> K then corner_mass_scattered s k l else 0)
           \<and> domain_corner_velocity s' ! k ! l =
               (if k \<in> K
                then if domain_corner_mass s' ! k ! l > epsilon
                     then (domain_corner_velocity s ! k ! l + corner_momentum_scattered s k l)
                            /\<^sub>R domain_corner_mass s' ! k ! l
                     else domain_corner_velocity s ! k ! l + corner_momentum_scattered s k l
                else domain_corner_velocity s ! k ! l)
           \<and> domain_corner_velocity_before s' ! k ! l =
               (if k \<in> K \<and> domain_corner_mass s' ! k ! l > epsilon
                then (domain_corner_velocity s ! k ! l + corner_momentum_scattered s k l)
                       /\<^sub>R domain_corner_mass s' ! k ! l
                else domain_corner_velocity_before s ! k ! l)))"

text \<open>Every key of the local map of lines 166-179 is the node of a pair of
  \<^verbatim>\<open>active_grid_node_\<close>, and no key is listed twice.\<close>

definition nodes_in_table :: "('v, 'm) CPDIMPMSolid \<times> nat list \<Rightarrow> bool" where
  "nodes_in_table acc = (distinct (snd acc) \<and> (\<forall>n\<in>set (snd acc). \<exists>obj. (n, obj) \<in> set (active_grid_node (fst acc))))"

text \<open>The weights \<^verbatim>\<open>rasterize\<close> uses for the mass of a particle: those of its grid pairs
  unless it is enriched, and those of its enriched corners.\<close>

definition particle_weight_sum :: "('v, 'm) InvertibleMPMSolid \<Rightarrow> nat \<Rightarrow> nat \<Rightarrow> real" where
  "particle_weight_sum t obj_idx particle_idx =
     (if enriched_corner_num t obj_idx particle_idx < corner_num (Dim (base t))
      then (\<Sum>pair\<leftarrow>take (particle_grid_pair_num (base t) ! obj_idx ! particle_idx)
                        (particle_grid_weight_and_gradient (base t) ! obj_idx ! particle_idx).
              weight_value pair)
      else 0)
     + (\<Sum>corner_idx\<leftarrow>[0..<corner_num (Dim (base t))].
          if is_enriched_domain_corner t ! obj_idx
               ! eleVertIndex (particle_domain_mesh t ! obj_idx) particle_idx corner_idx
          then particle_corner_weight t ! obj_idx ! particle_idx ! corner_idx
          else 0)"

text \<open>What the guard \<open>enriched_corner_num < corner_num\<close> of a particle reads, and the
  loop bounds: two states with the same enrichment flags, the same connectivity of the
  meshes, the same dimension and the same numbers of objects and particles. The positions
  of the mesh vertices may differ.\<close>

definition same_classification ::
  "('v, 'm) InvertibleMPMSolid \<Rightarrow> ('v, 'm) InvertibleMPMSolid \<Rightarrow> bool" where
  "same_classification s s' =
     (is_enriched_domain_corner s' = is_enriched_domain_corner s
      \<and> (\<forall>k p c. eleVertIndex (particle_domain_mesh s' ! k) p c
                    = eleVertIndex (particle_domain_mesh s ! k) p c)
      \<and> (\<forall>k p. eleVertNum (particle_domain_mesh s' ! k) p = eleVertNum (particle_domain_mesh s ! k) p)
      \<and> Dim (base s') = Dim (base s)
      \<and> objectNum s' = objectNum s
      \<and> (\<forall>k. particleNumOfObject s' k = particleNumOfObject s k))"

text \<open>What the loops over the particles of an object need of its mesh and flag vector:
  the object has a flag vector, and every particle has an element of \<open>corner_num\<close>
  vertices in the mesh, each with a flag.\<close>

definition particle_elements_ok :: "('v, 'm) InvertibleMPMSolid \<Rightarrow> nat \<Rightarrow> bool" where
  "particle_elements_ok s obj_idx =
     (obj_idx < length (is_enriched_domain_corner s)
      \<and> (\<forall>particle_idx<particleNumOfObject s obj_idx.
            eleVertNum (particle_domain_mesh s ! obj_idx) particle_idx = corner_num (Dim (base s))
            \<and> (\<forall>corner_idx<corner_num (Dim (base s)).
                  eleVertIndex (particle_domain_mesh s ! obj_idx) particle_idx corner_idx
                    < length (is_enriched_domain_corner s ! obj_idx))))"

text \<open>The shape \<^verbatim>\<open>constructParticleDomainMesh\<close> gives the mesh and the flag vector of an
  object: one flag per vertex, one element of \<open>corner_num\<close> vertices of the mesh per
  particle, and every vertex a corner of some particle's domain.\<close>

definition domain_mesh_ok :: "('v, 'm) InvertibleMPMSolid \<Rightarrow> nat \<Rightarrow> bool" where
  "domain_mesh_ok s obj_idx =
     (obj_idx < length (is_enriched_domain_corner s)
      \<and> length (is_enriched_domain_corner s ! obj_idx) = vertNum (particle_domain_mesh s ! obj_idx)
      \<and> (\<forall>particle_idx<particleNumOfObject s obj_idx.
            eleVertNum (particle_domain_mesh s ! obj_idx) particle_idx = corner_num (Dim (base s))
            \<and> (\<forall>corner_idx<corner_num (Dim (base s)).
                  eleVertIndex (particle_domain_mesh s ! obj_idx) particle_idx corner_idx
                    < vertNum (particle_domain_mesh s ! obj_idx)))
      \<and> (\<forall>g<vertNum (particle_domain_mesh s ! obj_idx).
            \<exists>particle_idx<particleNumOfObject s obj_idx.
              touches (particle_domain_mesh s ! obj_idx) particle_idx g))"

text \<open>The loop of lines 591-607 of \<^verbatim>\<open>constructParticleDomainMesh\<close> after the corners
  \<open>poss\<close>: the vertices found so far are distinct, they are the corners seen, and the
  connectivity table names, corner by corner, the vertex at the corner's position.\<close>

definition construct_inv :: "'v list \<times> nat list \<Rightarrow> 'v list \<Rightarrow> bool" where
  "construct_inv acc poss =
     (map ((!) (fst acc)) (snd acc) = poss \<and> distinct (fst acc) \<and> set (fst acc) = set poss
      \<and> (\<forall>i\<in>set (snd acc). i < length (fst acc)))"

text \<open>The mesh \<^verbatim>\<open>constructParticleDomainMesh\<close> makes for an object (lines 608-614).\<close>

definition constructed_mesh :: "('v, 'm) InvertibleMPMSolid \<Rightarrow> nat \<Rightarrow> 'v VolumetricMesh" where
  "constructed_mesh s obj_idx =
     (if Dim (base s) = 2
      then QuadMesh (length (fst (construct_corners s obj_idx))) (fst (construct_corners s obj_idx))
             (particleNumOfObject s obj_idx) (snd (construct_corners s obj_idx))
      else CubicMesh (length (fst (construct_corners s obj_idx))) (fst (construct_corners s obj_idx))
             (particleNumOfObject s obj_idx) (snd (construct_corners s obj_idx)))"

text \<open>The corner storage has one record per particle of every object.\<close>

definition corner_storage_aligned :: "('v, 'm) InvertibleMPMSolid \<Rightarrow> bool" where
  "corner_storage_aligned s =
     (length (particle_corner_weight s) = objectNum s
      \<and> length (particle_corner_gradient s) = objectNum s
      \<and> (\<forall>obj_idx<objectNum s.
            length (particle_corner_weight s ! obj_idx) = particleNumOfObject s obj_idx
            \<and> length (particle_corner_gradient s ! obj_idx) = particleNumOfObject s obj_idx))"

text \<open>The meshes and the per-corner arrays are the same in two states.\<close>

definition corner_mesh_unchanged ::
  "('v, 'm) InvertibleMPMSolid \<Rightarrow> ('v, 'm) InvertibleMPMSolid \<Rightarrow> bool" where
  "corner_mesh_unchanged s s' =
     (particle_domain_mesh s' = particle_domain_mesh s
      \<and> is_enriched_domain_corner s' = is_enriched_domain_corner s
      \<and> domain_corner_mass s' = domain_corner_mass s
      \<and> domain_corner_velocity s' = domain_corner_velocity s
      \<and> domain_corner_velocity_before s' = domain_corner_velocity_before s)"

text \<open>The mesh and the per-corner arrays of an object fit its particles: one element per
  particle, whose vertices are at the corners of the particle's domain, and one entry per
  vertex in every per-corner array.\<close>

definition domain_mesh_built :: "('v, 'm) InvertibleMPMSolid \<Rightarrow> nat \<Rightarrow> bool" where
  "domain_mesh_built s obj_idx =
     (corner_arrays_ok s obj_idx \<and> domain_mesh_ok s obj_idx
      \<and> ele_num (particle_domain_mesh s ! obj_idx) = particleNumOfObject s obj_idx
      \<and> (\<forall>particle_idx<particleNumOfObject s obj_idx. \<forall>corner_idx<corner_num (Dim (base s)).
            vertPos (particle_domain_mesh s ! obj_idx)
              (eleVertIndex (particle_domain_mesh s ! obj_idx) particle_idx corner_idx)
            = particle_domain_corners (base s) ! obj_idx ! particle_idx ! corner_idx))"









section \<open>Concrete solver states\<close>

text \<open>A two-dimensional solver with no object, no grid node and no contact method:
  the states below are updates of it.\<close>

definition empty_base :: "(vec2, mat2) CPDIMPMSolid" where
  "empty_base =
     \<lparr>Dim = 2, particles = [], particle_initial_volume = [], is_dirichlet_particle = [],
      particle_grid_pair_num = [], particle_grid_weight_and_gradient = [],
      particle_domain_corners = [], corner_grid_pair_num = [],
      corner_grid_weight_and_gradient = [], grid_node_num = 0,
      grid_mass = (\<lambda>node. Map.empty), grid_velocity = (\<lambda>node. Map.empty),
      grid_velocity_before = (\<lambda>node. Map.empty), is_dirichlet_grid_node = (\<lambda>node. {}),
      active_grid_node = [], contact_method = None, cpdi_update_method = CPDI2_method,
      gravity = 10\<rparr>"

definition empty_solver :: "(vec2, mat2) InvertibleMPMSolid" where
  "empty_solver =
     \<lparr>base = empty_base, particle_domain_mesh = [], is_enriched_domain_corner = [],
      domain_corner_mass = [], domain_corner_velocity = [], domain_corner_velocity_before = [],
      particle_corner_weight = [], particle_corner_gradient = []\<rparr>"

definition particle_of :: "real \<Rightarrow> vec2 \<Rightarrow> (vec2, mat2) SolidParticle" where
  "particle_of m v = \<lparr>mass = m, volume = 1, velocity = v, deformationGradient = 1, cauchyStress = 0\<rparr>"

definition pair_of :: "nat \<Rightarrow> real \<Rightarrow> vec2 NodeIndexWeightGradientPair" where
  "pair_of n w = \<lparr>node_idx = n, weight_value = w, gradient_value = Vec2 0 0\<rparr>"

text \<open>One object of two particles whose domains are the unit squares at \<open>(0,0)\<close> and
  \<open>(1,0)\<close>: they share the corners \<open>(1,0)\<close> and \<open>(1,1)\<close>, the vertices 1 and 2 of the
  mesh. Three grid nodes; each particle has two of them as its pairs.\<close>

definition two_squares_mesh :: "vec2 VolumetricMesh" where
  "two_squares_mesh =
     \<lparr>vert_pos = [Vec2 0 0, Vec2 1 0, Vec2 1 1, Vec2 0 1, Vec2 2 0, Vec2 2 1],
      ele_vert_num = 4, ele_num = 2, ele_vert = [0, 1, 2, 3, 1, 4, 5, 2]\<rparr>"

definition two_squares :: "(vec2, mat2) InvertibleMPMSolid" where
  "two_squares =
     empty_solver
     \<lparr>base := empty_base
        \<lparr>particles := [[particle_of 2 (Vec2 1 0), particle_of 4 (Vec2 0 1)]],
         particle_initial_volume := [[1, 1]],
         is_dirichlet_particle := [[False, False]],
         particle_grid_pair_num := [[2, 2]],
         particle_grid_weight_and_gradient :=
           [[[pair_of 0 (1/2), pair_of 1 (1/2)], [pair_of 1 (1/2), pair_of 2 (1/2)]]],
         particle_domain_corners :=
           [[[Vec2 0 0, Vec2 1 0, Vec2 1 1, Vec2 0 1], [Vec2 1 0, Vec2 2 0, Vec2 2 1, Vec2 1 1]]],
         corner_grid_pair_num := [[[0, 0, 0, 0], [0, 0, 0, 0]]],
         corner_grid_weight_and_gradient := [[[[], [], [], []], [[], [], [], []]]],
         grid_node_num := 3\<rparr>,
      particle_domain_mesh := [two_squares_mesh],
      is_enriched_domain_corner := [[True, False, True, False, True, False]],
      domain_corner_mass := [[1, 1, 1, 1, 1, 1]],
      domain_corner_velocity := [replicate 6 (Vec2 1 1)],
      domain_corner_velocity_before := [replicate 6 (Vec2 1 1)],
      particle_corner_weight := [[[1/4, 1/4, 1/4, 1/4], [1/2, 1/4, 1/8, 1/8]]],
      particle_corner_gradient := [[replicate 4 (Vec2 0 0), replicate 4 (Vec2 0 0)]]\<rparr>"

text \<open>One object of one particle whose domain is the unit square, every corner
  enriched. The corner gradients are those of the bilinear shape functions at the
  centre; the right edge (vertices 1 and 2) moves left with speed \<open>u\<close>, so the velocity
  gradient of the particle is the diagonal matrix of \<open>- u\<close> and \<open>0\<close>.\<close>

definition squeezed_square :: "real \<Rightarrow> (vec2, mat2) InvertibleMPMSolid" where
  "squeezed_square u =
     empty_solver
     \<lparr>base := empty_base
        \<lparr>particles := [[particle_of 1 (Vec2 0 0)]],
         particle_initial_volume := [[1]],
         is_dirichlet_particle := [[False]],
         particle_grid_pair_num := [[0]],
         particle_grid_weight_and_gradient := [[[]]],
         particle_domain_corners := [[[Vec2 0 0, Vec2 1 0, Vec2 1 1, Vec2 0 1]]],
         corner_grid_pair_num := [[[0, 0, 0, 0]]],
         corner_grid_weight_and_gradient := [[[[], [], [], []]]]\<rparr>,
      particle_domain_mesh :=
        [\<lparr>vert_pos = [Vec2 0 0, Vec2 1 0, Vec2 1 1, Vec2 0 1],
          ele_vert_num = 4, ele_num = 1, ele_vert = [0, 1, 2, 3]\<rparr>],
      is_enriched_domain_corner := [[True, True, True, True]],
      domain_corner_mass := [[1/4, 1/4, 1/4, 1/4]],
      domain_corner_velocity := [[Vec2 0 0, Vec2 (- u) 0, Vec2 (- u) 0, Vec2 0 0]],
      domain_corner_velocity_before := [[Vec2 0 0, Vec2 (- u) 0, Vec2 (- u) 0, Vec2 0 0]],
      particle_corner_weight := [[[1/4, 1/4, 1/4, 1/4]]],
      particle_corner_gradient :=
        [[[Vec2 (- (1/2)) (- (1/2)), Vec2 (1/2) (- (1/2)), Vec2 (1/2) (1/2), Vec2 (- (1/2)) (1/2)]]]\<rparr>"

text \<open>The two squares after a grid solve: every corner enriched, and the shared
  vertex 1 with velocity \<open>(8,0)\<close> where it had \<open>(0,0)\<close> before the solve. Vertex 1 is
  corner 1 of particle 0 (corner weight 1/4) and corner 0 of particle 1 (corner weight
  1/2).\<close>

definition two_squares_solved :: "(vec2, mat2) InvertibleMPMSolid" where
  "two_squares_solved =
     two_squares
     \<lparr>is_enriched_domain_corner := [replicate 6 True],
      domain_corner_velocity := [[Vec2 0 0, Vec2 8 0, Vec2 0 0, Vec2 0 0, Vec2 0 0, Vec2 0 0]],
      domain_corner_velocity_before := [replicate 6 (Vec2 0 0)]\<rparr>"

text \<open>The unit square with a very light particle: mass \<open>2\<^sup>-\<^sup>6\<^sup>0\<close>, velocity \<open>(1,0)\<close>, corner
  weights 1/4.\<close>

definition light_square :: "(vec2, mat2) InvertibleMPMSolid" where
  "light_square =
     (squeezed_square 0)
     \<lparr>base := (base (squeezed_square 0))\<lparr>particles := [[particle_of (1 / 2 ^ 60) (Vec2 1 0)]]\<rparr>\<rparr>"

text \<open>The two squares with grid weights 1/4 and 1/8 for particle 1: when only the
  corners of particle 0 are enriched, particle 1 keeps the two ordinary corners 1 and 2 of
  its own (vertices 4 and 5), and its grid weights and the weights 1/2 and 1/8 of its two
  enriched corners sum to 1.\<close>

definition two_squares_unity :: "(vec2, mat2) InvertibleMPMSolid" where
  "two_squares_unity =
     two_squares
     \<lparr>base := (base two_squares)
        \<lparr>particle_grid_weight_and_gradient :=
           [[[pair_of 0 (1/2), pair_of 1 (1/2)], [pair_of 1 (1/4), pair_of 2 (1/8)]]]\<rparr>\<rparr>"

text \<open>The two squares with corner weights 1/8 for particle 1: its grid weights sum to 1,
  its corner weights to 1/2.\<close>

definition two_squares_half :: "(vec2, mat2) InvertibleMPMSolid" where
  "two_squares_half =
     two_squares\<lparr>particle_corner_weight := [[[1/4, 1/4, 1/4, 1/4], [1/8, 1/8, 1/8, 1/8]]]\<rparr>"

text \<open>Two objects of one particle each, no corner enriched, no contact method. The
  particles have masses 2 and 4 and velocities \<open>(1,0)\<close> and \<open>(0,1)\<close>; the grid pairs of object
  0 are the nodes 0 and 1, those of object 1 the nodes 1 and 2, every weight 1/2: the
  objects share node 1.\<close>

definition two_objects :: "(vec2, mat2) InvertibleMPMSolid" where
  "two_objects =
     empty_solver
     \<lparr>base := empty_base
        \<lparr>particles := [[particle_of 2 (Vec2 1 0)], [particle_of 4 (Vec2 0 1)]],
         particle_initial_volume := [[1], [1]],
         is_dirichlet_particle := [[False], [False]],
         particle_grid_pair_num := [[2], [2]],
         particle_grid_weight_and_gradient :=
           [[[pair_of 0 (1/2), pair_of 1 (1/2)]], [[pair_of 1 (1/2), pair_of 2 (1/2)]]],
         particle_domain_corners :=
           [[[Vec2 0 0, Vec2 1 0, Vec2 1 1, Vec2 0 1]], [[Vec2 1 0, Vec2 2 0, Vec2 2 1, Vec2 1 1]]],
         corner_grid_pair_num := [[[0, 0, 0, 0]], [[0, 0, 0, 0]]],
         corner_grid_weight_and_gradient := [[[[], [], [], []]], [[[], [], [], []]]],
         grid_node_num := 3\<rparr>,
      particle_domain_mesh :=
        [\<lparr>vert_pos = [Vec2 0 0, Vec2 1 0, Vec2 1 1, Vec2 0 1],
          ele_vert_num = 4, ele_num = 1, ele_vert = [0, 1, 2, 3]\<rparr>,
         \<lparr>vert_pos = [Vec2 1 0, Vec2 2 0, Vec2 2 1, Vec2 1 1],
          ele_vert_num = 4, ele_num = 1, ele_vert = [0, 1, 2, 3]\<rparr>],
      is_enriched_domain_corner := [replicate 4 False, replicate 4 False],
      domain_corner_mass := [replicate 4 0, replicate 4 0],
      domain_corner_velocity := [replicate 4 (Vec2 0 0), replicate 4 (Vec2 0 0)],
      domain_corner_velocity_before := [replicate 4 (Vec2 0 0), replicate 4 (Vec2 0 0)],
      particle_corner_weight := [[[1/4, 1/4, 1/4, 1/4]], [[1/4, 1/4, 1/4, 1/4]]],
      particle_corner_gradient := [[replicate 4 (Vec2 0 0)], [replicate 4 (Vec2 0 0)]]\<rparr>"

text \<open>The two squares after particle 0 has been deleted.\<close>

definition one_square_left :: "(vec2, mat2) InvertibleMPMSolid" where
  "one_square_left =
     deleteOneParticleRelatedDataOfObject CPDIMPMSolid_deleteOneParticleRelatedDataOfObject 0 0 two_squares"

section \<open>Auxiliary facts\<close>

subsection \<open>Nested vectors\<close>

lemma length_update2: "length (update2 xs i j v) = length xs"
  by (simp add: update2_def)

lemma length_update2_nth: "length (update2 xs i j v ! k) = length (xs ! k)"
  by (cases "i < length xs"; cases "k = i") (simp_all add: update2_def list_update_beyond)

lemma update2_nth:
  "update2 xs i j v ! k ! l =
     (if k = i \<and> l = j \<and> i < length xs \<and> j < length (xs ! i) then v else xs ! k ! l)"
  by (cases "i < length xs"; cases "k = i"; cases "l = j"; cases "j < length (xs ! i)")
     (simp_all add: update2_def list_update_beyond)

lemma fold_update2_length:
  "length (fold (\<lambda>i xs. update2 xs obj (f i) v) is xs) = length xs"
  "length (fold (\<lambda>i xs. update2 xs obj (f i) v) is xs ! k) = length (xs ! k)"
  by (induction "is" arbitrary: xs; simp add: length_update2 length_update2_nth)+

lemma fold_update2_nth:
  "fold (\<lambda>i xs. update2 xs obj (f i) v) is xs ! k ! l =
     (if k = obj \<and> l \<in> f ` set is \<and> obj < length xs \<and> l < length (xs ! obj)
      then v else xs ! k ! l)"
proof (induction "is" arbitrary: xs)
  case Nil
  then show ?case by simp
next
  case (Cons i "is")
  show ?case
    by (simp add: Cons.IH length_update2 length_update2_nth) (auto simp: update2_nth)
qed

lemma fold_reset_corner:
  "fold (reset_corner obj) is s =
     s\<lparr>is_enriched_domain_corner := fold (\<lambda>i xs. update2 xs obj i False) is (is_enriched_domain_corner s),
       domain_corner_mass := fold (\<lambda>i xs. update2 xs obj i 0) is (domain_corner_mass s),
       domain_corner_velocity := fold (\<lambda>i xs. update2 xs obj i 0) is (domain_corner_velocity s),
       domain_corner_velocity_before := fold (\<lambda>i xs. update2 xs obj i 0) is (domain_corner_velocity_before s)\<rparr>"
  by (induction "is" arbitrary: s) (simp_all add: reset_corner_def)

lemma reset_object_frame:
  "base (reset_object obj s) = base s"
  "particle_domain_mesh (reset_object obj s) = particle_domain_mesh s"
  "particle_corner_weight (reset_object obj s) = particle_corner_weight s"
  "particle_corner_gradient (reset_object obj s) = particle_corner_gradient s"
  by (simp_all add: reset_object_def fold_reset_corner)

lemma fold_reset_object_frame:
  "base (fold reset_object objs s) = base s"
  "particle_domain_mesh (fold reset_object objs s) = particle_domain_mesh s"
  "particle_corner_weight (fold reset_object objs s) = particle_corner_weight s"
  "particle_corner_gradient (fold reset_object objs s) = particle_corner_gradient s"
  by (induction objs arbitrary: s; simp add: reset_object_frame)+

lemma fold_reset_object_length:
  "length (is_enriched_domain_corner (fold reset_object objs s)) = length (is_enriched_domain_corner s)"
  "length (is_enriched_domain_corner (fold reset_object objs s) ! k) = length (is_enriched_domain_corner s ! k)"
  "length (domain_corner_mass (fold reset_object objs s)) = length (domain_corner_mass s)"
  "length (domain_corner_mass (fold reset_object objs s) ! k) = length (domain_corner_mass s ! k)"
  "length (domain_corner_velocity (fold reset_object objs s)) = length (domain_corner_velocity s)"
  "length (domain_corner_velocity (fold reset_object objs s) ! k) = length (domain_corner_velocity s ! k)"
  "length (domain_corner_velocity_before (fold reset_object objs s)) = length (domain_corner_velocity_before s)"
  "length (domain_corner_velocity_before (fold reset_object objs s) ! k) = length (domain_corner_velocity_before s ! k)"
  by (induction objs arbitrary: s; simp add: reset_object_def fold_reset_corner fold_update2_length)+

lemma fold_reset_object_flag:
  "is_enriched_domain_corner (fold reset_object objs s) ! k ! l =
     (if k \<in> set objs \<and> l < vertNum (particle_domain_mesh s ! k)
         \<and> k < length (is_enriched_domain_corner s) \<and> l < length (is_enriched_domain_corner s ! k)
      then False else is_enriched_domain_corner s ! k ! l)"
proof (induction objs arbitrary: s)
  case Nil
  then show ?case by simp
next
  case (Cons obj objs)
  have len: "length (is_enriched_domain_corner (reset_object obj s)) = length (is_enriched_domain_corner s)"
    "\<And>k. length (is_enriched_domain_corner (reset_object obj s) ! k) = length (is_enriched_domain_corner s ! k)"
    using fold_reset_object_length(1,2)[of "[obj]" s] by simp_all
  have one: "\<And>k l. is_enriched_domain_corner (reset_object obj s) ! k ! l =
     (if k = obj \<and> l < vertNum (particle_domain_mesh s ! k)
         \<and> k < length (is_enriched_domain_corner s) \<and> l < length (is_enriched_domain_corner s ! k)
      then False else is_enriched_domain_corner s ! k ! l)"
    by (auto simp: reset_object_def fold_reset_corner fold_update2_nth[where f="\<lambda>i. i", simplified])
  show ?case
    by (auto simp: Cons.IH reset_object_frame len one)
qed


lemma enrich_corner_frame:
  "base (enrich_corner obj p c s) = base s"
  "particle_domain_mesh (enrich_corner obj p c s) = particle_domain_mesh s"
  by (simp_all add: enrich_corner_def Let_def)

lemma fold_enrich_corner:
  "fold (enrich_corner obj p) cs s =
     s\<lparr>is_enriched_domain_corner :=
         fold (\<lambda>c xs. update2 xs obj (eleVertIndex (particle_domain_mesh s ! obj) p c) True) cs
           (is_enriched_domain_corner s)\<rparr>"
  by (induction cs arbitrary: s) (simp_all add: enrich_corner_def Let_def)

lemma enrich_particle_frame:
  "base (enrich_particle crit obj p s) = base s"
  "particle_domain_mesh (enrich_particle crit obj p s) = particle_domain_mesh s"
  "length (is_enriched_domain_corner (enrich_particle crit obj p s)) = length (is_enriched_domain_corner s)"
  "length (is_enriched_domain_corner (enrich_particle crit obj p s) ! k) = length (is_enriched_domain_corner s ! k)"
  by (simp_all add: enrich_particle_def fold_enrich_corner fold_update2_length)

lemma enrich_particle_flag:
  "is_enriched_domain_corner (enrich_particle crit obj p s) ! k ! l =
     (is_enriched_domain_corner s ! k ! l \<or>
      (k = obj \<and> obj < length (is_enriched_domain_corner s) \<and> l < length (is_enriched_domain_corner s ! obj)
        \<and> crit obj p \<and> touches (particle_domain_mesh s ! obj) p l))"
  by (auto simp: enrich_particle_def fold_enrich_corner fold_update2_nth touches_def)

lemma fold_enrich_particle_frame:
  "base (fold (enrich_particle crit obj) ps s) = base s"
  "particle_domain_mesh (fold (enrich_particle crit obj) ps s) = particle_domain_mesh s"
  "length (is_enriched_domain_corner (fold (enrich_particle crit obj) ps s)) = length (is_enriched_domain_corner s)"
  "length (is_enriched_domain_corner (fold (enrich_particle crit obj) ps s) ! k) = length (is_enriched_domain_corner s ! k)"
  by (induction ps arbitrary: s; simp add: enrich_particle_frame)+

lemma fold_enrich_particle_flag:
  "is_enriched_domain_corner (fold (enrich_particle crit obj) ps s) ! k ! l =
     (is_enriched_domain_corner s ! k ! l \<or>
      (k = obj \<and> obj < length (is_enriched_domain_corner s) \<and> l < length (is_enriched_domain_corner s ! obj)
        \<and> (\<exists>p\<in>set ps. crit obj p \<and> touches (particle_domain_mesh s ! obj) p l)))"
proof (induction ps arbitrary: s)
  case Nil
  then show ?case by simp
next
  case (Cons p ps)
  show ?case
    by (simp add: Cons.IH enrich_particle_frame enrich_particle_flag) blast
qed

lemma enrich_object_frame:
  "base (enrich_object crit obj s) = base s"
  "particle_domain_mesh (enrich_object crit obj s) = particle_domain_mesh s"
  "length (is_enriched_domain_corner (enrich_object crit obj s)) = length (is_enriched_domain_corner s)"
  "length (is_enriched_domain_corner (enrich_object crit obj s) ! k) = length (is_enriched_domain_corner s ! k)"
  by (simp_all add: enrich_object_def fold_enrich_particle_frame)

lemma fold_enrich_object_frame:
  "base (fold (enrich_object crit) objs s) = base s"
  "particle_domain_mesh (fold (enrich_object crit) objs s) = particle_domain_mesh s"
  "length (is_enriched_domain_corner (fold (enrich_object crit) objs s)) = length (is_enriched_domain_corner s)"
  "length (is_enriched_domain_corner (fold (enrich_object crit) objs s) ! k) = length (is_enriched_domain_corner s ! k)"
  by (induction objs arbitrary: s; simp add: enrich_object_frame)+

lemma fold_enrich_object_flag:
  "is_enriched_domain_corner (fold (enrich_object crit) objs s) ! k ! l =
     (is_enriched_domain_corner s ! k ! l \<or>
      (k \<in> set objs \<and> k < length (is_enriched_domain_corner s) \<and> l < length (is_enriched_domain_corner s ! k)
        \<and> (\<exists>p<particleNumOfObject s k. crit k p \<and> touches (particle_domain_mesh s ! k) p l)))"
proof (induction objs arbitrary: s)
  case Nil
  then show ?case by simp
next
  case (Cons obj objs)
  have pn: "\<And>k. particleNumOfObject (enrich_object crit obj s) k = particleNumOfObject s k"
    by (simp add: particleNumOfObject_def enrich_object_frame)
  have one: "\<And>k l. is_enriched_domain_corner (enrich_object crit obj s) ! k ! l =
     (is_enriched_domain_corner s ! k ! l \<or>
      (k = obj \<and> obj < length (is_enriched_domain_corner s) \<and> l < length (is_enriched_domain_corner s ! obj)
        \<and> (\<exists>p<particleNumOfObject s obj. crit obj p \<and> touches (particle_domain_mesh s ! obj) p l)))"
    by (auto simp: enrich_object_def fold_enrich_particle_flag)
  show ?case
    by (simp add: Cons.IH enrich_object_frame pn one) blast
qed

subsection \<open>Constitutive update\<close>

lemma foldE_Inr_Cons:
  "foldE f (x # xs) s = Inr s' \<longleftrightarrow> (\<exists>s1. f x s = Inr s1 \<and> foldE f xs s1 = Inr s')"
  by (cases "f x s") simp_all


















subsection \<open>Evaluation at concrete states\<close>

lemma sum_Inr_projr: "\<not> isl r \<Longrightarrow> r = Inr (projr r)"
  by (cases r) simp_all



subsection \<open>Rasterization: the domain corners\<close>

lemma acc_fold_length:
  "length (fold (\<lambda>c xs. if en c then update2 xs i (idx c) (xs ! i ! idx c + val c) else xs) cs xs) = length xs"
  "length (fold (\<lambda>c xs. if en c then update2 xs i (idx c) (xs ! i ! idx c + val c) else xs) cs xs ! k) = length (xs ! k)"
  by (induction cs arbitrary: xs; simp add: length_update2 length_update2_nth)+

lemma acc_fold_nth:
  fixes xs :: "'a::comm_monoid_add list list"
  assumes "k < length xs" "l < length (xs ! k)"
  shows "fold (\<lambda>c xs. if en c then update2 xs i (idx c) (xs ! i ! idx c + val c) else xs) cs xs ! k ! l =
     xs ! k ! l + (\<Sum>c\<leftarrow>cs. if k = i \<and> en c \<and> idx c = l then val c else 0)"
  using assms
proof (induction cs arbitrary: xs)
  case Nil
  then show ?case by simp
next
  case (Cons c cs)
  let ?ys = "if en c then update2 xs i (idx c) (xs ! i ! idx c + val c) else xs"
  have len: "k < length ?ys" "l < length (?ys ! k)"
    using Cons.prems by (simp_all add: length_update2 length_update2_nth)
  have one: "?ys ! k ! l = xs ! k ! l + (if k = i \<and> en c \<and> idx c = l then val c else 0)"
    using Cons.prems by (auto simp: update2_nth)
  show ?case
    using Cons.IH[OF len] by (simp add: one add.assoc)
qed

lemma acc_fold_other:
  "k \<noteq> i \<Longrightarrow>
   fold (\<lambda>c xs. if en c then update2 xs i (idx c) (xs ! i ! idx c + val c) else xs) cs xs ! k = xs ! k"
  by (induction cs arbitrary: xs) (simp_all add: update2_def)

lemma fold_rasterize_corner:
  "fold (rasterize_corner obj p particle) cs s =
     s\<lparr>domain_corner_mass :=
         fold (\<lambda>c xs. if is_enriched_domain_corner s ! obj ! eleVertIndex (particle_domain_mesh s ! obj) p c
                       then update2 xs obj (eleVertIndex (particle_domain_mesh s ! obj) p c)
                              (xs ! obj ! eleVertIndex (particle_domain_mesh s ! obj) p c
                               + particle_corner_weight s ! obj ! p ! c * mass particle)
                       else xs) cs (domain_corner_mass s),
       domain_corner_velocity :=
         fold (\<lambda>c xs. if is_enriched_domain_corner s ! obj ! eleVertIndex (particle_domain_mesh s ! obj) p c
                       then update2 xs obj (eleVertIndex (particle_domain_mesh s ! obj) p c)
                              (xs ! obj ! eleVertIndex (particle_domain_mesh s ! obj) p c
                               + particle_corner_weight s ! obj ! p ! c *\<^sub>R (mass particle *\<^sub>R velocity particle))
                       else xs) cs (domain_corner_velocity s)\<rparr>"
  by (induction cs arbitrary: s) (simp_all add: rasterize_corner_def Let_def cong: if_cong)

lemma scatter_frameI:
  "s' = s\<lparr>base := (base s)\<lparr>grid_mass := gm, grid_velocity := gv\<rparr>,
               domain_corner_mass := dcm, domain_corner_velocity := dcv,
               domain_corner_velocity_before := dcvb\<rparr> \<Longrightarrow> scatter_frame s s'"
  unfolding scatter_frame_def by blast

lemma scatter_frame_refl: "scatter_frame s s"
  by (rule scatter_frameI[where gm = "grid_mass (base s)" and gv = "grid_velocity (base s)"
        and dcm = "domain_corner_mass s" and dcv = "domain_corner_velocity s"
        and dcvb = "domain_corner_velocity_before s"]) simp

lemma scatter_frame_trans:
  assumes "scatter_frame s s1" and "scatter_frame s1 s'"
  shows "scatter_frame s s'"
proof -
  from assms(1) obtain gm gv dcm dcv dcvb where
    1: "s1 = s\<lparr>base := (base s)\<lparr>grid_mass := gm, grid_velocity := gv\<rparr>,
               domain_corner_mass := dcm, domain_corner_velocity := dcv,
               domain_corner_velocity_before := dcvb\<rparr>"
    unfolding scatter_frame_def by blast
  from assms(2) obtain gm' gv' dcm' dcv' dcvb' where
    2: "s' = s1\<lparr>base := (base s1)\<lparr>grid_mass := gm', grid_velocity := gv'\<rparr>,
               domain_corner_mass := dcm', domain_corner_velocity := dcv',
               domain_corner_velocity_before := dcvb'\<rparr>"
    unfolding scatter_frame_def by blast
  show ?thesis
    by (rule scatter_frameI[where gm = gm' and gv = gv' and dcm = dcm' and dcv = dcv' and dcvb = dcvb'])
       (simp add: 2 1)
qed

lemma scatter_frame_fields:
  assumes "scatter_frame s s'"
  shows "Dim (base s') = Dim (base s)"
    and "particles (base s') = particles (base s)"
    and "particle_grid_pair_num (base s') = particle_grid_pair_num (base s)"
    and "particle_grid_weight_and_gradient (base s') = particle_grid_weight_and_gradient (base s)"
    and "grid_node_num (base s') = grid_node_num (base s)"
    and "grid_velocity_before (base s') = grid_velocity_before (base s)"
    and "is_dirichlet_grid_node (base s') = is_dirichlet_grid_node (base s)"
    and "active_grid_node (base s') = active_grid_node (base s)"
    and "contact_method (base s') = contact_method (base s)"
    and "particle_domain_mesh s' = particle_domain_mesh s"
    and "is_enriched_domain_corner s' = is_enriched_domain_corner s"
    and "particle_corner_weight s' = particle_corner_weight s"
    and "particle_corner_gradient s' = particle_corner_gradient s"
    and "objectNum s' = objectNum s"
    and "particleNumOfObject s' k = particleNumOfObject s k"
    and "enriched_corner_num s' k p = enriched_corner_num s k p"
  using assms unfolding scatter_frame_def objectNum_def particleNumOfObject_def enriched_corner_num_def
  by auto

lemma rasterize_pair_Inr:
  assumes "rasterize_pair obj particle pair b = Inr b'"
  shows "\<exists>gm gv. b' = b\<lparr>grid_mass := gm, grid_velocity := gv\<rparr>"
    and "gridMass b' k n = gridMass b k n
           + (if k = obj \<and> node_idx pair = n then weight_value pair * mass particle else 0)"
proof -
  from assms have w: "weight_value pair > epsilon"
    by (auto simp: rasterize_pair_def Let_def split: if_splits)
  let ?b1 = "b\<lparr>grid_mass := (grid_mass b)(node_idx pair := (grid_mass b (node_idx pair))(obj \<mapsto>
                     (case grid_mass b (node_idx pair) obj of
                        Some m \<Rightarrow> m + weight_value pair * mass particle
                      | None \<Rightarrow> weight_value pair * mass particle)))\<rparr>"
  from assms w have "b' = ?b1 \<or> (\<exists>gv. b' = ?b1\<lparr>grid_velocity := gv\<rparr>)"
    by (auto simp: rasterize_pair_def Let_def split: if_splits)
  then have gm: "grid_mass b' = grid_mass ?b1" and ex: "\<exists>gv. b' = ?b1\<lparr>grid_velocity := gv\<rparr>"
    by (auto intro: exI[of _ "grid_velocity ?b1"])
  from ex show "\<exists>gm gv. b' = b\<lparr>grid_mass := gm, grid_velocity := gv\<rparr>"
    by auto
  show "gridMass b' k n = gridMass b k n
           + (if k = obj \<and> node_idx pair = n then weight_value pair * mass particle else 0)"
    by (auto simp: gridMass_def gm split: option.splits)
qed

lemma grid_frame_refl: "\<exists>gm gv. b = b\<lparr>grid_mass := gm, grid_velocity := gv\<rparr>"
  by (rule exI[of _ "grid_mass b"], rule exI[of _ "grid_velocity b"]) simp

lemma foldE_rasterize_pair_Inr:
  assumes "foldE (rasterize_pair obj particle) pairs b = Inr b'"
  shows "(\<exists>gm gv. b' = b\<lparr>grid_mass := gm, grid_velocity := gv\<rparr>)
    \<and> (\<forall>k n. gridMass b' k n = gridMass b k n
           + (\<Sum>pair\<leftarrow>pairs. if k = obj \<and> node_idx pair = n then weight_value pair * mass particle else 0))"
  using assms
proof (induction pairs arbitrary: b)
  case Nil
  then show ?case using grid_frame_refl[of b] by simp
next
  case (Cons pair pairs)
  from Cons.prems obtain b1 where b1: "rasterize_pair obj particle pair b = Inr b1"
    and rest: "foldE (rasterize_pair obj particle) pairs b1 = Inr b'"
    by (auto split: sum.splits)
  from rasterize_pair_Inr(1)[OF b1] obtain gm gv where 1: "b1 = b\<lparr>grid_mass := gm, grid_velocity := gv\<rparr>"
    by blast
  from Cons.IH[OF rest] obtain gm' gv' where 2: "b' = b1\<lparr>grid_mass := gm', grid_velocity := gv'\<rparr>"
    and 3: "\<And>k n. gridMass b' k n = gridMass b1 k n
           + (\<Sum>pair\<leftarrow>pairs. if k = obj \<and> node_idx pair = n then weight_value pair * mass particle else 0)"
    by blast
  have "b' = b\<lparr>grid_mass := gm', grid_velocity := gv'\<rparr>" by (simp add: 2 1)
  moreover have "gridMass b' k n = gridMass b k n
           + (\<Sum>pair\<leftarrow>pair # pairs. if k = obj \<and> node_idx pair = n then weight_value pair * mass particle else 0)"
    for k n
    by (simp add: 3 rasterize_pair_Inr(2)[OF b1] add.assoc)
  ultimately show ?case by blast
qed

lemma acc_fold_none:
  "(\<forall>c\<in>set cs. \<not> en c) \<Longrightarrow>
   fold (\<lambda>c xs. if en c then update2 xs i (idx c) (xs ! i ! idx c + val c) else xs) cs xs = xs"
  by (induction cs arbitrary: xs) simp_all

lemma enriched_corner_num_zero:
  "enriched_corner_num s obj p = 0 \<Longrightarrow> c < corner_num (Dim (base s)) \<Longrightarrow>
   \<not> is_enriched_domain_corner s ! obj ! eleVertIndex (particle_domain_mesh s ! obj) p c"
  by (auto simp: enriched_corner_num_def filter_empty_conv)

lemma scatter_inv_particle:
  assumes "rasterize_particle obj p s = Inr s'"
  shows "scatter_inv obj [p] s s'"
proof -
  let ?particle = "particles (base s) ! obj ! p"
  let ?cn = "corner_num (Dim (base s))"
  let ?ecn = "enriched_corner_num s obj p"
  let ?pairs = "take (particle_grid_pair_num (base s) ! obj ! p)
                         (particle_grid_weight_and_gradient (base s) ! obj ! p)"
  let ?idx = "\<lambda>c. eleVertIndex (particle_domain_mesh s ! obj) p c"
  let ?en = "\<lambda>c. is_enriched_domain_corner s ! obj ! ?idx c"
  let ?F1 = "fold (\<lambda>c xs. if ?en c
                       then update2 xs obj (?idx c)
                              (xs ! obj ! ?idx c + particle_corner_weight s ! obj ! p ! c * mass ?particle)
                       else xs) [0..<?cn] (domain_corner_mass s)"
  let ?F2 = "fold (\<lambda>c xs. if ?en c
                       then update2 xs obj (?idx c)
                              (xs ! obj ! ?idx c
                               + particle_corner_weight s ! obj ! p ! c *\<^sub>R (mass ?particle *\<^sub>R velocity ?particle))
                       else xs) [0..<?cn] (domain_corner_velocity s)"
  obtain b where b: "(if ?ecn < ?cn then foldE (rasterize_pair obj ?particle) ?pairs (base s) else Inr (base s)) = Inr b"
    and s': "s' = (if ?ecn > 0 then fold (rasterize_corner obj p ?particle) [0..<?cn] (s\<lparr>base := b\<rparr>)
                   else s\<lparr>base := b\<rparr>)"
    using assms by (auto simp: rasterize_particle_def Let_def split: sum.splits)
  have bfr: "\<exists>gm gv. b = (base s)\<lparr>grid_mass := gm, grid_velocity := gv\<rparr>"
    using b foldE_rasterize_pair_Inr[of obj ?particle ?pairs "base s" b] grid_frame_refl[of "base s"]
    by (auto split: if_splits)
  have bgm: "gridMass b k n = gridMass (base s) k n + (if k = obj then particle_grid_mass s obj p n else 0)" for k n
  proof (cases "?ecn < ?cn")
    case True
    with b have "foldE (rasterize_pair obj ?particle) ?pairs (base s) = Inr b" by simp
    from foldE_rasterize_pair_Inr[OF this] True show ?thesis
      by (cases "k = obj") (simp_all add: particle_grid_mass_def)
  next
    case False
    with b show ?thesis by (simp add: particle_grid_mass_def)
  qed
  have F: "?ecn = 0 \<Longrightarrow> ?F1 = domain_corner_mass s \<and> ?F2 = domain_corner_velocity s"
    using enriched_corner_num_zero[of s obj p] by (simp add: acc_fold_none)
  have eq: "s' = s\<lparr>base := b, domain_corner_mass := ?F1, domain_corner_velocity := ?F2\<rparr>"
  proof (cases "?ecn > 0")
    case True
    then show ?thesis by (simp add: s' fold_rasterize_corner cong: if_cong)
  next
    case False
    then show ?thesis using F by (simp add: s')
  qed
  from bfr obtain gm gv where bb: "b = (base s)\<lparr>grid_mass := gm, grid_velocity := gv\<rparr>" by blast
  have fr: "scatter_frame s s'"
    by (rule scatter_frameI[where gm = gm and gv = gv and dcm = ?F1 and dcv = ?F2
          and dcvb = "domain_corner_velocity_before s"]) (simp add: eq bb)
  have m: "domain_corner_mass s' ! k ! l = domain_corner_mass s ! k ! l
               + (if k = obj then \<Sum>p\<leftarrow>[p]. particle_corner_mass s obj p l else 0)"
    if "k < length (domain_corner_mass s)" "l < length (domain_corner_mass s ! k)" for k l
  proof -
    have "domain_corner_mass s' ! k ! l = domain_corner_mass s ! k ! l
        + (\<Sum>c\<leftarrow>[0..<?cn]. if k = obj \<and> ?en c \<and> ?idx c = l
              then particle_corner_weight s ! obj ! p ! c * mass ?particle else 0)"
      by (simp add: eq acc_fold_nth[OF that])
    also have "(\<Sum>c\<leftarrow>[0..<?cn]. if k = obj \<and> ?en c \<and> ?idx c = l
              then particle_corner_weight s ! obj ! p ! c * mass ?particle else 0)
        = (if k = obj then \<Sum>p\<leftarrow>[p]. particle_corner_mass s obj p l else 0)"
      by (auto simp: particle_corner_mass_def intro!: arg_cong[where f = sum_list] map_cong)
    finally show ?thesis .
  qed
  have v: "domain_corner_velocity s' ! k ! l = domain_corner_velocity s ! k ! l
               + (if k = obj then \<Sum>p\<leftarrow>[p]. particle_corner_momentum s obj p l else 0)"
    if "k < length (domain_corner_velocity s)" "l < length (domain_corner_velocity s ! k)" for k l
  proof -
    have "domain_corner_velocity s' ! k ! l = domain_corner_velocity s ! k ! l
        + (\<Sum>c\<leftarrow>[0..<?cn]. if k = obj \<and> ?en c \<and> ?idx c = l
              then particle_corner_weight s ! obj ! p ! c *\<^sub>R (mass ?particle *\<^sub>R velocity ?particle) else 0)"
      by (simp add: eq acc_fold_nth[OF that])
    also have "(\<Sum>c\<leftarrow>[0..<?cn]. if k = obj \<and> ?en c \<and> ?idx c = l
              then particle_corner_weight s ! obj ! p ! c *\<^sub>R (mass ?particle *\<^sub>R velocity ?particle) else 0)
        = (if k = obj then \<Sum>p\<leftarrow>[p]. particle_corner_momentum s obj p l else 0)"
      by (auto simp: particle_corner_momentum_def intro!: arg_cong[where f = sum_list] map_cong)
    finally show ?thesis .
  qed
  show ?thesis
    unfolding scatter_inv_def
    using fr m v bgm by (simp add: eq acc_fold_length)
qed

lemma scattered_frame:
  assumes "scatter_frame s s1"
  shows "particle_corner_mass s1 = particle_corner_mass s"
    and "particle_corner_momentum s1 = particle_corner_momentum s"
    and "particle_grid_mass s1 = particle_grid_mass s"
    and "corner_mass_scattered s1 = corner_mass_scattered s"
    and "corner_momentum_scattered s1 = corner_momentum_scattered s"
    and "grid_mass_scattered s1 = grid_mass_scattered s"
  by (simp_all add: fun_eq_iff particle_corner_mass_def particle_corner_momentum_def particle_grid_mass_def
        corner_mass_scattered_def corner_momentum_scattered_def grid_mass_scattered_def
        scatter_frame_fields[OF assms] cong: if_cong)

lemma scatter_inv_Nil: "scatter_inv obj [] s s"
  by (simp add: scatter_inv_def scatter_frame_refl)

lemma scatter_inv_trans:
  assumes "scatter_inv obj ps1 s s1" and "scatter_inv obj ps2 s1 s'"
  shows "scatter_inv obj (ps1 @ ps2) s s'"
proof -
  have fr: "scatter_frame s s1" using assms(1) by (simp add: scatter_inv_def)
  note sf = scattered_frame[OF fr]
  have fr': "scatter_frame s s'"
    using assms by (auto simp: scatter_inv_def intro: scatter_frame_trans)
  show ?thesis
    using assms fr' unfolding scatter_inv_def sf
    by (simp add: add.assoc)
qed

lemma scatter_inv_particles:
  assumes "foldE (rasterize_particle obj) ps s = Inr s'"
  shows "scatter_inv obj ps s s'"
  using assms
proof (induction ps arbitrary: s)
  case Nil
  then show ?case by (simp add: scatter_inv_Nil)
next
  case (Cons p ps)
  from Cons.prems obtain s1 where s1: "rasterize_particle obj p s = Inr s1"
    and rest: "foldE (rasterize_particle obj) ps s1 = Inr s'"
    by (auto split: sum.splits)
  from scatter_inv_trans[OF scatter_inv_particle[OF s1] Cons.IH[OF rest]] show ?case by simp
qed

lemma normalize_corner_frame:
  "scatter_frame s (normalize_corner obj c s)"
  "domain_corner_mass (normalize_corner obj c s) = domain_corner_mass s"
  "base (normalize_corner obj c s) = base s"
  "length (domain_corner_velocity (normalize_corner obj c s)) = length (domain_corner_velocity s)"
  "length (domain_corner_velocity (normalize_corner obj c s) ! k) = length (domain_corner_velocity s ! k)"
  "length (domain_corner_velocity_before (normalize_corner obj c s)) = length (domain_corner_velocity_before s)"
  "length (domain_corner_velocity_before (normalize_corner obj c s) ! k) = length (domain_corner_velocity_before s ! k)"
proof -
  show "scatter_frame s (normalize_corner obj c s)"
    by (rule scatter_frameI[where gm = "grid_mass (base s)" and gv = "grid_velocity (base s)"
          and dcm = "domain_corner_mass s"
          and dcv = "domain_corner_velocity (normalize_corner obj c s)"
          and dcvb = "domain_corner_velocity_before (normalize_corner obj c s)"])
       (simp add: normalize_corner_def Let_def)
qed (simp_all add: normalize_corner_def Let_def length_update2 length_update2_nth)

lemma fold_normalize_corner_frame:
  "scatter_frame s (fold (normalize_corner obj) cs s)
   \<and> domain_corner_mass (fold (normalize_corner obj) cs s) = domain_corner_mass s
   \<and> base (fold (normalize_corner obj) cs s) = base s
   \<and> length (domain_corner_velocity (fold (normalize_corner obj) cs s)) = length (domain_corner_velocity s)
   \<and> (\<forall>k. length (domain_corner_velocity (fold (normalize_corner obj) cs s) ! k) = length (domain_corner_velocity s ! k))
   \<and> length (domain_corner_velocity_before (fold (normalize_corner obj) cs s)) = length (domain_corner_velocity_before s)
   \<and> (\<forall>k. length (domain_corner_velocity_before (fold (normalize_corner obj) cs s) ! k) = length (domain_corner_velocity_before s ! k))"
proof (induction cs arbitrary: s)
  case Nil
  show ?case by (simp add: scatter_frame_refl)
next
  case (Cons c cs)
  from Cons.IH[of "normalize_corner obj c s"] show ?case
    by (auto simp: normalize_corner_frame intro: scatter_frame_trans[OF normalize_corner_frame(1)])
qed

lemma fold_normalize_corner_nth:
  assumes "distinct cs"
  shows "domain_corner_velocity (fold (normalize_corner obj) cs s) ! k ! l =
       (if k = obj \<and> l \<in> set cs \<and> obj < length (domain_corner_velocity s)
           \<and> l < length (domain_corner_velocity s ! obj) \<and> domain_corner_mass s ! obj ! l > epsilon
        then domain_corner_velocity s ! obj ! l /\<^sub>R domain_corner_mass s ! obj ! l
        else domain_corner_velocity s ! k ! l)
    \<and> domain_corner_velocity_before (fold (normalize_corner obj) cs s) ! k ! l =
       (if k = obj \<and> l \<in> set cs \<and> obj < length (domain_corner_velocity_before s)
           \<and> l < length (domain_corner_velocity_before s ! obj) \<and> domain_corner_mass s ! obj ! l > epsilon
        then domain_corner_velocity s ! obj ! l /\<^sub>R domain_corner_mass s ! obj ! l
        else domain_corner_velocity_before s ! k ! l)"
  using assms
proof (induction cs arbitrary: s)
  case Nil
  then show ?case by simp
next
  case (Cons c cs)
  let ?s1 = "normalize_corner obj c s"
  from Cons.prems have d: "distinct cs" "c \<notin> set cs" by simp_all
  have v1: "domain_corner_velocity ?s1 ! k' ! l' =
       (if k' = obj \<and> l' = c \<and> obj < length (domain_corner_velocity s)
           \<and> c < length (domain_corner_velocity s ! obj) \<and> domain_corner_mass s ! obj ! c > epsilon
        then domain_corner_velocity s ! obj ! c /\<^sub>R domain_corner_mass s ! obj ! c
        else domain_corner_velocity s ! k' ! l')" for k' l'
    by (simp add: normalize_corner_def Let_def update2_nth)
  have vb1: "domain_corner_velocity_before ?s1 ! k' ! l' =
       (if k' = obj \<and> l' = c \<and> obj < length (domain_corner_velocity_before s)
           \<and> c < length (domain_corner_velocity_before s ! obj) \<and> domain_corner_mass s ! obj ! c > epsilon
        then domain_corner_velocity s ! obj ! c /\<^sub>R domain_corner_mass s ! obj ! c
        else domain_corner_velocity_before s ! k' ! l')" for k' l'
    by (simp add: normalize_corner_def Let_def update2_nth)
  show ?case
    using d(2)
    by (simp add: Cons.IH[OF d(1)] normalize_corner_frame v1 vb1) auto
qed

lemma objects_inv_refl: "objects_inv {} s s"
  by (simp add: objects_inv_def scatter_frame_refl corner_lengths_eq_def)

lemma corner_in_range_eq: "corner_lengths_eq s s' \<Longrightarrow> corner_in_range s' k l = corner_in_range s k l"
  by (simp add: corner_lengths_eq_def corner_in_range_def)

lemma corner_lengths_eq_trans:
  "corner_lengths_eq s s1 \<Longrightarrow> corner_lengths_eq s1 s' \<Longrightarrow> corner_lengths_eq s s'"
  by (simp add: corner_lengths_eq_def)

lemma objects_inv_object:
  assumes "rasterize_object obj s = Inr s'"
  shows "objects_inv {obj} s s'"
proof -
  from assms obtain s1 where s1: "foldE (rasterize_particle obj) [0..<particleNumOfObject s obj] s = Inr s1"
    and s': "s' = fold (normalize_corner obj) [0..<length (domain_corner_mass s1 ! obj)] s1"
    by (auto simp: rasterize_object_def split: sum.splits)
  note inv = scatter_inv_particles[OF s1, unfolded scatter_inv_def]
  note nf = fold_normalize_corner_frame[of s1 obj "[0..<length (domain_corner_mass s1 ! obj)]", folded s']
  note nn = fold_normalize_corner_nth[of "[0..<length (domain_corner_mass s1 ! obj)]" obj s1, folded s', simplified]
  have fr: "scatter_frame s s'" using inv nf by (auto intro: scatter_frame_trans)
  have le: "corner_lengths_eq s s'" using inv nf by (simp add: corner_lengths_eq_def)
  have g: "gridMass (base s') k n = gridMass (base s) k n
               + (if k \<in> {obj} then grid_mass_scattered s k n else 0)" for k n
    using inv nf by (simp add: grid_mass_scattered_def)
  have c: "domain_corner_mass s' ! k ! l = domain_corner_mass s ! k ! l
               + (if k \<in> {obj} then corner_mass_scattered s k l else 0)
           \<and> domain_corner_velocity s' ! k ! l =
               (if k \<in> {obj}
                then if domain_corner_mass s' ! k ! l > epsilon
                     then (domain_corner_velocity s ! k ! l + corner_momentum_scattered s k l)
                            /\<^sub>R domain_corner_mass s' ! k ! l
                     else domain_corner_velocity s ! k ! l + corner_momentum_scattered s k l
                else domain_corner_velocity s ! k ! l)
           \<and> domain_corner_velocity_before s' ! k ! l =
               (if k \<in> {obj} \<and> domain_corner_mass s' ! k ! l > epsilon
                then (domain_corner_velocity s ! k ! l + corner_momentum_scattered s k l)
                       /\<^sub>R domain_corner_mass s' ! k ! l
                else domain_corner_velocity_before s ! k ! l)"
    if r: "corner_in_range s k l" for k l
  proof -
    have m1: "domain_corner_mass s1 ! k ! l = domain_corner_mass s ! k ! l
               + (if k = obj then corner_mass_scattered s k l else 0)"
      using inv r by (simp add: corner_in_range_def corner_mass_scattered_def particle_corner_mass_def)
    have v1: "domain_corner_velocity s1 ! k ! l = domain_corner_velocity s ! k ! l
               + (if k = obj then corner_momentum_scattered s k l else 0)"
      using inv r by (simp add: corner_in_range_def corner_momentum_scattered_def particle_corner_momentum_def)
    have m': "domain_corner_mass s' = domain_corner_mass s1" using nf by simp
    have len: "length (domain_corner_mass s1 ! k) = length (domain_corner_mass s ! k)"
      "length (domain_corner_velocity s1) = length (domain_corner_velocity s)"
      "length (domain_corner_velocity s1 ! k) = length (domain_corner_velocity s ! k)"
      using inv by simp_all
    have vb1: "domain_corner_velocity_before s1 = domain_corner_velocity_before s" using inv by simp
    show ?thesis
    proof (cases "k = obj")
      case True
      from r have rr: "obj < length (domain_corner_mass s)" "l < length (domain_corner_mass s ! obj)"
        "obj < length (domain_corner_velocity s)" "l < length (domain_corner_velocity s ! obj)"
        "obj < length (domain_corner_velocity_before s)" "l < length (domain_corner_velocity_before s ! obj)"
        by (simp_all add: corner_in_range_def True)
      from len have len': "length (domain_corner_mass s1 ! obj) = length (domain_corner_mass s ! obj)"
        "length (domain_corner_velocity s1 ! obj) = length (domain_corner_velocity s ! obj)"
        by (simp_all add: True)
      show ?thesis
        using nn[of obj l] m1 v1 rr
        by (simp add: True m' vb1 len' len(2))
    next
      case False
      then show ?thesis
        using nn[of k l] m1 v1 by (simp add: m' vb1)
    qed
  qed
  show ?thesis unfolding objects_inv_def using fr le g c by blast
qed

lemma objects_inv_trans:
  assumes "objects_inv K1 s s1" and "objects_inv K2 s1 s'" and "K1 \<inter> K2 = {}"
  shows "objects_inv (K1 \<union> K2) s s'"
proof -
  have fr: "scatter_frame s s1" and le: "corner_lengths_eq s s1"
    using assms(1) by (simp_all add: objects_inv_def)
  note sf = scattered_frame[OF fr]
  have fr': "scatter_frame s s'"
    using assms by (auto simp: objects_inv_def intro: scatter_frame_trans)
  have le': "corner_lengths_eq s s'"
    using assms by (auto simp: objects_inv_def intro: corner_lengths_eq_trans)
  have g: "gridMass (base s') k n = gridMass (base s) k n
               + (if k \<in> K1 \<union> K2 then grid_mass_scattered s k n else 0)" for k n
    using assms by (auto simp: objects_inv_def sf)
  have c: "domain_corner_mass s' ! k ! l = domain_corner_mass s ! k ! l
               + (if k \<in> K1 \<union> K2 then corner_mass_scattered s k l else 0)
           \<and> domain_corner_velocity s' ! k ! l =
               (if k \<in> K1 \<union> K2
                then if domain_corner_mass s' ! k ! l > epsilon
                     then (domain_corner_velocity s ! k ! l + corner_momentum_scattered s k l)
                            /\<^sub>R domain_corner_mass s' ! k ! l
                     else domain_corner_velocity s ! k ! l + corner_momentum_scattered s k l
                else domain_corner_velocity s ! k ! l)
           \<and> domain_corner_velocity_before s' ! k ! l =
               (if k \<in> K1 \<union> K2 \<and> domain_corner_mass s' ! k ! l > epsilon
                then (domain_corner_velocity s ! k ! l + corner_momentum_scattered s k l)
                       /\<^sub>R domain_corner_mass s' ! k ! l
                else domain_corner_velocity_before s ! k ! l)"
    if r: "corner_in_range s k l" for k l
  proof -
    from r le have r1: "corner_in_range s1 k l" by (simp add: corner_in_range_eq)
    note a = assms(1)[unfolded objects_inv_def, THEN conjunct2, THEN conjunct2, THEN conjunct2, rule_format, OF r]
    note b = assms(2)[unfolded objects_inv_def sf, THEN conjunct2, THEN conjunct2, THEN conjunct2, rule_format, OF r1]
    consider "k \<in> K1" "k \<notin> K2" | "k \<in> K2" "k \<notin> K1" | "k \<notin> K1" "k \<notin> K2"
      using assms(3) by blast
    then show ?thesis
    proof cases
      case 1
      with a b show ?thesis by simp
    next
      case 2
      with a b show ?thesis by simp
    next
      case 3
      with a b show ?thesis by simp
    qed
  qed
  show ?thesis unfolding objects_inv_def using fr' le' g c by blast
qed

lemma objects_inv_objects:
  assumes "foldE rasterize_object objs s = Inr s'" and "distinct objs"
  shows "objects_inv (set objs) s s'"
  using assms
proof (induction objs arbitrary: s)
  case Nil
  then show ?case by (simp add: objects_inv_refl)
next
  case (Cons obj objs)
  from Cons.prems(1) obtain s1 where s1: "rasterize_object obj s = Inr s1"
    and rest: "foldE rasterize_object objs s1 = Inr s'"
    by (auto split: sum.splits)
  from Cons.prems(2) have d: "distinct objs" "obj \<notin> set objs" by simp_all
  have "objects_inv ({obj} \<union> set objs) s s'"
    by (rule objects_inv_trans[OF objects_inv_object[OF s1] Cons.IH[OF rest d(1)]]) (use d(2) in simp)
  then show ?case by simp
qed

lemma objects_inv_rasterize_objects:
  assumes "rasterize_objects s = Inr s'"
  shows "objects_inv {..<objectNum s} s s'"
  using objects_inv_objects[of "[0..<objectNum s]" s s'] assms
  by (simp add: rasterize_objects_def lessThan_atLeast0)

lemma reset_object_values:
  "domain_corner_mass (reset_object obj s) ! k ! l =
     (if k = obj \<and> l < vertNum (particle_domain_mesh s ! k)
         \<and> k < length (domain_corner_mass s) \<and> l < length (domain_corner_mass s ! k)
      then 0 else domain_corner_mass s ! k ! l)"
  "domain_corner_velocity (reset_object obj s) ! k ! l =
     (if k = obj \<and> l < vertNum (particle_domain_mesh s ! k)
         \<and> k < length (domain_corner_velocity s) \<and> l < length (domain_corner_velocity s ! k)
      then 0 else domain_corner_velocity s ! k ! l)"
  "domain_corner_velocity_before (reset_object obj s) ! k ! l =
     (if k = obj \<and> l < vertNum (particle_domain_mesh s ! k)
         \<and> k < length (domain_corner_velocity_before s) \<and> l < length (domain_corner_velocity_before s ! k)
      then 0 else domain_corner_velocity_before s ! k ! l)"
  by (auto simp: reset_object_def fold_reset_corner fold_update2_nth[where f="\<lambda>i. i", simplified])

lemma reset_object_lengths:
  "length (domain_corner_mass (reset_object obj s)) = length (domain_corner_mass s)"
  "length (domain_corner_mass (reset_object obj s) ! k) = length (domain_corner_mass s ! k)"
  "length (domain_corner_velocity (reset_object obj s)) = length (domain_corner_velocity s)"
  "length (domain_corner_velocity (reset_object obj s) ! k) = length (domain_corner_velocity s ! k)"
  "length (domain_corner_velocity_before (reset_object obj s)) = length (domain_corner_velocity_before s)"
  "length (domain_corner_velocity_before (reset_object obj s) ! k) = length (domain_corner_velocity_before s ! k)"
  using fold_reset_object_length[of "[obj]" s] by simp_all

lemma fold_reset_object_mass:
  "domain_corner_mass (fold reset_object objs s) ! k ! l =
     (if k \<in> set objs \<and> l < vertNum (particle_domain_mesh s ! k)
         \<and> k < length (domain_corner_mass s) \<and> l < length (domain_corner_mass s ! k)
      then 0 else domain_corner_mass s ! k ! l)"
proof (induction objs arbitrary: s)
  case Nil
  then show ?case by simp
next
  case (Cons obj objs)
  show ?case
    by (auto simp: Cons.IH reset_object_frame reset_object_lengths reset_object_values(1))
qed

lemma fold_reset_object_velocity:
  "domain_corner_velocity (fold reset_object objs s) ! k ! l =
     (if k \<in> set objs \<and> l < vertNum (particle_domain_mesh s ! k)
         \<and> k < length (domain_corner_velocity s) \<and> l < length (domain_corner_velocity s ! k)
      then 0 else domain_corner_velocity s ! k ! l)"
proof (induction objs arbitrary: s)
  case Nil
  then show ?case by simp
next
  case (Cons obj objs)
  show ?case
    by (auto simp: Cons.IH reset_object_frame reset_object_lengths reset_object_values(2))
qed

lemma fold_reset_object_velocity_before:
  "domain_corner_velocity_before (fold reset_object objs s) ! k ! l =
     (if k \<in> set objs \<and> l < vertNum (particle_domain_mesh s ! k)
         \<and> k < length (domain_corner_velocity_before s) \<and> l < length (domain_corner_velocity_before s ! k)
      then 0 else domain_corner_velocity_before s ! k ! l)"
proof (induction objs arbitrary: s)
  case Nil
  then show ?case by simp
next
  case (Cons obj objs)
  show ?case
    by (auto simp: Cons.IH reset_object_frame reset_object_lengths reset_object_values(3))
qed

lemma flag_frame_refl: "\<exists>F. t = t\<lparr>is_enriched_domain_corner := F\<rparr>"
  by (rule exI[of _ "is_enriched_domain_corner t"]) simp

lemma enrich_particle_only_flags:
  "\<exists>F. enrich_particle crit obj p s = s\<lparr>is_enriched_domain_corner := F\<rparr>"
  using flag_frame_refl[of s] by (auto simp: enrich_particle_def fold_enrich_corner)

lemma fold_enrich_particle_only_flags:
  "\<exists>F. fold (enrich_particle crit obj) ps s = s\<lparr>is_enriched_domain_corner := F\<rparr>"
proof (induction ps arbitrary: s)
  case Nil
  show ?case using flag_frame_refl[of s] by simp
next
  case (Cons p ps)
  from enrich_particle_only_flags[of crit obj p s] obtain F
    where F: "enrich_particle crit obj p s = s\<lparr>is_enriched_domain_corner := F\<rparr>" by blast
  from Cons[of "s\<lparr>is_enriched_domain_corner := F\<rparr>"] obtain F'
    where "fold (enrich_particle crit obj) ps (s\<lparr>is_enriched_domain_corner := F\<rparr>)
             = s\<lparr>is_enriched_domain_corner := F'\<rparr>" by auto
  then show ?case by (simp add: F) (rule exI[of _ F'], rule refl)
qed

lemma fold_enrich_object_only_flags:
  "\<exists>F. fold (enrich_object crit) objs s = s\<lparr>is_enriched_domain_corner := F\<rparr>"
proof (induction objs arbitrary: s)
  case Nil
  show ?case using flag_frame_refl[of s] by simp
next
  case (Cons obj objs)
  from fold_enrich_particle_only_flags[of crit obj "[0..<particleNumOfObject s obj]" s] obtain F
    where F: "enrich_object crit obj s = s\<lparr>is_enriched_domain_corner := F\<rparr>"
    by (auto simp: enrich_object_def)
  from Cons[of "s\<lparr>is_enriched_domain_corner := F\<rparr>"] obtain F'
    where "fold (enrich_object crit) objs (s\<lparr>is_enriched_domain_corner := F\<rparr>)
             = s\<lparr>is_enriched_domain_corner := F'\<rparr>" by auto
  then show ?case by (simp add: F) (rule exI[of _ F'], rule refl)
qed

lemma classify_only_flags:
  "\<exists>F. updateParticleDomainEnrichState_with crit s = s\<lparr>is_enriched_domain_corner := F\<rparr>"
  using fold_enrich_object_only_flags by (simp add: updateParticleDomainEnrichState_with_def)



lemma classified_frame:
  assumes "t = rasterize_classified crit rgd s"
  shows "base t = rgd (base s)"
    and "particle_domain_mesh t = particle_domain_mesh s"
    and "particle_corner_weight t = particle_corner_weight s"
    and "domain_corner_mass t = domain_corner_mass (resetParticleDomainData (s\<lparr>base := rgd (base s)\<rparr>))"
    and "domain_corner_velocity t = domain_corner_velocity (resetParticleDomainData (s\<lparr>base := rgd (base s)\<rparr>))"
    and "domain_corner_velocity_before t
           = domain_corner_velocity_before (resetParticleDomainData (s\<lparr>base := rgd (base s)\<rparr>))"
proof -
  let ?r = "resetParticleDomainData (s\<lparr>base := rgd (base s)\<rparr>)"
  from classify_only_flags[of crit ?r] obtain F where "t = ?r\<lparr>is_enriched_domain_corner := F\<rparr>"
    by (auto simp: assms rasterize_classified_def)
  then show "base t = rgd (base s)"
    and "particle_domain_mesh t = particle_domain_mesh s"
    and "particle_corner_weight t = particle_corner_weight s"
    and "domain_corner_mass t = domain_corner_mass ?r"
    and "domain_corner_velocity t = domain_corner_velocity ?r"
    and "domain_corner_velocity_before t = domain_corner_velocity_before ?r"
    by (simp_all add: resetParticleDomainData_def fold_reset_object_frame)
qed

lemma classified_zero:
  assumes t: "t = rasterize_classified crit rgd s"
    and k: "k < objectNum t" and ok: "corner_arrays_ok t k"
    and l: "l < vertNum (particle_domain_mesh t ! k)"
  shows "corner_in_range t k l"
    and "domain_corner_mass t ! k ! l = 0"
    and "domain_corner_velocity t ! k ! l = 0"
    and "domain_corner_velocity_before t ! k ! l = 0"
proof -
  let ?s0 = "s\<lparr>base := rgd (base s)\<rparr>"
  note f = classified_frame[OF t]
  have on: "objectNum ?s0 = objectNum t" by (simp add: objectNum_def f)
  show r: "corner_in_range t k l"
    using ok l by (simp add: corner_in_range_def corner_arrays_ok_def)
  have len: "k < length (domain_corner_mass ?s0)" "l < length (domain_corner_mass ?s0 ! k)"
    "k < length (domain_corner_velocity ?s0)" "l < length (domain_corner_velocity ?s0 ! k)"
    "k < length (domain_corner_velocity_before ?s0)" "l < length (domain_corner_velocity_before ?s0 ! k)"
    using r by (simp_all add: corner_in_range_def f resetParticleDomainData_def fold_reset_object_length)
  have l0: "l < vertNum (particle_domain_mesh ?s0 ! k)" using l by (simp add: f)
  have k0: "k \<in> set [0..<objectNum ?s0]" using k on by simp
  show "domain_corner_mass t ! k ! l = 0"
    using len l0 k0 by (simp add: f(4) resetParticleDomainData_def fold_reset_object_mass del: set_upt)
  show "domain_corner_velocity t ! k ! l = 0"
    using len l0 k0 by (simp add: f(5) resetParticleDomainData_def fold_reset_object_velocity del: set_upt)
  show "domain_corner_velocity_before t ! k ! l = 0"
    using len l0 k0 by (simp add: f(6) resetParticleDomainData_def fold_reset_object_velocity_before del: set_upt)
qed

lemma rasterize_with_Inr:
  assumes "rasterize_with crit rgd s = Inr s'"
  shows "\<exists>s3 b. rasterize_objects (rasterize_classified crit rgd s) = Inr s3 \<and> s' = s3\<lparr>base := b\<rparr>"
proof -
  from assms obtain s3 where s3: "rasterize_objects (rasterize_classified crit rgd s) = Inr s3"
    by (auto simp: rasterize_with_def rasterize_before_merge_def split: sum.splits)
  let ?act = "activate_nodes (objectNum s3) (base s3)"
  let ?s5 = "s3\<lparr>base := grid_velocities (fst ?act)\<rparr>"
  from assms s3 have "s' = (if contact_method (base ?s5) = None
      then ?s5\<lparr>base := merge_nodes (objectNum ?s5) (snd ?act) (base ?s5)\<rparr> else ?s5)"
    by (auto simp: rasterize_with_def rasterize_before_merge_def Let_def split: if_splits)
  then have "s' = s3\<lparr>base := base s'\<rparr>"
    by (simp split: if_splits)
  with s3 show ?thesis by blast
qed

subsection \<open>Rasterization: the grid\<close>

lemma set_multimap_insert: "set (multimap_insert kv xs) = insert kv (set xs)"
  by (induction xs) auto

lemma activate_node_object_frame:
  "\<exists>T. fst (activate_node_object node obj acc) = (fst acc)\<lparr>active_grid_node := T\<rparr>"
  by (cases "gridMass (fst acc) obj node > epsilon")
     (auto simp: activate_node_object_def Let_def intro: exI[of _ "active_grid_node (fst acc)"])

lemma fold_activate_frame:
  assumes "\<And>x acc. \<exists>T. fst (f x acc) = (fst acc)\<lparr>active_grid_node := T\<rparr>"
  shows "\<exists>T. fst (fold f xs acc) = (fst acc)\<lparr>active_grid_node := T\<rparr>"
proof (induction xs arbitrary: acc)
  case Nil
  show ?case by (auto intro: exI[of _ "active_grid_node (fst acc)"])
next
  case (Cons x xs)
  from assms[of x acc] obtain T where T: "fst (f x acc) = (fst acc)\<lparr>active_grid_node := T\<rparr>" by blast
  from Cons[of "f x acc"] obtain T' where "fst (fold f xs (f x acc)) = (fst (f x acc))\<lparr>active_grid_node := T'\<rparr>"
    by blast
  then have "fst (fold f (x # xs) acc) = (fst acc)\<lparr>active_grid_node := T'\<rparr>" by (simp add: T)
  then show ?case by blast
qed

lemma activate_nodes_frame:
  "\<exists>T. fst (activate_nodes N b) = b\<lparr>active_grid_node := T\<rparr>"
proof -
  have "\<exists>T. fst (fold (\<lambda>node acc. fold (activate_node_object node) [0..<N] acc) xs acc)
          = (fst acc)\<lparr>active_grid_node := T\<rparr>" for xs and acc :: "('a, 'b) CPDIMPMSolid \<times> nat list"
    by (rule fold_activate_frame) (rule fold_activate_frame, rule activate_node_object_frame)
  from this[of "[0..<grid_node_num b]" "(b, [])"] show ?thesis by (simp add: activate_nodes_def)
qed

lemma activate_node_object_nodes:
  "nodes_in_table acc \<Longrightarrow> nodes_in_table (activate_node_object node obj acc)"
  by (auto simp: nodes_in_table_def activate_node_object_def Let_def set_multimap_insert distinct_insort set_insort_key)

lemma activate_nodes_nodes: "nodes_in_table (activate_nodes N b)"
proof -
  have 1: "nodes_in_table acc \<Longrightarrow> nodes_in_table (fold (activate_node_object node) objs acc)"
    for node objs and acc :: "('a, 'b) CPDIMPMSolid \<times> nat list"
    by (induction objs arbitrary: acc) (simp_all add: activate_node_object_nodes)
  have 2: "nodes_in_table acc \<Longrightarrow>
     nodes_in_table (fold (\<lambda>node acc. fold (activate_node_object node) [0..<N] acc) xs acc)"
    for xs and acc :: "('a, 'b) CPDIMPMSolid \<times> nat list"
    by (induction xs arbitrary: acc) (simp_all add: 1)
  show ?thesis unfolding activate_nodes_def by (rule 2) (simp add: nodes_in_table_def)
qed

lemma grid_velocity_pair_frame:
  "gridMass (grid_velocity_pair kv b) k n = gridMass b k n"
  "active_grid_node (grid_velocity_pair kv b) = active_grid_node b"
  "contact_method (grid_velocity_pair kv b) = contact_method b"
  "is_dirichlet_grid_node (grid_velocity_pair kv b) = is_dirichlet_grid_node b"
  "grid_node_num (grid_velocity_pair kv b) = grid_node_num b"
  "particles (grid_velocity_pair kv b) = particles b"
  by (auto simp: grid_velocity_pair_def Let_def gridMass_def at_key_def split: option.splits)

lemma fold_grid_velocity_pair_frame:
  "gridMass (fold grid_velocity_pair kvs b) k n = gridMass b k n"
  "active_grid_node (fold grid_velocity_pair kvs b) = active_grid_node b"
  "contact_method (fold grid_velocity_pair kvs b) = contact_method b"
  "is_dirichlet_grid_node (fold grid_velocity_pair kvs b) = is_dirichlet_grid_node b"
  "grid_node_num (fold grid_velocity_pair kvs b) = grid_node_num b"
  "particles (fold grid_velocity_pair kvs b) = particles b"
  by (induction kvs arbitrary: b; simp add: grid_velocity_pair_frame)+

lemma merge_node_table: "active_grid_node (merge_node N n b) = active_grid_node b"
  by (simp add: merge_node_def Let_def)

lemma merge_nodes_table: "active_grid_node (merge_nodes N nodes b) = active_grid_node b"
  unfolding merge_nodes_def by (induction nodes arbitrary: b) (simp_all add: merge_node_table)

lemma merge_nodes_single:
  "(\<forall>n\<in>set nodes. multimap_count n (active_grid_node b) = 1) \<Longrightarrow> merge_nodes N nodes b = b"
  unfolding merge_nodes_def by (induction nodes) (simp_all add: merge_node_def)

lemma multimap_count_pos: "(n, obj) \<in> set table \<Longrightarrow> 0 < multimap_count n table"
  by (force simp: multimap_count_def multimap_range_def filter_empty_conv)

lemma rasterize_with_structure:
  assumes run: "rasterize_with crit rgd s = Inr s'"
    and t: "t = rasterize_classified crit rgd s"
  shows "\<exists>s3 T. rasterize_objects t = Inr s3
     \<and> fst (activate_nodes (objectNum t) (base s3)) = (base s3)\<lparr>active_grid_node := T\<rparr>
     \<and> s' = s3\<lparr>base :=
           (if contact_method (base t) = None
            then merge_nodes (objectNum t) (snd (activate_nodes (objectNum t) (base s3)))
                   (grid_velocities (fst (activate_nodes (objectNum t) (base s3))))
            else grid_velocities (fst (activate_nodes (objectNum t) (base s3))))\<rparr>"
proof -
  from run obtain s3 where s3: "rasterize_objects t = Inr s3"
    by (auto simp: t rasterize_with_def rasterize_before_merge_def split: sum.splits)
  note inv = objects_inv_rasterize_objects[OF s3, unfolded objects_inv_def]
  from inv have fr: "scatter_frame t s3" by simp
  have on: "objectNum s3 = objectNum t" by (rule scatter_frame_fields[OF fr])
  let ?act = "activate_nodes (objectNum t) (base s3)"
  let ?b5 = "grid_velocities (fst ?act)"
  from activate_nodes_frame[of "objectNum t" "base s3"] obtain T
    where T: "fst ?act = (base s3)\<lparr>active_grid_node := T\<rparr>" by blast
  have cm: "contact_method ?b5 = contact_method (base t)"
    by (simp add: grid_velocities_def fold_grid_velocity_pair_frame T scatter_frame_fields[OF fr])
  have pn: "objectNum (s3\<lparr>base := ?b5\<rparr>) = objectNum t"
    using on T by (simp add: objectNum_def grid_velocities_def fold_grid_velocity_pair_frame)
  from run s3 have "s' = s3\<lparr>base :=
           (if contact_method (base t) = None
            then merge_nodes (objectNum t) (snd ?act) ?b5 else ?b5)\<rparr>"
    unfolding t[symmetric] rasterize_with_def rasterize_before_merge_def
    by (simp add: Let_def on pn cm split: if_splits)
  with s3 T show ?thesis by blast
qed

lemma rasterize_with_grid:
  assumes run: "rasterize_with crit rgd s = Inr s'"
    and t: "t = rasterize_classified crit rgd s"
    and nm: "contact_method (base t) \<noteq> None
             \<or> (\<forall>n. multimap_count n (active_grid_node (base s')) \<le> 1)"
  shows "gridMass (base s') k n = gridMass (base t) k n + (if k < objectNum t then grid_mass_scattered t k n else 0)"
proof -
  from rasterize_with_structure[OF run t] obtain s3 T where s3: "rasterize_objects t = Inr s3"
    and T: "fst (activate_nodes (objectNum t) (base s3)) = (base s3)\<lparr>active_grid_node := T\<rparr>"
    and s': "s' = s3\<lparr>base :=
           (if contact_method (base t) = None
            then merge_nodes (objectNum t) (snd (activate_nodes (objectNum t) (base s3)))
                   (grid_velocities (fst (activate_nodes (objectNum t) (base s3))))
            else grid_velocities (fst (activate_nodes (objectNum t) (base s3))))\<rparr>"
    by blast
  let ?act = "activate_nodes (objectNum t) (base s3)"
  let ?b5 = "grid_velocities (fst ?act)"
  note inv = objects_inv_rasterize_objects[OF s3, unfolded objects_inv_def]
  have tb: "active_grid_node ?b5 = T"
    by (simp add: grid_velocities_def fold_grid_velocity_pair_frame T)
  have gm5: "gridMass ?b5 k n = gridMass (base s3) k n"
    by (simp add: grid_velocities_def fold_grid_velocity_pair_frame) (simp add: T gridMass_def)
  have "base s' = ?b5"
  proof (cases "contact_method (base t) = None")
    case False
    then show ?thesis by (simp add: s')
  next
    case True
    with nm have le: "\<forall>n. multimap_count n (active_grid_node (base s')) \<le> 1" by simp
    have tb': "active_grid_node (base s') = T"
      by (simp add: s' merge_nodes_table tb)
    have "\<forall>n\<in>set (snd ?act). multimap_count n (active_grid_node ?b5) = 1"
    proof
      fix n assume "n \<in> set (snd ?act)"
      with activate_nodes_nodes[of "objectNum t" "base s3"] obtain obj
        where "(n, obj) \<in> set (active_grid_node (fst ?act))"
        by (auto simp: nodes_in_table_def)
      then have "(n, obj) \<in> set T" by (simp add: T)
      from multimap_count_pos[OF this] le tb' tb
      show "multimap_count n (active_grid_node ?b5) = 1"
        by (metis le_antisym Suc_leI One_nat_def)
    qed
    from merge_nodes_single[OF this] show ?thesis by (simp add: s' True)
  qed
  then have "gridMass (base s') k n = gridMass (base s3) k n" by (simp add: gm5)
  with inv show ?thesis by (simp add: lessThan_iff)
qed

subsection \<open>Sums over nodes, corners and particles\<close>

lemma sum_list_swap_lists:
  fixes f :: "'a \<Rightarrow> 'b \<Rightarrow> 'c::comm_monoid_add"
  shows "(\<Sum>x\<leftarrow>xs. \<Sum>y\<leftarrow>ys. f x y) = (\<Sum>y\<leftarrow>ys. \<Sum>x\<leftarrow>xs. f x y)"
  by (induction xs) (simp_all add: sum_list_addf)

lemma sum_list_delta_upt:
  fixes v :: "'c::comm_monoid_add"
  shows "(\<Sum>n\<leftarrow>[0..<N]. if a = n then v else 0) = (if a < N then v else 0)"
proof -
  have "(\<Sum>n\<leftarrow>[0..<N]. if a = n then v else 0) = (\<Sum>n\<in>{0..<N}. if a = n then v else 0)"
    by (simp add: interv_sum_list_conv_sum_set_nat)
  also have "\<dots> = (if a < N then v else 0)"
    by (simp add: sum.delta')
  finally show ?thesis .
qed

lemma sum_list_nth_upt: "sum_list xs = (\<Sum>i\<leftarrow>[0..<length xs]. xs ! i)"
  by (simp add: map_nth)

lemma sum_list_cong_upt:
  "(\<And>i. i < N \<Longrightarrow> f i = g i) \<Longrightarrow> (\<Sum>i\<leftarrow>[0..<N]. f i) = (\<Sum>i\<leftarrow>[0..<N]. g i)"
  by (rule arg_cong[where f = sum_list], rule map_cong) simp_all


lemma grid_total_of_particle:
  assumes "\<forall>pair\<in>set pairs. node_idx pair < N"
  shows "(\<Sum>n\<leftarrow>[0..<N]. \<Sum>pair\<leftarrow>pairs. if node_idx pair = n then weight_value pair * m else 0)
       = m * (\<Sum>pair\<leftarrow>pairs. weight_value pair)"
proof -
  have "(\<Sum>n\<leftarrow>[0..<N]. \<Sum>pair\<leftarrow>pairs. if node_idx pair = n then weight_value pair * m else 0)
      = (\<Sum>pair\<leftarrow>pairs. \<Sum>n\<leftarrow>[0..<N]. if node_idx pair = n then weight_value pair * m else 0)"
    by (rule sum_list_swap_lists)
  also have "\<dots> = (\<Sum>pair\<leftarrow>pairs. weight_value pair * m)"
    using assms by (intro arg_cong[where f = sum_list] map_cong) (simp_all add: sum_list_delta_upt)
  also have "\<dots> = m * (\<Sum>pair\<leftarrow>pairs. weight_value pair)"
    by (simp add: sum_list_const_mult mult.commute)
  finally show ?thesis .
qed

lemma corner_total_of_particle:
  fixes w :: "nat \<Rightarrow> real"
  assumes "\<forall>c<cn. idx c < V"
  shows "(\<Sum>l\<leftarrow>[0..<V]. \<Sum>c\<leftarrow>[0..<cn]. if idx c = l \<and> en l then w c * m else 0)
       = m * (\<Sum>c\<leftarrow>[0..<cn]. if en (idx c) then w c else 0)"
proof -
  have "(\<Sum>l\<leftarrow>[0..<V]. \<Sum>c\<leftarrow>[0..<cn]. if idx c = l \<and> en l then w c * m else 0)
      = (\<Sum>c\<leftarrow>[0..<cn]. \<Sum>l\<leftarrow>[0..<V]. if idx c = l \<and> en l then w c * m else 0)"
    by (rule sum_list_swap_lists)
  also have "\<dots> = (\<Sum>c\<leftarrow>[0..<cn]. if en (idx c) then w c * m else 0)"
  proof (rule sum_list_cong_upt)
    fix c assume c: "c < cn"
    have "(\<Sum>l\<leftarrow>[0..<V]. if idx c = l \<and> en l then w c * m else 0)
        = (\<Sum>l\<leftarrow>[0..<V]. if idx c = l then (if en (idx c) then w c * m else 0) else 0)"
      by (rule sum_list_cong_upt) simp
    also have "\<dots> = (if en (idx c) then w c * m else 0)"
      using assms c by (simp add: sum_list_delta_upt)
    finally show "(\<Sum>l\<leftarrow>[0..<V]. if idx c = l \<and> en l then w c * m else 0)
        = (if en (idx c) then w c * m else 0)" .
  qed
  also have "\<dots> = (\<Sum>c\<leftarrow>[0..<cn]. m * (if en (idx c) then w c else 0))"
    by (rule sum_list_cong_upt) simp
  also have "\<dots> = m * (\<Sum>c\<leftarrow>[0..<cn]. if en (idx c) then w c else 0)"
    by (simp add: sum_list_const_mult)
  finally show ?thesis .
qed

subsection \<open>The classification through a step\<close>

lemma same_classification_refl: "same_classification s s"
  by (simp add: same_classification_def)

lemma same_classification_trans:
  "same_classification s s1 \<Longrightarrow> same_classification s1 s' \<Longrightarrow> same_classification s s'"
  by (simp add: same_classification_def)

lemma same_classification_guard:
  "same_classification s s' \<Longrightarrow> enriched_corner_num s' k p = enriched_corner_num s k p"
  by (simp add: same_classification_def enriched_corner_num_def)

lemma foldE_same_classification:
  assumes "\<And>x s s'. f x s = Inr s' \<Longrightarrow> same_classification s s'"
    and "foldE f xs s = Inr s'"
  shows "same_classification s s'"
  using assms(2)
proof (induction xs arbitrary: s)
  case Nil
  then show ?case by (simp add: same_classification_refl)
next
  case (Cons x xs)
  from Cons.prems obtain s1 where 1: "f x s = Inr s1" and 2: "foldE f xs s1 = Inr s'"
    by (auto split: sum.splits)
  from same_classification_trans[OF assms(1)[OF 1] Cons.IH[OF 2]] show ?case .
qed

lemma fold_same_classification:
  assumes "\<And>x s. same_classification s (f x s)"
  shows "same_classification s (fold f xs s)"
proof (induction xs arbitrary: s)
  case Nil
  show ?case by (simp add: same_classification_refl)
next
  case (Cons x xs)
  from same_classification_trans[OF assms[of s x] Cons[of "f x s"]] show ?case by simp
qed

lemma scatter_frame_same_classification:
  "scatter_frame s s' \<Longrightarrow> same_classification s s'"
  by (simp add: same_classification_def scatter_frame_fields)

lemma rasterize_particle_same_classification:
  "rasterize_particle k p s = Inr s' \<Longrightarrow> same_classification s s'"
  using scatter_inv_particle[of k p s s']
  by (simp add: scatter_inv_def scatter_frame_same_classification)

lemma rasterize_objects_same_classification:
  "rasterize_objects s = Inr s' \<Longrightarrow> same_classification s s'"
  using objects_inv_rasterize_objects[of s s']
  by (simp add: objects_inv_def scatter_frame_same_classification)

lemma constitutive_particle_same_classification:
  "constitutive_particle op det dt k p s = Inr s' \<Longrightarrow> same_classification s s'"
  by (auto simp: constitutive_particle_def Let_def same_classification_def objectNum_def
        particleNumOfObject_def length_update2 length_update2_nth split: if_splits)

lemma constitutive_same_classification:
  "updateParticleConstitutiveModelState op det dt s = Inr s' \<Longrightarrow> same_classification s s'"
  unfolding updateParticleConstitutiveModelState_def
  by (erule foldE_same_classification[rotated], unfold constitutive_object_def,
      erule foldE_same_classification[rotated], erule constitutive_particle_same_classification)

lemma velocity_particle_same_classification:
  "velocity_particle k p s = Inr s' \<Longrightarrow> same_classification s s'"
  by (auto simp: velocity_particle_def Let_def same_classification_def objectNum_def
        particleNumOfObject_def length_update2 length_update2_nth split: if_splits sum.splits)

lemma velocity_same_classification:
  "updateParticleVelocity s = Inr s' \<Longrightarrow> same_classification s s'"
  unfolding updateParticleVelocity_def
  by (erule foldE_same_classification[rotated], unfold velocity_object_def,
      erule foldE_same_classification[rotated], erule velocity_particle_same_classification)

lemma solve_pair_fields:
  "Dim (solve_pair mv dt k particle pair b) = Dim b"
  "particles (solve_pair mv dt k particle pair b) = particles b"
  by (simp_all add: solve_pair_def Let_def)

lemma fold_solve_pair_fields:
  "Dim (fold (solve_pair mv dt k particle) pairs b) = Dim b"
  "particles (fold (solve_pair mv dt k particle) pairs b) = particles b"
  by (induction pairs arbitrary: b; simp add: solve_pair_fields)+

lemma solve_corner_same_classification:
  "same_classification s (solve_corner mv dt k p particle c s)"
  by (simp add: solve_corner_def Let_def same_classification_def objectNum_def particleNumOfObject_def)

lemma solve_particle_same_classification:
  "same_classification s (solve_particle mv dt k p s)"
proof -
  let ?particle = "particles (base s) ! k ! p"
  let ?s1 = "if enriched_corner_num s k p < corner_num (Dim (base s))
             then s\<lparr>base := fold (solve_pair mv dt k ?particle)
                                 (take (particle_grid_pair_num (base s) ! k ! p)
                                    (particle_grid_weight_and_gradient (base s) ! k ! p))
                                 (base s)\<rparr>
             else s"
  have 1: "same_classification s ?s1"
    by (simp add: same_classification_def objectNum_def particleNumOfObject_def fold_solve_pair_fields)
  have 2: "same_classification ?s1 (fold (solve_corner mv dt k p ?particle) cs ?s1)" for cs
    by (rule fold_same_classification) (rule solve_corner_same_classification)
  have "solve_particle mv dt k p s =
      (if enriched_corner_num s k p > 0
       then fold (solve_corner mv dt k p ?particle) [0..<corner_num (Dim (base s))] ?s1 else ?s1)"
    by (simp add: solve_particle_def Let_def)
  then show ?thesis
    using 1 same_classification_trans[OF 1 2] by (simp split: if_splits)
qed

lemma gravity_corner_same_classification:
  "same_classification s (gravity_corner ax dt k c s)"
  by (simp add: gravity_corner_def same_classification_def objectNum_def particleNumOfObject_def)

lemma solve_same_classification:
  "same_classification s (solveOnGridForwardEuler mv ax dt s)"
proof -
  have 1: "same_classification s (fold (solve_object mv dt) objs s)" for objs
    by (rule fold_same_classification, unfold solve_object_def, rule fold_same_classification,
        rule solve_particle_same_classification)
  have 2: "same_classification u (applyGravityOnEnrichedDomainCorner ax dt u)"
    for u :: "('a, 'b) InvertibleMPMSolid"
    unfolding applyGravityOnEnrichedDomainCorner_def
    by (rule fold_same_classification, unfold gravity_object_def, rule fold_same_classification,
        rule gravity_corner_same_classification)
  show ?thesis
    unfolding solveOnGridForwardEuler_def by (rule same_classification_trans[OF 1 2])
qed

lemma grid_velocity_pair_Dim: "Dim (grid_velocity_pair kv b) = Dim b"
  by (simp add: grid_velocity_pair_def Let_def)

lemma grid_velocities_fields:
  "Dim (grid_velocities b) = Dim b" "particles (grid_velocities b) = particles b"
proof -
  have "Dim (fold grid_velocity_pair kvs b) = Dim b" for kvs
    by (induction kvs arbitrary: b) (simp_all add: grid_velocity_pair_Dim)
  then show "Dim (grid_velocities b) = Dim b" by (simp add: grid_velocities_def)
  show "particles (grid_velocities b) = particles b"
    by (simp add: grid_velocities_def fold_grid_velocity_pair_frame)
qed

lemma merge_node_fields:
  "Dim (merge_node N n b) = Dim b" "particles (merge_node N n b) = particles b"
  by (simp_all add: merge_node_def Let_def)

lemma merge_nodes_fields:
  "Dim (merge_nodes N nodes b) = Dim b" "particles (merge_nodes N nodes b) = particles b"
  unfolding merge_nodes_def by (induction nodes arbitrary: b; simp add: merge_node_fields)+

lemma rasterize_with_same_classification:
  assumes run: "rasterize_with crit rgd s = Inr s'"
    and t: "t = rasterize_classified crit rgd s"
  shows "same_classification t s'"
proof -
  from rasterize_with_structure[OF run t] obtain s3 T where s3: "rasterize_objects t = Inr s3"
    and T: "fst (activate_nodes (objectNum t) (base s3)) = (base s3)\<lparr>active_grid_node := T\<rparr>"
    and s': "s' = s3\<lparr>base :=
           (if contact_method (base t) = None
            then merge_nodes (objectNum t) (snd (activate_nodes (objectNum t) (base s3)))
                   (grid_velocities (fst (activate_nodes (objectNum t) (base s3))))
            else grid_velocities (fst (activate_nodes (objectNum t) (base s3))))\<rparr>"
    by blast
  have act: "Dim (fst (activate_nodes (objectNum t) (base s3))) = Dim (base s3)"
    "particles (fst (activate_nodes (objectNum t) (base s3))) = particles (base s3)"
    by (simp_all add: T)
  have "same_classification s3 s'"
    unfolding s' same_classification_def objectNum_def particleNumOfObject_def
    by (simp add: merge_nodes_fields grid_velocities_fields act [unfolded objectNum_def])
  with rasterize_objects_same_classification[OF s3] show ?thesis
    by (rule same_classification_trans)
qed

lemma setVertPos_connectivity:
  "eleVertIndex (ms[k := setVertPos (ms ! k) g v] ! k') p c = eleVertIndex (ms ! k') p c"
  "eleVertNum (ms[k := setVertPos (ms ! k) g v] ! k') p = eleVertNum (ms ! k') p"
  by (cases "k < length ms"; cases "k' = k";
      simp add: eleVertIndex_def eleVertNum_def setVertPos_def list_update_beyond not_less)+

lemma position_corner_same_classification:
  "same_classification s (position_corner dt k p c s)"
  by (simp add: position_corner_def Let_def same_classification_def objectNum_def
        particleNumOfObject_def setVertPos_connectivity)

lemma position_objects_same_classification:
  "same_classification s (fold (position_object dt) objs s)"
  by (rule fold_same_classification, unfold position_object_def, rule fold_same_classification,
      unfold position_particle_def, rule fold_same_classification,
      rule position_corner_same_classification)

lemma updateParticlePosition_same_classification:
  assumes run: "updateParticlePosition cpdi2 dt s = Inr s'"
    and on: "objectNum s' = objectNum s" and pn: "\<forall>k. particleNumOfObject s' k = particleNumOfObject s k"
  shows "same_classification s s'"
proof -
  let ?s1 = "fold (position_object dt) [0..<objectNum s] s"
  from run have s': "s' = ?s1\<lparr>base := (base ?s1)\<lparr>particles := cpdi2 dt (base ?s1)\<rparr>\<rparr>"
    by (simp add: updateParticlePosition_def Let_def split: if_splits)
  have 1: "same_classification s ?s1" by (rule position_objects_same_classification)
  have "is_enriched_domain_corner s' = is_enriched_domain_corner ?s1"
    "particle_domain_mesh s' = particle_domain_mesh ?s1" "Dim (base s') = Dim (base ?s1)"
    by (subst s', simp)+
  with 1 on pn show ?thesis by (simp add: same_classification_def)
qed

lemma updateParticlePosition_counts:
  assumes run: "updateParticlePosition (\<lambda>dt b. particles b) dt s = Inr s'"
  shows "objectNum s' = objectNum s" and "\<forall>k. particleNumOfObject s' k = particleNumOfObject s k"
proof -
  let ?s1 = "fold (position_object dt) [0..<objectNum s] s"
  from run have s': "s' = ?s1\<lparr>base := (base ?s1)\<lparr>particles := particles (base ?s1)\<rparr>\<rparr>"
    by (simp add: updateParticlePosition_def Let_def split: if_splits)
  have p: "particles (base s') = particles (base ?s1)" by (subst s') simp
  have 1: "same_classification s ?s1" by (rule position_objects_same_classification)
  from 1 show "objectNum s' = objectNum s"
    by (simp add: same_classification_def objectNum_def p)
  from 1 show "\<forall>k. particleNumOfObject s' k = particleNumOfObject s k"
    by (simp add: same_classification_def particleNumOfObject_def p)
qed

lemma classified_flag:
  assumes k: "k < objectNum s" and kl: "k < length (is_enriched_domain_corner s)"
    and g: "g < length (is_enriched_domain_corner s ! k)"
    and t: "t = updateParticleDomainEnrichState s"
  shows "is_enriched_domain_corner t ! k ! g \<longleftrightarrow>
     is_enriched_domain_corner s ! k ! g
     \<or> (\<exists>p<particleNumOfObject s k. touches (particle_domain_mesh s ! k) p g)"
  using k kl g
  by (simp add: t updateParticleDomainEnrichState_def updateParticleDomainEnrichState_with_def
        fold_enrich_object_flag isEnrichCriteriaSatisfied_def)

lemma classified_frame_enrich:
  assumes t: "t = updateParticleDomainEnrichState s"
  shows "base t = base s" and "particle_domain_mesh t = particle_domain_mesh s"
    and "objectNum t = objectNum s" and "particleNumOfObject t k = particleNumOfObject s k"
    and "length (is_enriched_domain_corner t) = length (is_enriched_domain_corner s)"
    and "length (is_enriched_domain_corner t ! k) = length (is_enriched_domain_corner s ! k)"
  by (simp_all add: t updateParticleDomainEnrichState_def updateParticleDomainEnrichState_with_def
        fold_enrich_object_frame objectNum_def particleNumOfObject_def)

lemma particles_enriched_after_classification:
  assumes ok: "particle_elements_ok s k" and k: "k < objectNum s"
    and t: "t = updateParticleDomainEnrichState s"
  shows "\<forall>p<particleNumOfObject t k. \<forall>c<corner_num (Dim (base t)).
           is_enriched_domain_corner t ! k ! eleVertIndex (particle_domain_mesh t ! k) p c"
    and "\<forall>p<particleNumOfObject t k. enriched_corner_num t k p = corner_num (Dim (base t))"
proof -
  note fr = classified_frame_enrich[OF t]
  have flag: "is_enriched_domain_corner t ! k ! eleVertIndex (particle_domain_mesh t ! k) p c"
    if p: "p < particleNumOfObject s k" and c: "c < corner_num (Dim (base s))" for p c
  proof -
    let ?g = "eleVertIndex (particle_domain_mesh s ! k) p c"
    from ok p c have kl: "k < length (is_enriched_domain_corner s)"
      and g: "?g < length (is_enriched_domain_corner s ! k)"
      and n: "eleVertNum (particle_domain_mesh s ! k) p = corner_num (Dim (base s))"
      by (simp_all add: particle_elements_ok_def)
    from c n have "touches (particle_domain_mesh s ! k) p ?g" unfolding touches_def by auto
    with p have "\<exists>p<particleNumOfObject s k. touches (particle_domain_mesh s ! k) p ?g" by blast
    with classified_flag[OF k kl g t] show ?thesis by (simp add: fr)
  qed
  then show 1: "\<forall>p<particleNumOfObject t k. \<forall>c<corner_num (Dim (base t)).
           is_enriched_domain_corner t ! k ! eleVertIndex (particle_domain_mesh t ! k) p c"
    by (simp add: fr)
  show "\<forall>p<particleNumOfObject t k. enriched_corner_num t k p = corner_num (Dim (base t))"
  proof (intro allI impI)
    fix p assume p: "p < particleNumOfObject t k"
    have "\<forall>c\<in>set [0..<corner_num (Dim (base t))].
        is_enriched_domain_corner t ! k ! eleVertIndex (particle_domain_mesh t ! k) p c"
      using 1 p by simp
    then have "filter (\<lambda>c. is_enriched_domain_corner t ! k ! eleVertIndex (particle_domain_mesh t ! k) p c)
        [0..<corner_num (Dim (base t))] = [0..<corner_num (Dim (base t))]"
      by (simp only: filter_id_conv)
    then show "enriched_corner_num t k p = corner_num (Dim (base t))"
      by (simp add: enriched_corner_num_def)
  qed
qed

subsection \<open>The particle-domain mesh and the corner storage\<close>

lemma length_takeWhile_all:
  "length (takeWhile P xs) = length xs \<Longrightarrow> \<forall>x\<in>set xs. P x"
  by (metis takeWhile_eq_take take_all_iff order_refl takeWhile_eq_all_conv)

lemma construct_corner_inv:
  assumes "construct_inv acc poss"
  shows "construct_inv (construct_corner pos acc) (poss @ [pos])"
proof (cases "length (takeWhile (\<lambda>x. x \<noteq> pos) (fst acc)) = length (fst acc)")
  case True
  from length_takeWhile_all[OF True] have new: "pos \<notin> set (fst acc)" by blast
  have "map ((!) (fst acc @ [pos])) (snd acc) = map ((!) (fst acc)) (snd acc)"
    using assms by (intro map_cong) (simp_all add: construct_inv_def nth_append)
  with assms new True show ?thesis
    by (auto simp: construct_inv_def construct_corner_def Let_def less_Suc_eq)
next
  case False
  then have lt: "length (takeWhile (\<lambda>x. x \<noteq> pos) (fst acc)) < length (fst acc)"
    using length_takeWhile_le[of "\<lambda>x. x \<noteq> pos" "fst acc"] by simp
  from nth_length_takeWhile[OF lt] have "fst acc ! length (takeWhile (\<lambda>x. x \<noteq> pos) (fst acc)) = pos"
    by simp
  moreover from this lt have "pos \<in> set (fst acc)" by (metis nth_mem)
  ultimately show ?thesis
    using assms False lt by (auto simp: construct_inv_def construct_corner_def Let_def)
qed

lemma fold_construct_corner_inv:
  "construct_inv acc poss \<Longrightarrow> construct_inv (fold construct_corner ps acc) (poss @ ps)"
proof (induction ps arbitrary: acc poss)
  case Nil
  then show ?case by simp
next
  case (Cons p ps)
  from Cons.IH[OF construct_corner_inv[OF Cons.prems, of p]] show ?case by simp
qed

lemma nth_concat_blocks:
  "p < pn \<Longrightarrow> c < cn \<Longrightarrow>
   concat (map (\<lambda>p. map (f p) [0..<cn]) [0..<pn]) ! (p * cn + c) = f p c"
proof (induction pn)
  case 0
  then show ?case by simp
next
  case (Suc pn)
  have len: "length (concat (map (\<lambda>p. map (f p) [0..<cn]) [0..<pn])) = pn * cn"
    by (induction pn) simp_all
  show ?case
  proof (cases "p < pn")
    case True
    then have "Suc p * cn \<le> pn * cn" by (intro mult_le_mono1) simp
    with Suc.prems(2) have "p * cn + c < pn * cn" by simp
    with Suc.IH[OF True Suc.prems(2)] show ?thesis by (simp add: nth_append len)
  next
    case False
    with Suc.prems(1) have "p = pn" by simp
    with Suc.prems(2) show ?thesis by (simp add: nth_append len)
  qed
qed

lemma length_concat_blocks:
  "length (concat (map (\<lambda>p. map (f p) [0..<cn]) [0..<pn])) = pn * cn"
  by (induction pn) simp_all

lemma fold_concat_blocks: "fold f (concat xss) acc = fold (fold f) xss acc"
  by (induction xss arbitrary: acc) simp_all

lemma construct_corners_fold:
  "construct_corners s k =
     fold construct_corner
       (concat (map (\<lambda>p. map (\<lambda>c. particle_domain_corners (base s) ! k ! p ! c)
                             [0..<corner_num (Dim (base s))])
                    [0..<particleNumOfObject s k]))
       ([], [])"
  by (simp add: construct_corners_def fold_concat_blocks fold_map comp_def)

lemma construct_corners_inv:
  "construct_inv (construct_corners s k)
     (concat (map (\<lambda>p. map (\<lambda>c. particle_domain_corners (base s) ! k ! p ! c)
                             [0..<corner_num (Dim (base s))])
                    [0..<particleNumOfObject s k]))"
proof -
  have "construct_inv ([], []) ([] :: 'a list)" by (simp add: construct_inv_def)
  from fold_construct_corner_inv[OF this] show ?thesis
    unfolding construct_corners_fold by (simp only: append_Nil)
qed




lemma construct_corners_base:
  "base s' = base s \<Longrightarrow> construct_corners s' k = construct_corners s k"
  by (simp add: construct_corners_def particleNumOfObject_def)

lemma constructed_mesh_base:
  "base s' = base s \<Longrightarrow> constructed_mesh s' k = constructed_mesh s k"
  by (simp add: constructed_mesh_def construct_corners_base[of s' s] particleNumOfObject_def)

lemma constructed_mesh_fields:
  "vert_pos (constructed_mesh s k) = fst (construct_corners s k)"
  "ele_vert_num (constructed_mesh s k) = corner_num (Dim (base s))"
  "ele_num (constructed_mesh s k) = particleNumOfObject s k"
  "ele_vert (constructed_mesh s k) = snd (construct_corners s k)"
proof -
  from construct_corners_inv[of s k]
  have "length (snd (construct_corners s k)) = particleNumOfObject s k * corner_num (Dim (base s))"
    unfolding construct_inv_def by (metis length_map length_concat_blocks)
  then show "vert_pos (constructed_mesh s k) = fst (construct_corners s k)"
    "ele_vert_num (constructed_mesh s k) = corner_num (Dim (base s))"
    "ele_num (constructed_mesh s k) = particleNumOfObject s k"
    "ele_vert (constructed_mesh s k) = snd (construct_corners s k)"
    by (simp_all add: constructed_mesh_def QuadMesh_def CubicMesh_def corner_num_def)
qed

lemma constructed_mesh_corner:
  assumes p: "p < particleNumOfObject s k" and c: "c < corner_num (Dim (base s))"
  shows "eleVertIndex (constructed_mesh s k) p c < vertNum (constructed_mesh s k)"
    and "vertPos (constructed_mesh s k) (eleVertIndex (constructed_mesh s k) p c)
           = particle_domain_corners (base s) ! k ! p ! c"
proof -
  let ?cn = "corner_num (Dim (base s))"
  let ?cp = "fst (construct_corners s k)" and ?dom = "snd (construct_corners s k)"
  let ?poss = "concat (map (\<lambda>p. map (\<lambda>c. particle_domain_corners (base s) ! k ! p ! c) [0..<?cn])
                    [0..<particleNumOfObject s k])"
  note inv = construct_corners_inv[of s k, unfolded construct_inv_def]
  from inv have m: "map ((!) ?cp) ?dom = ?poss" by simp
  then have len: "length ?dom = particleNumOfObject s k * ?cn"
    by (metis length_map length_concat_blocks)
  from p have "Suc p * ?cn \<le> particleNumOfObject s k * ?cn" by (intro mult_le_mono1) simp
  with c have i: "p * ?cn + c < length ?dom" by (simp add: len)
  then have "?dom ! (p * ?cn + c) \<in> set ?dom" by simp
  with inv show "eleVertIndex (constructed_mesh s k) p c < vertNum (constructed_mesh s k)"
    by (simp add: eleVertIndex_def vertNum_def constructed_mesh_fields)
  have "?cp ! (?dom ! (p * ?cn + c)) = map ((!) ?cp) ?dom ! (p * ?cn + c)"
    using i by simp
  also have "\<dots> = particle_domain_corners (base s) ! k ! p ! c"
    unfolding m using p c by (rule nth_concat_blocks)
  finally show "vertPos (constructed_mesh s k) (eleVertIndex (constructed_mesh s k) p c)
           = particle_domain_corners (base s) ! k ! p ! c"
    by (simp add: eleVertIndex_def vertPos_def constructed_mesh_fields)
qed

lemma constructed_mesh_cover:
  assumes g: "g < vertNum (constructed_mesh s k)"
  shows "\<exists>p<particleNumOfObject s k. touches (constructed_mesh s k) p g"
proof -
  let ?cn = "corner_num (Dim (base s))"
  let ?cp = "fst (construct_corners s k)" and ?dom = "snd (construct_corners s k)"
  let ?poss = "concat (map (\<lambda>p. map (\<lambda>c. particle_domain_corners (base s) ! k ! p ! c) [0..<?cn])
                    [0..<particleNumOfObject s k])"
  note inv = construct_corners_inv[of s k, unfolded construct_inv_def]
  from inv have m: "map ((!) ?cp) ?dom = ?poss" and d: "distinct ?cp" and st: "set ?cp = set ?poss"
    and r: "\<forall>i\<in>set ?dom. i < length ?cp"
    by simp_all
  from m have len: "length ?dom = particleNumOfObject s k * ?cn"
    by (metis length_map length_concat_blocks)
  from g have g': "g < length ?cp" by (simp add: vertNum_def constructed_mesh_fields)
  then have "?cp ! g \<in> set (map ((!) ?cp) ?dom)" using st m by (metis nth_mem)
  then obtain i where i: "i < length ?dom" and e: "?cp ! (?dom ! i) = ?cp ! g"
    by (auto simp: in_set_conv_nth)
  from i r have "?dom ! i < length ?cp" by simp
  with e d g' have gi: "?dom ! i = g" by (simp add: nth_eq_iff_index_eq)
  have cn: "0 < ?cn" by (simp add: corner_num_def)
  have pi: "i div ?cn < particleNumOfObject s k"
    using i len cn by (simp add: less_mult_imp_div_less)
  have ci: "i mod ?cn < ?cn" using cn by simp
  have "eleVertIndex (constructed_mesh s k) (i div ?cn) (i mod ?cn) = g"
    by (simp add: eleVertIndex_def constructed_mesh_fields gi)
  with ci have "touches (constructed_mesh s k) (i div ?cn) g"
    unfolding touches_def eleVertNum_def constructed_mesh_fields by blast
  with pi show ?thesis by blast
qed


lemma length_resize: "length (resize n d xs) = n"
  by (simp add: resize_def)

lemma construct_object_eq:
  "construct_object k s =
     s\<lparr>particle_domain_mesh := (particle_domain_mesh s)[k := constructed_mesh s k],
       is_enriched_domain_corner :=
         (is_enriched_domain_corner s)[k := resize (vertNum (constructed_mesh s k)) False
                                               (is_enriched_domain_corner s ! k)],
       domain_corner_mass :=
         (domain_corner_mass s)[k := resize (vertNum (constructed_mesh s k)) 0 (domain_corner_mass s ! k)],
       domain_corner_velocity :=
         (domain_corner_velocity s)[k := resize (vertNum (constructed_mesh s k)) 0
                                            (domain_corner_velocity s ! k)],
       domain_corner_velocity_before :=
         (domain_corner_velocity_before s)[k := resize (vertNum (constructed_mesh s k)) 0
                                                   (domain_corner_velocity_before s ! k)]\<rparr>"
  by (simp add: construct_object_def Let_def vertNum_def constructed_mesh_fields)
     (simp add: constructed_mesh_def)

lemma fold_construct_object_frame:
  "base (fold construct_object ks s) = base s"
  "particle_corner_weight (fold construct_object ks s) = particle_corner_weight s"
  "particle_corner_gradient (fold construct_object ks s) = particle_corner_gradient s"
  "length (particle_domain_mesh (fold construct_object ks s)) = length (particle_domain_mesh s)"
  "length (is_enriched_domain_corner (fold construct_object ks s)) = length (is_enriched_domain_corner s)"
  "length (domain_corner_mass (fold construct_object ks s)) = length (domain_corner_mass s)"
  "length (domain_corner_velocity (fold construct_object ks s)) = length (domain_corner_velocity s)"
  "length (domain_corner_velocity_before (fold construct_object ks s))
     = length (domain_corner_velocity_before s)"
  by (induction ks arbitrary: s; simp add: construct_object_eq)+

lemma constructed_mesh_construct_object:
  "constructed_mesh (construct_object x s) k = constructed_mesh s k"
  by (rule constructed_mesh_base) (simp add: construct_object_eq)

lemma construct_object_lengths:
  "length (particle_domain_mesh (construct_object x s)) = length (particle_domain_mesh s)"
  "length (is_enriched_domain_corner (construct_object x s)) = length (is_enriched_domain_corner s)"
  "length (domain_corner_mass (construct_object x s)) = length (domain_corner_mass s)"
  "length (domain_corner_velocity (construct_object x s)) = length (domain_corner_velocity s)"
  "length (domain_corner_velocity_before (construct_object x s)) = length (domain_corner_velocity_before s)"
  by (simp_all add: construct_object_eq)

lemma construct_object_nth:
  "particle_domain_mesh (construct_object x s) ! k
     = (if k = x \<and> k < length (particle_domain_mesh s) then constructed_mesh s k
        else particle_domain_mesh s ! k)"
  "length (is_enriched_domain_corner (construct_object x s) ! k)
     = (if k = x \<and> k < length (is_enriched_domain_corner s) then vertNum (constructed_mesh s k)
        else length (is_enriched_domain_corner s ! k))"
  "length (domain_corner_mass (construct_object x s) ! k)
     = (if k = x \<and> k < length (domain_corner_mass s) then vertNum (constructed_mesh s k)
        else length (domain_corner_mass s ! k))"
  "length (domain_corner_velocity (construct_object x s) ! k)
     = (if k = x \<and> k < length (domain_corner_velocity s) then vertNum (constructed_mesh s k)
        else length (domain_corner_velocity s ! k))"
  "length (domain_corner_velocity_before (construct_object x s) ! k)
     = (if k = x \<and> k < length (domain_corner_velocity_before s) then vertNum (constructed_mesh s k)
        else length (domain_corner_velocity_before s ! k))"
  by (auto simp: construct_object_eq nth_list_update length_resize list_update_beyond not_less)

lemma fold_construct_object_mesh:
  "particle_domain_mesh (fold construct_object ks s) ! k
     = (if k \<in> set ks \<and> k < length (particle_domain_mesh s) then constructed_mesh s k
        else particle_domain_mesh s ! k)"
  by (induction ks arbitrary: s)
     (auto simp: construct_object_nth construct_object_lengths constructed_mesh_construct_object)

lemma fold_construct_object_flags:
  "length (is_enriched_domain_corner (fold construct_object ks s) ! k)
     = (if k \<in> set ks \<and> k < length (is_enriched_domain_corner s) then vertNum (constructed_mesh s k)
        else length (is_enriched_domain_corner s ! k))"
  by (induction ks arbitrary: s)
     (auto simp: construct_object_nth construct_object_lengths constructed_mesh_construct_object)

lemma fold_construct_object_mass:
  "length (domain_corner_mass (fold construct_object ks s) ! k)
     = (if k \<in> set ks \<and> k < length (domain_corner_mass s) then vertNum (constructed_mesh s k)
        else length (domain_corner_mass s ! k))"
  by (induction ks arbitrary: s)
     (auto simp: construct_object_nth construct_object_lengths constructed_mesh_construct_object)

lemma fold_construct_object_velocity:
  "length (domain_corner_velocity (fold construct_object ks s) ! k)
     = (if k \<in> set ks \<and> k < length (domain_corner_velocity s) then vertNum (constructed_mesh s k)
        else length (domain_corner_velocity s ! k))"
  by (induction ks arbitrary: s)
     (auto simp: construct_object_nth construct_object_lengths constructed_mesh_construct_object)

lemma fold_construct_object_velocity_before:
  "length (domain_corner_velocity_before (fold construct_object ks s) ! k)
     = (if k \<in> set ks \<and> k < length (domain_corner_velocity_before s) then vertNum (constructed_mesh s k)
        else length (domain_corner_velocity_before s ! k))"
  by (induction ks arbitrary: s)
     (auto simp: construct_object_nth construct_object_lengths constructed_mesh_construct_object)

lemma constructParticleDomainMesh_result:
  assumes s': "s' = constructParticleDomainMesh s"
  shows "base s' = base s"
    and "particle_corner_weight s' = particle_corner_weight s"
    and "particle_corner_gradient s' = particle_corner_gradient s"
    and "length (particle_domain_mesh s') = objectNum s"
    and "length (is_enriched_domain_corner s') = objectNum s"
    and "length (domain_corner_mass s') = objectNum s"
    and "length (domain_corner_velocity s') = objectNum s"
    and "length (domain_corner_velocity_before s') = objectNum s"
    and "k < objectNum s \<Longrightarrow> particle_domain_mesh s' ! k = constructed_mesh s k"
    and "k < objectNum s \<Longrightarrow> length (is_enriched_domain_corner s' ! k) = vertNum (constructed_mesh s k)"
    and "k < objectNum s \<Longrightarrow> length (domain_corner_mass s' ! k) = vertNum (constructed_mesh s k)"
    and "k < objectNum s \<Longrightarrow> length (domain_corner_velocity s' ! k) = vertNum (constructed_mesh s k)"
    and "k < objectNum s \<Longrightarrow> length (domain_corner_velocity_before s' ! k) = vertNum (constructed_mesh s k)"
proof -
  let ?s0 = "s\<lparr>particle_domain_mesh := resize (objectNum s) null_mesh (particle_domain_mesh s),
              is_enriched_domain_corner := resize (objectNum s) [] (is_enriched_domain_corner s),
              domain_corner_mass := resize (objectNum s) [] (domain_corner_mass s),
              domain_corner_velocity := resize (objectNum s) [] (domain_corner_velocity s),
              domain_corner_velocity_before := resize (objectNum s) [] (domain_corner_velocity_before s)\<rparr>"
  have e: "s' = fold construct_object [0..<objectNum s] ?s0"
    by (simp add: s' constructParticleDomainMesh_def Let_def)
  have b: "base ?s0 = base s" by simp
  show "base s' = base s" "particle_corner_weight s' = particle_corner_weight s"
    "particle_corner_gradient s' = particle_corner_gradient s"
    "length (particle_domain_mesh s') = objectNum s"
    "length (is_enriched_domain_corner s') = objectNum s"
    "length (domain_corner_mass s') = objectNum s"
    "length (domain_corner_velocity s') = objectNum s"
    "length (domain_corner_velocity_before s') = objectNum s"
    unfolding e by (simp_all add: fold_construct_object_frame length_resize)
  assume k: "k < objectNum s"
  show "particle_domain_mesh s' ! k = constructed_mesh s k"
    unfolding e using k
    by (simp add: fold_construct_object_mesh length_resize constructed_mesh_base[OF b])
  show "length (is_enriched_domain_corner s' ! k) = vertNum (constructed_mesh s k)"
    unfolding e using k
    by (simp add: fold_construct_object_flags length_resize constructed_mesh_base[OF b])
  show "length (domain_corner_mass s' ! k) = vertNum (constructed_mesh s k)"
    unfolding e using k
    by (simp add: fold_construct_object_mass length_resize constructed_mesh_base[OF b])
  show "length (domain_corner_velocity s' ! k) = vertNum (constructed_mesh s k)"
    unfolding e using k
    by (simp add: fold_construct_object_velocity length_resize constructed_mesh_base[OF b])
  show "length (domain_corner_velocity_before s' ! k) = vertNum (constructed_mesh s k)"
    unfolding e using k
    by (simp add: fold_construct_object_velocity_before length_resize constructed_mesh_base[OF b])
qed

lemma length_erase: "i < length xs \<Longrightarrow> length (erase i xs) = length xs - 1"
  by (simp add: erase_def)

lemma nth_erase: "i < length xs \<Longrightarrow> erase i xs ! j = (if j < i then xs ! j else xs ! Suc j)"
  by (auto simp: erase_def nth_append min_def)

lemma domain_mesh_built_construct:
  assumes k: "k < objectNum s"
  shows "domain_mesh_built (constructParticleDomainMesh s) k"
proof -
  let ?s' = "constructParticleDomainMesh s"
  note r = constructParticleDomainMesh_result[OF refl, where s = s]
  have on: "objectNum ?s' = objectNum s" "particleNumOfObject ?s' k = particleNumOfObject s k"
    by (simp_all add: objectNum_def particleNumOfObject_def r(1))
  have m: "particle_domain_mesh ?s' ! k = constructed_mesh s k" by (rule r(9)[OF k])
  have 1: "corner_arrays_ok ?s' k"
    using k by (simp add: corner_arrays_ok_def r m)
  have 2: "domain_mesh_ok ?s' k"
    unfolding domain_mesh_ok_def m on r(1)
    using k constructed_mesh_corner(1)[where s = s and k = k] constructed_mesh_cover[where s = s and k = k]
    by (simp add: r eleVertNum_def constructed_mesh_fields)
  have 3: "ele_num (particle_domain_mesh ?s' ! k) = particleNumOfObject ?s' k"
    by (simp add: m on constructed_mesh_fields)
  have 4: "\<forall>p<particleNumOfObject ?s' k. \<forall>c<corner_num (Dim (base ?s')).
            vertPos (particle_domain_mesh ?s' ! k) (eleVertIndex (particle_domain_mesh ?s' ! k) p c)
            = particle_domain_corners (base ?s') ! k ! p ! c"
    unfolding m on r(1) using constructed_mesh_corner(2)[where s = s and k = k] by simp
  from 1 2 3 4 show ?thesis unfolding domain_mesh_built_def by blast
qed

lemma appendAll_lockstep:
  assumes al: "corner_storage_aligned s"
    and eff: "particles (appendAll (base s)) = particles (base s) @ [ps]"
  shows "corner_storage_aligned (appendAllParticleRelatedDataOfLastObject appendAll s)"
    and "particle_corner_weight (appendAllParticleRelatedDataOfLastObject appendAll s)
           = particle_corner_weight s @ [replicate (length ps) (replicate (corner_num (Dim (appendAll (base s)))) 0)]"
    and "particle_corner_gradient (appendAllParticleRelatedDataOfLastObject appendAll s)
           = particle_corner_gradient s @ [replicate (length ps) (replicate (corner_num (Dim (appendAll (base s)))) 0)]"
    and "corner_mesh_unchanged s (appendAllParticleRelatedDataOfLastObject appendAll s)"
proof -
  let ?s' = "appendAllParticleRelatedDataOfLastObject appendAll s"
  show w: "particle_corner_weight ?s'
           = particle_corner_weight s @ [replicate (length ps) (replicate (corner_num (Dim (appendAll (base s)))) 0)]"
    and g: "particle_corner_gradient ?s'
           = particle_corner_gradient s @ [replicate (length ps) (replicate (corner_num (Dim (appendAll (base s)))) 0)]"
    by (simp_all add: appendAllParticleRelatedDataOfLastObject_def Let_def objectNum_def
          particleNumOfObject_def eff nth_append)
  show "corner_mesh_unchanged s ?s'"
    by (simp add: corner_mesh_unchanged_def appendAllParticleRelatedDataOfLastObject_def Let_def)
  have b: "particles (base ?s') = particles (base s) @ [ps]"
    by (simp add: appendAllParticleRelatedDataOfLastObject_def Let_def eff)
  show "corner_storage_aligned ?s'"
    using al unfolding corner_storage_aligned_def objectNum_def particleNumOfObject_def w g b
    by (auto simp: nth_append less_Suc_eq)
qed

lemma appendLast_lockstep:
  assumes al: "corner_storage_aligned s" and k: "k < objectNum s"
    and eff: "particles (appendLast k (base s)) = (particles (base s))[k := particles (base s) ! k @ [x]]"
  shows "corner_storage_aligned (appendLastParticleRelatedDataOfObject appendLast k s)"
    and "particle_corner_weight (appendLastParticleRelatedDataOfObject appendLast k s)
           = (particle_corner_weight s)[k := particle_corner_weight s ! k
                @ [replicate (corner_num (Dim (appendLast k (base s)))) 0]]"
    and "particle_corner_gradient (appendLastParticleRelatedDataOfObject appendLast k s)
           = (particle_corner_gradient s)[k := particle_corner_gradient s ! k
                @ [replicate (corner_num (Dim (appendLast k (base s)))) 0]]"
    and "corner_mesh_unchanged s (appendLastParticleRelatedDataOfObject appendLast k s)"
proof -
  let ?s' = "appendLastParticleRelatedDataOfObject appendLast k s"
  show w: "particle_corner_weight ?s'
           = (particle_corner_weight s)[k := particle_corner_weight s ! k
                @ [replicate (corner_num (Dim (appendLast k (base s)))) 0]]"
    and g: "particle_corner_gradient ?s'
           = (particle_corner_gradient s)[k := particle_corner_gradient s ! k
                @ [replicate (corner_num (Dim (appendLast k (base s)))) 0]]"
    by (simp_all add: appendLastParticleRelatedDataOfObject_def Let_def)
  show "corner_mesh_unchanged s ?s'"
    by (simp add: corner_mesh_unchanged_def appendLastParticleRelatedDataOfObject_def Let_def)
  have b: "particles (base ?s') = (particles (base s))[k := particles (base s) ! k @ [x]]"
    by (simp add: appendLastParticleRelatedDataOfObject_def Let_def eff)
  show "corner_storage_aligned ?s'"
    using al k unfolding corner_storage_aligned_def objectNum_def particleNumOfObject_def w g b
    by (auto simp: nth_list_update)
qed

lemma deleteAll_lockstep:
  assumes al: "corner_storage_aligned s" and k: "k < objectNum s"
    and eff: "particles (deleteAll k (base s)) = erase k (particles (base s))"
  shows "corner_storage_aligned (deleteAllParticleRelatedDataOfObject deleteAll k s)"
    and "particle_corner_weight (deleteAllParticleRelatedDataOfObject deleteAll k s)
           = erase k (particle_corner_weight s)"
    and "particle_corner_gradient (deleteAllParticleRelatedDataOfObject deleteAll k s)
           = erase k (particle_corner_gradient s)"
    and "corner_mesh_unchanged s (deleteAllParticleRelatedDataOfObject deleteAll k s)"
proof -
  let ?s' = "deleteAllParticleRelatedDataOfObject deleteAll k s"
  show w: "particle_corner_weight ?s' = erase k (particle_corner_weight s)"
    and g: "particle_corner_gradient ?s' = erase k (particle_corner_gradient s)"
    by (simp_all add: deleteAllParticleRelatedDataOfObject_def Let_def)
  show "corner_mesh_unchanged s ?s'"
    by (simp add: corner_mesh_unchanged_def deleteAllParticleRelatedDataOfObject_def Let_def)
  have b: "particles (base ?s') = erase k (particles (base s))"
    by (simp add: deleteAllParticleRelatedDataOfObject_def Let_def eff)
  show "corner_storage_aligned ?s'"
    using al k unfolding corner_storage_aligned_def objectNum_def particleNumOfObject_def w g b
    by (auto simp: length_erase nth_erase)
qed

lemma deleteOne_lockstep:
  assumes al: "corner_storage_aligned s" and k: "k < objectNum s" and p: "p < particleNumOfObject s k"
    and eff: "particles (deleteOne k p (base s)) = (particles (base s))[k := erase p (particles (base s) ! k)]"
  shows "corner_storage_aligned (deleteOneParticleRelatedDataOfObject deleteOne k p s)"
    and "particle_corner_weight (deleteOneParticleRelatedDataOfObject deleteOne k p s)
           = (particle_corner_weight s)[k := erase p (particle_corner_weight s ! k)]"
    and "particle_corner_gradient (deleteOneParticleRelatedDataOfObject deleteOne k p s)
           = (particle_corner_gradient s)[k := erase p (particle_corner_gradient s ! k)]"
    and "corner_mesh_unchanged s (deleteOneParticleRelatedDataOfObject deleteOne k p s)"
proof -
  let ?s' = "deleteOneParticleRelatedDataOfObject deleteOne k p s"
  show w: "particle_corner_weight ?s' = (particle_corner_weight s)[k := erase p (particle_corner_weight s ! k)]"
    and g: "particle_corner_gradient ?s'
              = (particle_corner_gradient s)[k := erase p (particle_corner_gradient s ! k)]"
    by (simp_all add: deleteOneParticleRelatedDataOfObject_def Let_def)
  show "corner_mesh_unchanged s ?s'"
    by (simp add: corner_mesh_unchanged_def deleteOneParticleRelatedDataOfObject_def Let_def)
  have b: "particles (base ?s') = (particles (base s))[k := erase p (particles (base s) ! k)]"
    by (simp add: deleteOneParticleRelatedDataOfObject_def Let_def eff)
  show "corner_storage_aligned ?s'"
    using al k p unfolding corner_storage_aligned_def objectNum_def particleNumOfObject_def w g b
    by (auto simp: nth_list_update length_erase)
qed

subsection \<open>The position update\<close>





lemma setVertPos_nth:
  "k < length ms \<Longrightarrow> g < length (vert_pos (ms ! k)) \<Longrightarrow>
   vert_pos (ms[k := setVertPos (ms ! k) g v] ! k') ! j
     = (if k' = k \<and> j = g then v else vert_pos (ms ! k') ! j)"
  by (cases "k' = k") (simp_all add: setVertPos_def nth_list_update)






















section \<open>Claims\<close>

text \<open>
  C4. In \<^verbatim>\<open>rasterize\<close>, \<^verbatim>\<open>resetParticleDomainData\<close> runs before
  \<^verbatim>\<open>updateParticleDomainEnrichState\<close>. For an object of the solver whose flag vector
  has one entry per mesh vertex, and a vertex \<open>g\<close> of its mesh: after the reset the flag
  of \<open>g\<close> is ordinary, and after the classification that follows, \<open>g\<close> is enriched if and
  only if some particle of the object satisfies the enrichment criterion and has \<open>g\<close>
  as a corner of its domain. The flag belongs to the vertex, so it is the same for
  every particle that shares the corner.
\<close>

theorem enrich_iff:
  assumes "obj_idx < objectNum s"
    and "obj_idx < length (is_enriched_domain_corner s)"
    and "g < vertNum (particle_domain_mesh s ! obj_idx)"
    and "length (is_enriched_domain_corner s ! obj_idx) = vertNum (particle_domain_mesh s ! obj_idx)"
  shows "\<not> is_enriched_domain_corner (resetParticleDomainData s) ! obj_idx ! g \<and>
    (is_enriched_domain_corner
       (updateParticleDomainEnrichState_with criteria (resetParticleDomainData s)) ! obj_idx ! g
     \<longleftrightarrow> (\<exists>particle_idx<particleNumOfObject s obj_idx.
            criteria obj_idx particle_idx \<and>
            (\<exists>corner_idx<eleVertNum (particle_domain_mesh s ! obj_idx) particle_idx.
               eleVertIndex (particle_domain_mesh s ! obj_idx) particle_idx corner_idx = g)))"
proof -
  let ?r = "resetParticleDomainData s"
  have r: "\<not> is_enriched_domain_corner ?r ! obj_idx ! g"
    using assms by (simp add: resetParticleDomainData_def fold_reset_object_flag)
  have fr: "base ?r = base s" "particle_domain_mesh ?r = particle_domain_mesh s"
    "length (is_enriched_domain_corner ?r) = length (is_enriched_domain_corner s)"
    "length (is_enriched_domain_corner ?r ! obj_idx) = length (is_enriched_domain_corner s ! obj_idx)"
    by (simp_all add: resetParticleDomainData_def fold_reset_object_frame fold_reset_object_length)
  have on: "objectNum ?r = objectNum s" "particleNumOfObject ?r obj_idx = particleNumOfObject s obj_idx"
    by (simp_all add: objectNum_def particleNumOfObject_def fr)
  show ?thesis
    using assms r
    by (simp add: updateParticleDomainEnrichState_with_def fold_enrich_object_flag fr on touches_def)
qed

theorem enrich_iff_witness:
  "0 < objectNum two_squares \<and> 0 < length (is_enriched_domain_corner two_squares)
   \<and> 1 < vertNum (particle_domain_mesh two_squares ! 0)
   \<and> length (is_enriched_domain_corner two_squares ! 0) = vertNum (particle_domain_mesh two_squares ! 0)
   \<and> \<not> is_enriched_domain_corner (resetParticleDomainData two_squares) ! 0 ! 1
   \<and> is_enriched_domain_corner
        (updateParticleDomainEnrichState_with (\<lambda>obj_idx particle_idx. particle_idx = 0)
           (resetParticleDomainData two_squares)) ! 0 ! 1"
proof -
  have h1: "0 < objectNum two_squares" by code_simp
  have h2: "0 < length (is_enriched_domain_corner two_squares)" by code_simp
  have h3: "1 < vertNum (particle_domain_mesh two_squares ! 0)" by code_simp
  have h4: "length (is_enriched_domain_corner two_squares ! 0) = vertNum (particle_domain_mesh two_squares ! 0)"
    by code_simp
  have p: "0 < particleNumOfObject two_squares 0" by code_simp
  have c: "1 < eleVertNum (particle_domain_mesh two_squares ! 0) 0" by code_simp
  have e: "eleVertIndex (particle_domain_mesh two_squares ! 0) 0 1 = 1" by code_simp
  from enrich_iff [OF h1 h2 h3 h4, of "\<lambda>obj_idx particle_idx. particle_idx = 0"] p c e h1 h2 h3 h4
  show ?thesis by blast
qed






text \<open>
  C5. The claim asks for the corner weight of the particle being updated,
  \<^verbatim>\<open>particle_corner_weight_[obj_idx][particle_idx][corner_idx]\<close>, as \<^verbatim>\<open>rasterize\<close> reads
  it; line 364 reads \<^verbatim>\<open>particle_corner_weight_[obj_idx][obj_idx][corner_idx]\<close>. In
  object 0, particle 1 (velocity \<open>(0,1)\<close>, weight 1/2 at its corner 0, whose velocity
  rose by \<open>(8,0)\<close>) is updated with the weight 1/4 of particle 0 and ends with velocity
  \<open>(2,1)\<close>; with its own weight it would end with \<open>(4,1)\<close>.
\<close>

theorem velocity_update_reads_weight_of_object_index:
  "\<not> isl (updateParticleVelocity two_squares_solved)
   \<and> map velocity (particles (base two_squares_solved) ! 0) = [Vec2 1 0, Vec2 0 1]
   \<and> particle_corner_weight two_squares_solved ! 0 ! 0 ! 0 = 1/4
   \<and> particle_corner_weight two_squares_solved ! 0 ! 1 ! 0 = 1/2
   \<and> map velocity (particles (base (projr (updateParticleVelocity two_squares_solved))) ! 0)
       = [Vec2 3 0, Vec2 2 1]"
  by code_simp

text \<open>
  C7, as amended. Let \<open>t\<close> be the state the scatter loop of \<^verbatim>\<open>rasterize\<close> starts from
  (grid and corner data reset, corners classified). For a vertex \<open>g\<close> of the mesh of
  an object whose per-corner vectors have one entry per vertex, when \<^verbatim>\<open>rasterize\<close>
  returns: the mass of the corner is the mass scattered to it; if that mass exceeds
  epsilon, the velocity and the before-update velocity of the corner are the scattered
  momentum divided by the mass; if not, nothing is divided, the before-update velocity
  is zero, and the velocity is the scattered momentum itself (zero only if no
  momentum was scattered to the corner).
\<close>

theorem corner_velocity_after_rasterize:
  assumes "rasterize_with criteria resetGridData s = Inr s'"
    and "t = rasterize_classified criteria resetGridData s"
    and "obj_idx < objectNum t" and "corner_arrays_ok t obj_idx"
    and "g < vertNum (particle_domain_mesh t ! obj_idx)"
  shows "domain_corner_mass s' ! obj_idx ! g = corner_mass_scattered t obj_idx g
    \<and> domain_corner_velocity s' ! obj_idx ! g =
        (if corner_mass_scattered t obj_idx g > epsilon
         then corner_momentum_scattered t obj_idx g /\<^sub>R corner_mass_scattered t obj_idx g
         else corner_momentum_scattered t obj_idx g)
    \<and> domain_corner_velocity_before s' ! obj_idx ! g =
        (if corner_mass_scattered t obj_idx g > epsilon
         then corner_momentum_scattered t obj_idx g /\<^sub>R corner_mass_scattered t obj_idx g
         else 0)"
proof -
  from rasterize_with_Inr[OF assms(1)] obtain s3 b where
    s3: "rasterize_objects t = Inr s3" and s': "s' = s3\<lparr>base := b\<rparr>"
    by (auto simp: assms(2))
  note z = classified_zero[OF assms(2,3,4,5)]
  note inv = objects_inv_rasterize_objects[OF s3, unfolded objects_inv_def, THEN conjunct2, THEN conjunct2,
      THEN conjunct2, rule_format, OF z(1)]
  show ?thesis
    using inv assms(3) by (simp add: s' z)
qed

theorem corner_velocity_after_rasterize_witness:
  "\<not> isl (rasterize_with (\<lambda>obj_idx particle_idx. particle_idx = 0) (\<lambda>b. b) two_squares)
   \<and> 0 < objectNum (rasterize_classified (\<lambda>obj_idx particle_idx. particle_idx = 0) (\<lambda>b. b) two_squares)
   \<and> corner_arrays_ok (rasterize_classified (\<lambda>obj_idx particle_idx. particle_idx = 0) (\<lambda>b. b) two_squares) 0
   \<and> 1 < vertNum (particle_domain_mesh
         (rasterize_classified (\<lambda>obj_idx particle_idx. particle_idx = 0) (\<lambda>b. b) two_squares) ! 0)
   \<and> domain_corner_mass
        (projr (rasterize_with (\<lambda>obj_idx particle_idx. particle_idx = 0) (\<lambda>b. b) two_squares)) ! 0 ! 1 = 5 / 2
   \<and> domain_corner_velocity
        (projr (rasterize_with (\<lambda>obj_idx particle_idx. particle_idx = 0) (\<lambda>b. b) two_squares)) ! 0 ! 1
        = Vec2 (1 / 5) (4 / 5)
   \<and> domain_corner_velocity_before
        (projr (rasterize_with (\<lambda>obj_idx particle_idx. particle_idx = 0) (\<lambda>b. b) two_squares)) ! 0 ! 1
        = Vec2 (1 / 5) (4 / 5)"
proof -
  let ?crit = "\<lambda>obj_idx particle_idx :: nat. particle_idx = 0"
  let ?t = "rasterize_classified ?crit (\<lambda>b. b) two_squares"
  let ?r = "rasterize_with ?crit (\<lambda>b. b) two_squares"
  have h1: "\<not> isl ?r" by code_simp
  have h2: "0 < objectNum ?t" by code_simp
  have h3: "corner_arrays_ok ?t 0" by code_simp
  have h4: "1 < vertNum (particle_domain_mesh ?t ! 0)" by code_simp
  have m: "corner_mass_scattered ?t 0 1 = 5 / 2" by code_simp
  have p: "corner_momentum_scattered ?t 0 1 = Vec2 (1 / 2) 2" by code_simp
  have e: "epsilon < 5 / 2" by code_simp
  have q: "Vec2 (1 / 2) 2 /\<^sub>R (5 / 2) = Vec2 (1 / 5) (4 / 5)" by simp
  note th = corner_velocity_after_rasterize [OF sum_Inr_projr [OF h1] refl h2 h3 h4]
  from th [unfolded m p if_P [OF e] q] h1 h2 h3 h4
  show ?thesis by blast
qed

text \<open>A corner whose mass stays at or below epsilon keeps its momentum as velocity: with
  the criterion of the source, the corner 0 of the light square has mass \<open>2\<^sup>-\<^sup>6\<^sup>2\<close> and
  ends with velocity \<open>(2\<^sup>-\<^sup>6\<^sup>2, 0)\<close>, not zero.\<close>

theorem corner_velocity_not_zero_counterexample:
  "\<not> isl (rasterize (\<lambda>b. b) light_square)
   \<and> domain_corner_mass (projr (rasterize (\<lambda>b. b) light_square)) ! 0 ! 0 \<le> epsilon
   \<and> domain_corner_velocity (projr (rasterize (\<lambda>b. b) light_square)) ! 0 ! 0 = Vec2 (1 / 2 ^ 62) 0
   \<and> domain_corner_velocity (projr (rasterize (\<lambda>b. b) light_square)) ! 0 ! 0 \<noteq> 0"
  by code_simp

text \<open>C6, as amended. Let \<open>rasterize\<close> return, with any criterion in place of
  \<open>isEnrichCriteriaSatisfied\<close>, on a grid that \<open>resetGridData\<close> left empty for the object,
  with the grid pairs of its particles at nodes of the grid and the corners of their
  domains at vertices of the mesh. Let the weights that lines 112-153 use for every
  particle sum to 1: its grid weights if it has an ordinary corner, plus its corner
  weights at its enriched corners. If a contact method is set, or no grid node is active
  for two objects (so that lines 189-231 merge nothing), then the mass of the object on
  the grid nodes plus the mass on its domain corners is the sum of the masses of its
  particles, whatever the criterion enriched.\<close>

theorem rasterized_mass_is_particle_mass:
  assumes run: "rasterize_with criteria resetGridData s = Inr s'"
    and t: "t = rasterize_classified criteria resetGridData s"
    and k: "obj_idx < objectNum t" and ok: "corner_arrays_ok t obj_idx"
    and empty: "\<forall>node. gridMass (base t) obj_idx node = 0"
    and nodes: "\<forall>p<particleNumOfObject t obj_idx.
        \<forall>pair\<in>set (take (particle_grid_pair_num (base t) ! obj_idx ! p)
                          (particle_grid_weight_and_gradient (base t) ! obj_idx ! p)).
          node_idx pair < grid_node_num (base t)"
    and corners: "\<forall>p<particleNumOfObject t obj_idx. \<forall>c<corner_num (Dim (base t)).
          eleVertIndex (particle_domain_mesh t ! obj_idx) p c < vertNum (particle_domain_mesh t ! obj_idx)"
    and unity: "\<forall>p<particleNumOfObject t obj_idx. particle_weight_sum t obj_idx p = 1"
    and no_merge: "contact_method (base t) \<noteq> None
             \<or> (\<forall>node. multimap_count node (active_grid_node (base s')) \<le> 1)"
  shows "(\<Sum>node\<leftarrow>[0..<grid_node_num (base t)]. gridMass (base s') obj_idx node)
           + sum_list (domain_corner_mass s' ! obj_idx)
         = (\<Sum>p\<leftarrow>[0..<particleNumOfObject t obj_idx]. mass (particles (base t) ! obj_idx ! p))"
proof -
  define P where "P = particleNumOfObject t obj_idx"
  define N where "N = grid_node_num (base t)"
  define V where "V = vertNum (particle_domain_mesh t ! obj_idx)"
  define cn where "cn = corner_num (Dim (base t))"
  define m where "m = (\<lambda>p. mass (particles (base t) ! obj_idx ! p))"
  define pairs where "pairs = (\<lambda>p. take (particle_grid_pair_num (base t) ! obj_idx ! p)
                          (particle_grid_weight_and_gradient (base t) ! obj_idx ! p))"
  define idx where "idx = (\<lambda>p c. eleVertIndex (particle_domain_mesh t ! obj_idx) p c)"
  define en where "en = (\<lambda>l. is_enriched_domain_corner t ! obj_idx ! l)"
  define w where "w = (\<lambda>p c. particle_corner_weight t ! obj_idx ! p ! c)"
  define ord where "ord = (\<lambda>p. enriched_corner_num t obj_idx p < cn)"
  have grid: "(\<Sum>n\<leftarrow>[0..<N]. gridMass (base s') obj_idx n)
      = (\<Sum>p\<leftarrow>[0..<P]. if ord p then m p * (\<Sum>pair\<leftarrow>pairs p. weight_value pair) else 0)"
  proof -
    have "(\<Sum>n\<leftarrow>[0..<N]. gridMass (base s') obj_idx n)
        = (\<Sum>n\<leftarrow>[0..<N]. \<Sum>p\<leftarrow>[0..<P]. particle_grid_mass t obj_idx p n)"
      using rasterize_with_grid[OF run t no_merge, of obj_idx] empty k
      by (simp add: grid_mass_scattered_def P_def)
    also have "\<dots> = (\<Sum>p\<leftarrow>[0..<P]. \<Sum>n\<leftarrow>[0..<N]. particle_grid_mass t obj_idx p n)"
      by (rule sum_list_swap_lists)
    also have "\<dots> = (\<Sum>p\<leftarrow>[0..<P]. if ord p then m p * (\<Sum>pair\<leftarrow>pairs p. weight_value pair) else 0)"
    proof (rule sum_list_cong_upt)
      fix p assume p: "p < P"
      show "(\<Sum>n\<leftarrow>[0..<N]. particle_grid_mass t obj_idx p n)
          = (if ord p then m p * (\<Sum>pair\<leftarrow>pairs p. weight_value pair) else 0)"
      proof (cases "ord p")
        case True
        have "\<forall>pair\<in>set (pairs p). node_idx pair < N"
          using nodes p by (simp add: P_def N_def pairs_def)
        from grid_total_of_particle[OF this, of "m p"] True show ?thesis
          by (simp add: particle_grid_mass_def ord_def cn_def pairs_def m_def cong: if_cong)
      next
        case False
        then show ?thesis by (simp add: particle_grid_mass_def ord_def cn_def)
      qed
    qed
    finally show ?thesis .
  qed
  have len: "length (domain_corner_mass s' ! obj_idx) = V"
  proof -
    from rasterize_with_Inr[OF run] obtain s3 b where
      s3: "rasterize_objects t = Inr s3" and s': "s' = s3\<lparr>base := b\<rparr>"
      by (auto simp: t)
    from objects_inv_rasterize_objects[OF s3] have "corner_lengths_eq t s3"
      by (simp add: objects_inv_def)
    then show ?thesis using ok by (simp add: s' corner_lengths_eq_def corner_arrays_ok_def V_def)
  qed
  have corner: "sum_list (domain_corner_mass s' ! obj_idx)
      = (\<Sum>p\<leftarrow>[0..<P]. m p * (\<Sum>c\<leftarrow>[0..<cn]. if en (idx p c) then w p c else 0))"
  proof -
    have "sum_list (domain_corner_mass s' ! obj_idx) = (\<Sum>l\<leftarrow>[0..<V]. domain_corner_mass s' ! obj_idx ! l)"
      using sum_list_nth_upt[of "domain_corner_mass s' ! obj_idx"] by (simp add: len)
    also have "\<dots> = (\<Sum>l\<leftarrow>[0..<V]. corner_mass_scattered t obj_idx l)"
      by (rule sum_list_cong_upt)
         (use corner_velocity_after_rasterize[OF run t k ok] in \<open>simp add: V_def\<close>)
    also have "\<dots> = (\<Sum>l\<leftarrow>[0..<V]. \<Sum>p\<leftarrow>[0..<P]. \<Sum>c\<leftarrow>[0..<cn].
                    if idx p c = l \<and> en l then w p c * m p else 0)"
      by (simp add: corner_mass_scattered_def P_def cn_def idx_def en_def w_def m_def cong: if_cong)
    also have "\<dots> = (\<Sum>p\<leftarrow>[0..<P]. \<Sum>l\<leftarrow>[0..<V]. \<Sum>c\<leftarrow>[0..<cn].
                    if idx p c = l \<and> en l then w p c * m p else 0)"
      by (rule sum_list_swap_lists)
    also have "\<dots> = (\<Sum>p\<leftarrow>[0..<P]. m p * (\<Sum>c\<leftarrow>[0..<cn]. if en (idx p c) then w p c else 0))"
    proof (rule sum_list_cong_upt)
      fix p assume p: "p < P"
      have "\<forall>c<cn. idx p c < V"
        using corners p by (simp add: P_def cn_def idx_def V_def)
      from corner_total_of_particle[OF this, of en "w p" "m p"]
      show "(\<Sum>l\<leftarrow>[0..<V]. \<Sum>c\<leftarrow>[0..<cn]. if idx p c = l \<and> en l then w p c * m p else 0)
          = m p * (\<Sum>c\<leftarrow>[0..<cn]. if en (idx p c) then w p c else 0)" .
    qed
    finally show ?thesis .
  qed
  have "(\<Sum>n\<leftarrow>[0..<N]. gridMass (base s') obj_idx n) + sum_list (domain_corner_mass s' ! obj_idx)
      = (\<Sum>p\<leftarrow>[0..<P]. (if ord p then m p * (\<Sum>pair\<leftarrow>pairs p. weight_value pair) else 0)
             + m p * (\<Sum>c\<leftarrow>[0..<cn]. if en (idx p c) then w p c else 0))"
    by (simp add: grid corner sum_list_addf)
  also have "\<dots> = (\<Sum>p\<leftarrow>[0..<P]. m p)"
  proof (rule sum_list_cong_upt)
    fix p assume p: "p < P"
    from unity p have "particle_weight_sum t obj_idx p = 1" by (simp add: P_def)
    then have "(if ord p then (\<Sum>pair\<leftarrow>pairs p. weight_value pair) else 0)
        + (\<Sum>c\<leftarrow>[0..<cn]. if en (idx p c) then w p c else 0) = 1"
      by (simp add: particle_weight_sum_def ord_def cn_def pairs_def en_def idx_def w_def cong: if_cong)
    then have "m p * ((if ord p then (\<Sum>pair\<leftarrow>pairs p. weight_value pair) else 0)
        + (\<Sum>c\<leftarrow>[0..<cn]. if en (idx p c) then w p c else 0)) = m p"
      by simp
    then show "(if ord p then m p * (\<Sum>pair\<leftarrow>pairs p. weight_value pair) else 0)
             + m p * (\<Sum>c\<leftarrow>[0..<cn]. if en (idx p c) then w p c else 0) = m p"
      by (simp add: algebra_simps split: if_splits)
  qed
  finally show ?thesis by (simp add: N_def P_def m_def)
qed

theorem rasterized_mass_is_particle_mass_witness:
  "\<not> isl (rasterize_with (\<lambda>obj_idx particle_idx. particle_idx = 0) (\<lambda>b. b) two_squares_unity)
   \<and> particle_weight_sum
        (rasterize_classified (\<lambda>obj_idx particle_idx. particle_idx = 0) (\<lambda>b. b) two_squares_unity) 0 0 = 1
   \<and> particle_weight_sum
        (rasterize_classified (\<lambda>obj_idx particle_idx. particle_idx = 0) (\<lambda>b. b) two_squares_unity) 0 1 = 1
   \<and> (\<Sum>node\<leftarrow>[0..<3]. gridMass (base (projr
          (rasterize_with (\<lambda>obj_idx particle_idx. particle_idx = 0) (\<lambda>b. b) two_squares_unity))) 0 node)
       + sum_list (domain_corner_mass (projr
          (rasterize_with (\<lambda>obj_idx particle_idx. particle_idx = 0) (\<lambda>b. b) two_squares_unity)) ! 0)
       = 6"
proof -
  let ?crit = "\<lambda>obj_idx particle_idx :: nat. particle_idx = 0"
  let ?t = "rasterize_classified ?crit (\<lambda>b. b) two_squares_unity"
  let ?r = "rasterize_with ?crit (\<lambda>b. b) two_squares_unity"
  have h1: "\<not> isl ?r" by code_simp
  have h2: "0 < objectNum ?t" by code_simp
  have h3: "corner_arrays_ok ?t 0" by code_simp
  have b: "base ?t = base two_squares_unity"
    using classified_frame [OF refl, of ?crit "\<lambda>b. b" two_squares_unity] by simp
  have h4: "\<forall>node. gridMass (base ?t) 0 node = 0"
  proof -
    have "grid_mass (base two_squares_unity) = (\<lambda>node. Map.empty)"
      by (simp add: two_squares_unity_def two_squares_def empty_base_def)
    then show ?thesis by (simp only: b gridMass_def) simp
  qed
  have h5: "\<forall>p<particleNumOfObject ?t 0.
        \<forall>pair\<in>set (take (particle_grid_pair_num (base ?t) ! 0 ! p)
                          (particle_grid_weight_and_gradient (base ?t) ! 0 ! p)).
          node_idx pair < grid_node_num (base ?t)"
    by code_simp
  have h6: "\<forall>p<particleNumOfObject ?t 0. \<forall>c<corner_num (Dim (base ?t)).
          eleVertIndex (particle_domain_mesh ?t ! 0) p c < vertNum (particle_domain_mesh ?t ! 0)"
    by code_simp
  have u0: "particle_weight_sum ?t 0 0 = 1" by code_simp
  have u1: "particle_weight_sum ?t 0 1 = 1" by code_simp
  have pn: "particleNumOfObject ?t 0 = 2" by code_simp
  have h7: "\<forall>p<particleNumOfObject ?t 0. particle_weight_sum ?t 0 p = 1"
    using u0 u1 by (simp add: pn less_Suc_eq numeral_2_eq_2)
  have tab: "active_grid_node (base (projr ?r)) = [(1, 0), (2, 0)]" by code_simp
  have h8: "contact_method (base ?t) \<noteq> None
             \<or> (\<forall>node. multimap_count node (active_grid_node (base (projr ?r))) \<le> 1)"
    by (simp add: tab multimap_count_def multimap_range_def)
  have n: "grid_node_num (base ?t) = 3" by code_simp
  have m: "(\<Sum>p\<leftarrow>[0..<particleNumOfObject ?t 0]. mass (particles (base ?t) ! 0 ! p)) = 6"
    by code_simp
  note th = rasterized_mass_is_particle_mass [OF sum_Inr_projr [OF h1] refl h2 h3 h4 h5 h6 h7 h8]
  from th [unfolded n m] h1 u0 u1 show ?thesis by blast
qed

text \<open>Without a contact method the merge of lines 189-231 writes the summed mass of a
  shared node to every object there: the two objects, all corners ordinary and the weights
  of each particle summing to 1, share node 1, and object 0, whose only particle has mass
  2, ends with the masses 1 and 3 on the grid. With the criterion of the source itself
  every corner is enriched and only corner weights are used: in the second state the grid
  weights of each particle sum to 1, the particle masses are 2 and 4, and the corners end
  with a total mass of 4.\<close>

theorem rasterized_mass_counterexample:
  "\<not> isl (rasterize_with (\<lambda>obj_idx particle_idx. False) (\<lambda>b. b) two_objects)
   \<and> contact_method (base two_objects) = None
   \<and> particle_weight_sum
        (rasterize_classified (\<lambda>obj_idx particle_idx. False) (\<lambda>b. b) two_objects) 0 0 = 1
   \<and> particle_weight_sum
        (rasterize_classified (\<lambda>obj_idx particle_idx. False) (\<lambda>b. b) two_objects) 1 0 = 1
   \<and> map mass (particles (base two_objects) ! 0) = [2]
   \<and> map (gridMass (base (projr
          (rasterize_with (\<lambda>obj_idx particle_idx. False) (\<lambda>b. b) two_objects))) 0) [0..<3] = [1, 3, 0]
   \<and> domain_corner_mass (projr
          (rasterize_with (\<lambda>obj_idx particle_idx. False) (\<lambda>b. b) two_objects)) ! 0 = [0, 0, 0, 0]
   \<and> \<not> isl (rasterize (\<lambda>b. b) two_squares_half)
   \<and> map (\<lambda>p. sum_list (map weight_value (particle_grid_weight_and_gradient (base two_squares_half) ! 0 ! p)))
          [0..<2] = [1, 1]
   \<and> map mass (particles (base two_squares_half) ! 0) = [2, 4]
   \<and> map (gridMass (base (projr (rasterize (\<lambda>b. b) two_squares_half))) 0) [0..<3] = [0, 0, 0]
   \<and> domain_corner_mass (projr (rasterize (\<lambda>b. b) two_squares_half)) ! 0
        = [1 / 2, 1, 1, 1 / 2, 1 / 2, 1 / 2]"
  by code_simp

text \<open>C10, as amended. Let \<open>t\<close> be the state right after \<^verbatim>\<open>updateParticleDomainEnrichState\<close>,
  which asks \<^verbatim>\<open>isEnrichCriteriaSatisfied\<close>, called on a state in which every particle has an
  element of \<open>corner_num\<close> vertices in the mesh of its object and every such vertex a flag.
  Then a domain corner of an object is enriched in \<open>t\<close> if and only if it was enriched
  before the call or is a corner of the element of some particle of the object: every
  corner of every particle's domain is enriched, and a vertex of the mesh that belongs to
  no particle's element keeps its flag. In every state \<open>u\<close> with the flags, mesh
  connectivity, dimension and particle counts of \<open>t\<close>, every particle has
  \<open>enriched_corner_num = corner_num\<close>, so the guard \<open>enriched_corner_num < corner_num\<close> of
  the grid branch is false; and the scatter loop of \<^verbatim>\<open>rasterize\<close>,
  \<^verbatim>\<open>updateParticleConstitutiveModelState\<close>, \<^verbatim>\<open>solveOnGridForwardEuler\<close>,
  \<^verbatim>\<open>updateParticleVelocity\<close>, the step of each of them for one particle, and an
  \<^verbatim>\<open>updateParticlePosition\<close> that keeps the particle counts, lead from such a state to such
  a state. The \<^verbatim>\<open>rasterize\<close> that ran the classification ends in such a state as well.\<close>

theorem built_in_criterion_enriches_every_particle:
  fixes s t :: "('v::real_vector, 'm::real_algebra_1) InvertibleMPMSolid"
  assumes ok: "\<forall>obj_idx<objectNum s. particle_elements_ok s obj_idx"
    and t: "t = updateParticleDomainEnrichState s"
  shows "(\<forall>obj_idx<objectNum t. \<forall>g<length (is_enriched_domain_corner t ! obj_idx).
            is_enriched_domain_corner t ! obj_idx ! g \<longleftrightarrow>
              is_enriched_domain_corner s ! obj_idx ! g
              \<or> (\<exists>particle_idx<particleNumOfObject t obj_idx.
                    touches (particle_domain_mesh t ! obj_idx) particle_idx g))
    \<and> (\<forall>obj_idx<objectNum t. \<forall>particle_idx<particleNumOfObject t obj_idx.
          \<forall>corner_idx<corner_num (Dim (base t)).
            is_enriched_domain_corner t ! obj_idx
              ! eleVertIndex (particle_domain_mesh t ! obj_idx) particle_idx corner_idx)
    \<and> (\<forall>u. same_classification t u \<longrightarrow>
          (\<forall>obj_idx<objectNum u. \<forall>particle_idx<particleNumOfObject u obj_idx.
              enriched_corner_num u obj_idx particle_idx = corner_num (Dim (base u))
              \<and> \<not> enriched_corner_num u obj_idx particle_idx < corner_num (Dim (base u)))
          \<and> (\<forall>u'. (\<exists>k p. rasterize_particle k p u = Inr u')
                    \<or> rasterize_objects u = Inr u'
                    \<or> (\<exists>k p. constitutive_particle outerProduct determinant dt k p u = Inr u')
                    \<or> updateParticleConstitutiveModelState outerProduct determinant dt u = Inr u'
                    \<or> (\<exists>k p. u' = solve_particle mat_vec dt k p u)
                    \<or> u' = solveOnGridForwardEuler mat_vec axis1 dt u
                    \<or> (\<exists>k p. velocity_particle k p u = Inr u')
                    \<or> updateParticleVelocity u = Inr u'
                    \<or> (updateParticlePosition cpdi2_updateParticlePosition dt u = Inr u'
                        \<and> objectNum u' = objectNum u
                        \<and> (\<forall>k. particleNumOfObject u' k = particleNumOfObject u k))
                  \<longrightarrow> same_classification t u'))
    \<and> (\<forall>resetGridData s0 s1.
          s = resetParticleDomainData (s0\<lparr>base := resetGridData (base s0)\<rparr>)
          \<longrightarrow> rasterize resetGridData s0 = Inr s1 \<longrightarrow> same_classification t s1)"
proof (intro conjI allI impI)
  fix obj_idx g
  assume k: "obj_idx < objectNum t" and g: "g < length (is_enriched_domain_corner t ! obj_idx)"
  note fr = classified_frame_enrich[OF t]
  from k have k': "obj_idx < objectNum s" by (simp add: fr)
  with ok have kl: "obj_idx < length (is_enriched_domain_corner s)"
    by (simp add: particle_elements_ok_def)
  from g have g': "g < length (is_enriched_domain_corner s ! obj_idx)" by (simp add: fr)
  from classified_flag[OF k' kl g' t]
  show "is_enriched_domain_corner t ! obj_idx ! g \<longleftrightarrow>
              is_enriched_domain_corner s ! obj_idx ! g
              \<or> (\<exists>particle_idx<particleNumOfObject t obj_idx.
                    touches (particle_domain_mesh t ! obj_idx) particle_idx g)"
    by (simp add: fr)
next
  fix obj_idx particle_idx corner_idx
  assume k: "obj_idx < objectNum t" and p: "particle_idx < particleNumOfObject t obj_idx"
    and c: "corner_idx < corner_num (Dim (base t))"
  note fr = classified_frame_enrich[OF t]
  from k ok have "particle_elements_ok s obj_idx" "obj_idx < objectNum s" by (simp_all add: fr)
  from particles_enriched_after_classification(1)[OF this t] p c
  show "is_enriched_domain_corner t ! obj_idx
              ! eleVertIndex (particle_domain_mesh t ! obj_idx) particle_idx corner_idx"
    by simp
next
  fix u obj_idx particle_idx
  assume u: "same_classification t u" and k: "obj_idx < objectNum u"
    and p: "particle_idx < particleNumOfObject u obj_idx"
  note fr = classified_frame_enrich[OF t]
  from u k p have k': "obj_idx < objectNum t" and p': "particle_idx < particleNumOfObject t obj_idx"
    and D: "Dim (base u) = Dim (base t)"
    by (simp_all add: same_classification_def)
  from k' ok have "particle_elements_ok s obj_idx" "obj_idx < objectNum s" by (simp_all add: fr)
  from particles_enriched_after_classification(2)[OF this t] p'
  have "enriched_corner_num t obj_idx particle_idx = corner_num (Dim (base t))" by simp
  then have e: "enriched_corner_num u obj_idx particle_idx = corner_num (Dim (base u))"
    by (simp add: same_classification_guard[OF u] D)
  then show "enriched_corner_num u obj_idx particle_idx = corner_num (Dim (base u))" .
  from e show "\<not> enriched_corner_num u obj_idx particle_idx < corner_num (Dim (base u))" by simp
next
  fix u u'
  assume u: "same_classification t u"
    and step: "(\<exists>k p. rasterize_particle k p u = Inr u')
                    \<or> rasterize_objects u = Inr u'
                    \<or> (\<exists>k p. constitutive_particle outerProduct determinant dt k p u = Inr u')
                    \<or> updateParticleConstitutiveModelState outerProduct determinant dt u = Inr u'
                    \<or> (\<exists>k p. u' = solve_particle mat_vec dt k p u)
                    \<or> u' = solveOnGridForwardEuler mat_vec axis1 dt u
                    \<or> (\<exists>k p. velocity_particle k p u = Inr u')
                    \<or> updateParticleVelocity u = Inr u'
                    \<or> (updateParticlePosition cpdi2_updateParticlePosition dt u = Inr u'
                        \<and> objectNum u' = objectNum u
                        \<and> (\<forall>k. particleNumOfObject u' k = particleNumOfObject u k))"
  from step have "same_classification u u'"
    by (elim disjE exE conjE)
       (simp_all add: rasterize_particle_same_classification rasterize_objects_same_classification
          constitutive_particle_same_classification constitutive_same_classification
          solve_particle_same_classification solve_same_classification
          velocity_particle_same_classification velocity_same_classification
          updateParticlePosition_same_classification)
  with u show "same_classification t u'" by (rule same_classification_trans)
next
  fix resetGridData s0 s1
  assume s: "s = resetParticleDomainData (s0\<lparr>base := resetGridData (base s0)\<rparr>)"
    and run: "rasterize resetGridData s0 = Inr s1"
  have "isEnrichCriteriaSatisfied s = isEnrichCriteriaSatisfied s0"
    by (simp add: fun_eq_iff isEnrichCriteriaSatisfied_def)
  then have "t = rasterize_classified (isEnrichCriteriaSatisfied s0) resetGridData s0"
    by (simp add: t rasterize_classified_def updateParticleDomainEnrichState_def s [symmetric])
  from rasterize_with_same_classification[OF run[unfolded rasterize_def] this]
  show "same_classification t s1" .
qed

theorem built_in_criterion_enriches_every_particle_witness:
  "objectNum (resetParticleDomainData (two_squares\<lparr>base := base two_squares\<rparr>)) = 1
   \<and> particle_elements_ok (resetParticleDomainData (two_squares\<lparr>base := base two_squares\<rparr>)) 0
   \<and> \<not> isl (rasterize (\<lambda>b. b) two_squares)
   \<and> \<not> isl (updateParticlePosition (\<lambda>dt b. particles b) (1/2) (projr (rasterize (\<lambda>b. b) two_squares)))
   \<and> is_enriched_domain_corner
        (updateParticleDomainEnrichState
           (resetParticleDomainData (two_squares\<lparr>base := base two_squares\<rparr>))) ! 0 ! 5
   \<and> enriched_corner_num (projr (rasterize (\<lambda>b. b) two_squares)) 0 1 = 4
   \<and> enriched_corner_num
        (projr (updateParticlePosition (\<lambda>dt b. particles b) (1/2)
                  (projr (rasterize (\<lambda>b. b) two_squares)))) 0 1 = 4"
proof -
  let ?s = "resetParticleDomainData (two_squares\<lparr>base := base two_squares\<rparr>)"
  let ?t = "updateParticleDomainEnrichState ?s"
  let ?r = "rasterize (\<lambda>b. b) two_squares"
  let ?q = "updateParticlePosition (\<lambda>dt b. particles b) (1/2) (projr ?r)"
  have n: "objectNum ?s = 1" by code_simp
  have ok0: "particle_elements_ok ?s 0" by code_simp
  have ok: "\<forall>obj_idx<objectNum ?s. particle_elements_ok ?s obj_idx"
  proof (intro allI impI)
    fix obj_idx assume "obj_idx < objectNum ?s"
    then have "obj_idx = 0" unfolding n by simp
    with ok0 show "particle_elements_ok ?s obj_idx" by (simp only:)
  qed
  have run: "\<not> isl ?r" by code_simp
  have mov: "\<not> isl ?q" by code_simp
  have k: "0 < objectNum ?t" by code_simp
  have p: "1 < particleNumOfObject ?t 0" by code_simp
  have c: "2 < corner_num (Dim (base ?t))" by code_simp
  have e: "eleVertIndex (particle_domain_mesh ?t ! 0) 1 2 = 5" by code_simp
  have k': "0 < objectNum (projr ?r)" by code_simp
  have p': "1 < particleNumOfObject (projr ?r) 0" by code_simp
  have D: "corner_num (Dim (base (projr ?r))) = 4" by code_simp
  have k'': "0 < objectNum (projr ?q)" by code_simp
  have p'': "1 < particleNumOfObject (projr ?q) 0" by code_simp
  have D': "corner_num (Dim (base (projr ?q))) = 4" by code_simp
  note th = built_in_criterion_enriches_every_particle
              [OF ok refl, where cpdi2_updateParticlePosition = "\<lambda>dt b. particles b" and dt = "1/2"]
  from th [THEN conjunct2, THEN conjunct1] k p c
  have "is_enriched_domain_corner ?t ! 0 ! eleVertIndex (particle_domain_mesh ?t ! 0) 1 2" by blast
  then have 1: "is_enriched_domain_corner ?t ! 0 ! 5" unfolding e .
  note rest = th [THEN conjunct2, THEN conjunct2]
  from rest [THEN conjunct2, THEN spec, THEN spec, THEN spec,
           of "\<lambda>b. b" two_squares "projr ?r"] sum_Inr_projr [OF run]
  have sc: "same_classification ?t (projr ?r)" by simp
  note at_r = rest [THEN conjunct1, THEN spec, THEN mp, OF sc]
  from at_r [THEN conjunct1] k' p'
  have 2: "enriched_corner_num (projr ?r) 0 1 = corner_num (Dim (base (projr ?r)))" by blast
  note counts = updateParticlePosition_counts [OF sum_Inr_projr [OF mov]]
  from at_r [THEN conjunct2, THEN spec, of "projr ?q"] sum_Inr_projr [OF mov] counts
  have sc': "same_classification ?t (projr ?q)" by blast
  from rest [THEN conjunct1, THEN spec, THEN mp, OF sc', THEN conjunct1] k'' p''
  have 3: "enriched_corner_num (projr ?q) 0 1 = corner_num (Dim (base (projr ?q)))" by blast
  from n ok0 run mov 1 2 3 D D' show ?thesis by simp
qed

text \<open>Not every domain corner is enriched: after particle 0 of the two squares has been
  deleted, the mesh of the object still has six vertices, and its one particle has the
  element 0, the vertices 0 to 3. The classification, in \<^verbatim>\<open>rasterize\<close> after the reset,
  leaves the vertices 4 and 5 ordinary; the particle is fully enriched all the same.\<close>

theorem built_in_criterion_counterexample:
  "objectNum one_square_left = 1
   \<and> particleNumOfObject one_square_left 0 = 1
   \<and> vertNum (particle_domain_mesh one_square_left ! 0) = 6
   \<and> particle_elements_ok (resetParticleDomainData one_square_left) 0
   \<and> is_enriched_domain_corner
        (updateParticleDomainEnrichState (resetParticleDomainData one_square_left)) ! 0
       = [True, True, True, True, False, False]
   \<and> \<not> isl (rasterize (\<lambda>b. b) one_square_left)
   \<and> is_enriched_domain_corner (projr (rasterize (\<lambda>b. b) one_square_left)) ! 0
       = [True, True, True, True, False, False]
   \<and> enriched_corner_num (projr (rasterize (\<lambda>b. b) one_square_left)) 0 0 = 4"
  by code_simp

text \<open>C9, as amended. The four functions that follow a change of the particle set keep
  the corner storage in lockstep with the particles: if it has one weight record and one
  gradient record per particle before and the parent's function appends or erases the
  particles its name says, it has one per particle afterwards; an appended particle gets
  records of \<open>corner_num\<close> zeros at the end, and the records of an erased particle or
  object are erased at its index, so the record of index \<open>i\<close> stays with the particle of
  index \<open>i\<close>. None of the four touches the particle-domain meshes or the per-corner
  arrays. These are rebuilt by \<^verbatim>\<open>constructParticleDomainMesh\<close>, which
  \<^verbatim>\<open>initSimulationData\<close> calls: afterwards the mesh of every object has one element per
  particle with its vertices at the particle's domain corners, and every per-corner
  array has one entry per vertex.\<close>

theorem corner_storage_lockstep:
  fixes s :: "('v::zero, 'm) InvertibleMPMSolid"
  assumes al: "corner_storage_aligned s"
  shows
   "(particles (appendAll (base s)) = particles (base s) @ [ps] \<longrightarrow>
       corner_storage_aligned (appendAllParticleRelatedDataOfLastObject appendAll s)
       \<and> particle_corner_weight (appendAllParticleRelatedDataOfLastObject appendAll s)
           = particle_corner_weight s
               @ [replicate (length ps) (replicate (corner_num (Dim (appendAll (base s)))) 0)]
       \<and> particle_corner_gradient (appendAllParticleRelatedDataOfLastObject appendAll s)
           = particle_corner_gradient s
               @ [replicate (length ps) (replicate (corner_num (Dim (appendAll (base s)))) 0)])
    \<and> (obj_idx < objectNum s
        \<and> particles (appendLast obj_idx (base s))
            = (particles (base s))[obj_idx := particles (base s) ! obj_idx @ [x]] \<longrightarrow>
       corner_storage_aligned (appendLastParticleRelatedDataOfObject appendLast obj_idx s)
       \<and> particle_corner_weight (appendLastParticleRelatedDataOfObject appendLast obj_idx s)
           = (particle_corner_weight s)[obj_idx := particle_corner_weight s ! obj_idx
                @ [replicate (corner_num (Dim (appendLast obj_idx (base s)))) 0]]
       \<and> particle_corner_gradient (appendLastParticleRelatedDataOfObject appendLast obj_idx s)
           = (particle_corner_gradient s)[obj_idx := particle_corner_gradient s ! obj_idx
                @ [replicate (corner_num (Dim (appendLast obj_idx (base s)))) 0]])
    \<and> (obj_idx < objectNum s
        \<and> particles (deleteAll obj_idx (base s)) = erase obj_idx (particles (base s)) \<longrightarrow>
       corner_storage_aligned (deleteAllParticleRelatedDataOfObject deleteAll obj_idx s)
       \<and> particle_corner_weight (deleteAllParticleRelatedDataOfObject deleteAll obj_idx s)
           = erase obj_idx (particle_corner_weight s)
       \<and> particle_corner_gradient (deleteAllParticleRelatedDataOfObject deleteAll obj_idx s)
           = erase obj_idx (particle_corner_gradient s))
    \<and> (obj_idx < objectNum s \<and> particle_idx < particleNumOfObject s obj_idx
        \<and> particles (deleteOne obj_idx particle_idx (base s))
            = (particles (base s))[obj_idx := erase particle_idx (particles (base s) ! obj_idx)] \<longrightarrow>
       corner_storage_aligned (deleteOneParticleRelatedDataOfObject deleteOne obj_idx particle_idx s)
       \<and> particle_corner_weight (deleteOneParticleRelatedDataOfObject deleteOne obj_idx particle_idx s)
           = (particle_corner_weight s)[obj_idx := erase particle_idx (particle_corner_weight s ! obj_idx)]
       \<and> particle_corner_gradient (deleteOneParticleRelatedDataOfObject deleteOne obj_idx particle_idx s)
           = (particle_corner_gradient s)[obj_idx := erase particle_idx (particle_corner_gradient s ! obj_idx)])
    \<and> corner_mesh_unchanged s (appendAllParticleRelatedDataOfLastObject appendAll s)
    \<and> corner_mesh_unchanged s (appendLastParticleRelatedDataOfObject appendLast obj_idx s)
    \<and> corner_mesh_unchanged s (deleteAllParticleRelatedDataOfObject deleteAll obj_idx s)
    \<and> corner_mesh_unchanged s (deleteOneParticleRelatedDataOfObject deleteOne obj_idx particle_idx s)
    \<and> (\<forall>k<objectNum s. domain_mesh_built (constructParticleDomainMesh s) k)
    \<and> (\<forall>k<objectNum (initSimulationData MPMSolid_initSimulationData s).
          domain_mesh_built (initSimulationData MPMSolid_initSimulationData s) k)"
proof -
  have u: "corner_mesh_unchanged s (appendAllParticleRelatedDataOfLastObject appendAll s)"
    "corner_mesh_unchanged s (appendLastParticleRelatedDataOfObject appendLast obj_idx s)"
    "corner_mesh_unchanged s (deleteAllParticleRelatedDataOfObject deleteAll obj_idx s)"
    "corner_mesh_unchanged s (deleteOneParticleRelatedDataOfObject deleteOne obj_idx particle_idx s)"
    by (simp_all add: corner_mesh_unchanged_def appendAllParticleRelatedDataOfLastObject_def
          appendLastParticleRelatedDataOfObject_def deleteAllParticleRelatedDataOfObject_def
          deleteOneParticleRelatedDataOfObject_def Let_def)
  have c: "\<forall>k<objectNum s. domain_mesh_built (constructParticleDomainMesh s) k"
    by (simp add: domain_mesh_built_construct)
  have i: "\<forall>k<objectNum (initSimulationData MPMSolid_initSimulationData s).
          domain_mesh_built (initSimulationData MPMSolid_initSimulationData s) k"
  proof (intro allI impI)
    fix k assume "k < objectNum (initSimulationData MPMSolid_initSimulationData s)"
    then have "k < objectNum (s\<lparr>base := MPMSolid_initSimulationData (base s)\<rparr>)"
      by (simp add: initSimulationData_def objectNum_def constructParticleDomainMesh_result(1)[OF refl])
    then show "domain_mesh_built (initSimulationData MPMSolid_initSimulationData s) k"
      unfolding initSimulationData_def by (rule domain_mesh_built_construct)
  qed
  show ?thesis
    using appendAll_lockstep(1,2,3)[OF al, of appendAll ps]
      appendLast_lockstep(1,2,3)[OF al, of obj_idx appendLast x]
      deleteAll_lockstep(1,2,3)[OF al, of obj_idx deleteAll]
      deleteOne_lockstep(1,2,3)[OF al, of obj_idx particle_idx deleteOne] u c i
    by blast
qed

theorem corner_storage_lockstep_witness:
  "corner_storage_aligned two_squares
   \<and> 0 < objectNum two_squares \<and> 0 < particleNumOfObject two_squares 0
   \<and> map mass (particles (CPDIMPMSolid_deleteOneParticleRelatedDataOfObject 0 0 (base two_squares)) ! 0) = [4]
   \<and> corner_storage_aligned one_square_left
   \<and> particle_corner_weight one_square_left = [[[1 / 2, 1 / 4, 1 / 8, 1 / 8]]]
   \<and> corner_mesh_unchanged two_squares one_square_left
   \<and> domain_mesh_built (constructParticleDomainMesh one_square_left) 0"
proof -
  let ?del = "CPDIMPMSolid_deleteOneParticleRelatedDataOfObject :: nat \<Rightarrow> nat \<Rightarrow> (vec2, mat2) CPDIMPMSolid \<Rightarrow> _"
  have al: "corner_storage_aligned two_squares" by code_simp
  have k: "0 < objectNum two_squares" by code_simp
  have p: "0 < particleNumOfObject two_squares 0" by code_simp
  have eff: "particles (?del 0 0 (base two_squares))
             = (particles (base two_squares))[0 := erase 0 (particles (base two_squares) ! 0)]"
    by (simp add: CPDIMPMSolid_deleteOneParticleRelatedDataOfObject_def)
  have m: "map mass (particles (?del 0 0 (base two_squares)) ! 0) = [4]" by code_simp
  have w: "(particle_corner_weight two_squares)[0 := erase 0 (particle_corner_weight two_squares ! 0)]
           = [[[1 / 2, 1 / 4, 1 / 8, 1 / 8]]]" by code_simp
  note th = corner_storage_lockstep [OF al, where obj_idx = 0 and particle_idx = 0 and deleteOne = ?del]
  from th k p eff have 1: "corner_storage_aligned one_square_left"
    and 2: "particle_corner_weight one_square_left
           = (particle_corner_weight two_squares)[0 := erase 0 (particle_corner_weight two_squares ! 0)]"
    and 3: "corner_mesh_unchanged two_squares one_square_left"
    unfolding one_square_left_def by blast+
  have al': "corner_storage_aligned one_square_left" by (rule 1)
  have k': "0 < objectNum one_square_left" by code_simp
  from corner_storage_lockstep [OF al'] k'
  have 4: "domain_mesh_built (constructParticleDomainMesh one_square_left) 0" by blast
  from al k p m 1 2 [unfolded w] 3 4 show ?thesis by blast
qed

text \<open>After particle 0 of the two squares has been deleted, the object has one particle,
  and its mesh still has the two elements and six vertices, and its per-corner arrays the
  six entries, of before: element 0 is still the square at \<open>(0,0)\<close> of the deleted
  particle, while the domain of the particle that is left starts at \<open>(1,0)\<close>. A call of
  \<^verbatim>\<open>constructParticleDomainMesh\<close> would give one element and four vertices.\<close>

theorem mesh_not_rebuilt_counterexample:
  "particleNumOfObject one_square_left 0 = 1
   \<and> ele_num (particle_domain_mesh one_square_left ! 0) = 2
   \<and> vertNum (particle_domain_mesh one_square_left ! 0) = 6
   \<and> length (is_enriched_domain_corner one_square_left ! 0) = 6
   \<and> length (domain_corner_mass one_square_left ! 0) = 6
   \<and> length (domain_corner_velocity one_square_left ! 0) = 6
   \<and> length (domain_corner_velocity_before one_square_left ! 0) = 6
   \<and> particle_domain_corners (base one_square_left) ! 0 ! 0 ! 0 = Vec2 1 0
   \<and> vertPos (particle_domain_mesh one_square_left ! 0)
        (eleVertIndex (particle_domain_mesh one_square_left ! 0) 0 0) = Vec2 0 0
   \<and> ele_num (particle_domain_mesh (constructParticleDomainMesh one_square_left) ! 0) = 1
   \<and> vertNum (particle_domain_mesh (constructParticleDomainMesh one_square_left) ! 0) = 4
   \<and> length (is_enriched_domain_corner (constructParticleDomainMesh one_square_left) ! 0) = 4"
  by code_simp




end
